(* ===== verification/Prelude.thy ===== *)
theory Prelude
  imports Main "HOL-Library.Word"
begin

text \<open>
  Shared vocabulary of the development: results that may be errors (\<open>'e + 'a\<close>, with \<open>Inl\<close> the
  exception that the Python code raises), the run of a step function over a list of events, the
  interfaces (locales) that several components implement, and the generic lemmas on lists and
  maps that their proofs share.
\<close>

named_theorems res_simps \<open>unfolding of the result combinators\<close>

section \<open>Results that may be errors\<close>

type_synonym ('e, 'a) result = "'e + 'a"

definition res_bind :: "('e, 'a) result \<Rightarrow> ('a \<Rightarrow> ('e, 'b) result) \<Rightarrow> ('e, 'b) result" where
  "res_bind r f = (case r of Inl e \<Rightarrow> Inl e | Inr x \<Rightarrow> f x)"

lemma res_bind_simps [simp, res_simps]:
  "res_bind (Inl e) f = Inl e"
  "res_bind (Inr x) f = f x"
  by (simp_all add: res_bind_def)

lemma res_bind_eq_Inr [simp, res_simps]:
  "res_bind r f = Inr y \<longleftrightarrow> (\<exists>x. r = Inr x \<and> f x = Inr y)"
  by (cases r) auto

lemma res_bind_eq_Inl [res_simps]:
  "res_bind r f = Inl e \<longleftrightarrow> r = Inl e \<or> (\<exists>x. r = Inr x \<and> f x = Inl e)"
  by (cases r) auto

text \<open>A guard raises its error when the condition fails.\<close>

definition res_guard :: "bool \<Rightarrow> 'e \<Rightarrow> ('e, unit) result" where
  "res_guard b e = (if b then Inr () else Inl e)"

lemma res_guard_simps [simp, res_simps]:
  "res_guard True e = Inr ()"
  "res_guard False e = Inl e"
  "res_guard b e = Inr u \<longleftrightarrow> b"
  "res_guard b e = Inl e' \<longleftrightarrow> \<not> b \<and> e' = e"
  by (auto simp: res_guard_def)

text \<open>A loop that stops at the first error: a map and a left fold.\<close>

primrec res_map :: "('a \<Rightarrow> ('e, 'b) result) \<Rightarrow> 'a list \<Rightarrow> ('e, 'b list) result" where
  "res_map f [] = Inr []"
| "res_map f (x # xs) = res_bind (f x) (\<lambda>y. res_bind (res_map f xs) (\<lambda>ys. Inr (y # ys)))"

primrec res_fold :: "('a \<Rightarrow> 's \<Rightarrow> ('e, 's) result) \<Rightarrow> 'a list \<Rightarrow> 's \<Rightarrow> ('e, 's) result" where
  "res_fold f [] s = Inr s"
| "res_fold f (x # xs) s = res_bind (f x s) (res_fold f xs)"

lemma res_map_Inr_length: "res_map f xs = Inr ys \<Longrightarrow> length ys = length xs"
  by (induction xs arbitrary: ys) auto

lemma res_map_Inr_set: "res_map f xs = Inr ys \<Longrightarrow> y \<in> set ys \<Longrightarrow> \<exists>x \<in> set xs. f x = Inr y"
  by (induction xs arbitrary: ys) auto

lemma res_map_Inr_iff: "res_map f xs = Inr ys \<longleftrightarrow> list_all2 (\<lambda>x y. f x = Inr y) xs ys"
  by (induction xs arbitrary: ys) (auto simp: list_all2_Cons1)

lemma res_map_ok: "(\<And>x. x \<in> set xs \<Longrightarrow> f x = Inr (g x)) \<Longrightarrow> res_map f xs = Inr (map g xs)"
  by (induction xs) auto

lemma res_fold_append: "res_fold f (xs @ ys) s = res_bind (res_fold f xs s) (res_fold f ys)"
  by (induction xs arbitrary: s) (auto simp: res_bind_def split: sum.splits)

text \<open>A fold keeps what each of its steps keeps.\<close>

lemma res_fold_invariant:
  assumes "res_fold f xs s = Inr t" and "I s"
    and "\<And>x u v. x \<in> set xs \<Longrightarrow> I u \<Longrightarrow> f x u = Inr v \<Longrightarrow> I v"
  shows "I t"
  using assms
proof (induction xs arbitrary: s)
  case Nil
  then show ?case by simp
next
  case (Cons x xs)
  then obtain u where "f x s = Inr u" and "res_fold f xs u = Inr t" by auto
  with Cons show ?case by (metis list.set_intros)
qed

lemma res_fold_cong:
  "(\<And>x s. x \<in> set xs \<Longrightarrow> f x s = g x s) \<Longrightarrow> res_fold f xs s = res_fold g xs s"
  by (induction xs arbitrary: s) (auto simp: res_bind_def split: sum.splits)

lemma res_fold_Inl: "res_fold f xs s = Inl e \<Longrightarrow> \<exists>x \<in> set xs. \<exists>u. f x u = Inl e"
  by (induction xs arbitrary: s) (auto simp: res_bind_eq_Inl)

section \<open>Runs of a step function\<close>

text \<open>
  A component with state is a step function into \<open>option\<close>: \<open>None\<close> says that the event cannot
  happen in that state. A run is a list of events, each of which can happen.
\<close>

primrec run :: "('s \<Rightarrow> 'e \<Rightarrow> 's option) \<Rightarrow> 's \<Rightarrow> 'e list \<Rightarrow> 's option" where
  "run step s [] = Some s"
| "run step s (e # es) = (case step s e of None \<Rightarrow> None | Some t \<Rightarrow> run step t es)"

lemma run_append:
  "run step s (es @ fs) = (case run step s es of None \<Rightarrow> None | Some t \<Rightarrow> run step t fs)"
  by (induction es arbitrary: s) (auto split: option.splits)

lemma run_snoc: "run step s (es @ [e]) = (case run step s es of None \<Rightarrow> None | Some t \<Rightarrow> step t e)"
  by (auto simp: run_append split: option.splits)

text \<open>The interface of an inductive invariant: what a component shows of one step holds of runs.\<close>

locale step_invariant =
  fixes step :: "'s \<Rightarrow> 'e \<Rightarrow> 's option"
    and inv :: "'s \<Rightarrow> bool"
  assumes step_inv: "inv s \<Longrightarrow> step s e = Some t \<Longrightarrow> inv t"
begin

lemma run_inv: "inv s \<Longrightarrow> run step s es = Some t \<Longrightarrow> inv t"
proof (induction es arbitrary: s)
  case Nil
  then show ?case by simp
next
  case (Cons e es)
  then show ?case by (auto split: option.splits intro: step_inv)
qed

end

text \<open>The interface of a monotone run: each step only moves up in a reflexive, transitive order.\<close>

locale step_monotone =
  fixes step :: "'s \<Rightarrow> 'e \<Rightarrow> 's option"
    and le :: "'s \<Rightarrow> 's \<Rightarrow> bool"
  assumes le_refl: "le s s"
    and le_trans: "le s t \<Longrightarrow> le t u \<Longrightarrow> le s u"
    and step_le: "step s e = Some t \<Longrightarrow> le s t"
begin

lemma run_le: "run step s es = Some t \<Longrightarrow> le s t"
proof (induction es arbitrary: s)
  case Nil
  then show ?case by (simp add: le_refl)
next
  case (Cons e es)
  then obtain u where "step s e = Some u" and "run step u es = Some t"
    by (auto split: option.splits)
  then show ?case using Cons.IH le_trans step_le by blast
qed

end

text \<open>
  The interface of a refinement: seen through \<open>abs\<close>, each step is a step of the specification or
  changes nothing, as long as the invariant holds. Every run then is a run of the specification.
\<close>

locale simulation = step_invariant step inv
  for step :: "'s \<Rightarrow> 'e \<Rightarrow> 's option" and inv :: "'s \<Rightarrow> bool" +
  fixes abs :: "'s \<Rightarrow> 'a" and spec :: "'a \<Rightarrow> 'a \<Rightarrow> bool"
  assumes step_sim: "inv s \<Longrightarrow> step s e = Some t \<Longrightarrow> abs t = abs s \<or> spec (abs s) (abs t)"
begin

lemma run_sim: "inv s \<Longrightarrow> run step s es = Some t \<Longrightarrow> spec\<^sup>*\<^sup>* (abs s) (abs t)"
proof (induction es arbitrary: s)
  case Nil
  then show ?case by simp
next
  case (Cons e es)
  then obtain u where u: "step s e = Some u" "run step u es = Some t" by (auto split: option.splits)
  then have "spec\<^sup>*\<^sup>* (abs u) (abs t)" using Cons.IH Cons.prems(1) step_inv by blast
  with step_sim[OF Cons.prems(1) u(1)] show ?case by (auto intro: converse_rtranclp_into_rtranclp)
qed

end

section \<open>Encoders and decoders\<close>

text \<open>
  The contract between an encoder that may raise and its decoder: what was encoded decodes to
  itself. Two encodings of different values therefore differ.
\<close>

locale codec =
  fixes enc :: "'a \<Rightarrow> ('e, 'b) result"
    and dec :: "'b \<Rightarrow> ('f, 'a) result"
  assumes dec_enc: "enc x = Inr y \<Longrightarrow> dec y = Inr x"
begin

lemma enc_inj: "enc x = Inr y \<Longrightarrow> enc x' = Inr y \<Longrightarrow> x = x'"
  by (drule dec_enc, drule dec_enc) simp

lemma enc_list_inj:
  "res_map enc xs = Inr ys \<Longrightarrow> res_map dec ys = Inr xs"
proof (induction xs arbitrary: ys)
  case Nil
  then show ?case by simp
next
  case (Cons x xs)
  then show ?case by (auto dest: dec_enc)
qed

end

text \<open>Two codecs in sequence are a codec.\<close>

locale codec_seq = inner: codec enc1 dec1 + outer: codec enc2 dec2
  for enc1 :: "'a \<Rightarrow> ('e, 'b) result" and dec1 :: "'b \<Rightarrow> ('f, 'a) result"
    and enc2 :: "'b \<Rightarrow> ('e, 'c) result" and dec2 :: "'c \<Rightarrow> ('f, 'b) result"
begin

lemma dec_enc_seq:
  "res_bind (enc1 x) enc2 = Inr z \<Longrightarrow> res_bind (dec2 z) dec1 = Inr x"
  by (auto dest: inner.dec_enc outer.dec_enc)

end

section \<open>Lists\<close>

lemma takeWhile_dropWhile_split:
  "x \<notin> set xs \<Longrightarrow> takeWhile (\<lambda>y. y \<noteq> x) (xs @ x # ys) = xs \<and> dropWhile (\<lambda>y. y \<noteq> x) (xs @ x # ys) = x # ys"
  by (induction xs) auto

lemma takeWhile_all: "(\<And>x. x \<in> set xs \<Longrightarrow> P x) \<Longrightarrow> takeWhile P xs = xs"
  by (induction xs) auto

lemma dropWhile_none: "(\<And>x. x \<in> set xs \<Longrightarrow> P x) \<Longrightarrow> dropWhile P xs = []"
  by (induction xs) auto

lemma length_filter_mono: "(\<And>y. P y \<Longrightarrow> Q y) \<Longrightarrow> length (filter P ys) \<le> length (filter Q ys)"
  by (induction ys) (auto simp: le_SucI)

lemma length_le_one: "length ys \<le> 1 \<Longrightarrow> ys = [] \<or> (\<exists>y. ys = [y])"
  by (cases ys) auto

end
