(* ===== verification/PyText.thy ===== *)
theory PyText
  imports Prelude
begin

text \<open>
  The part of Python's \<open>str\<close> and \<open>bytes\<close> that the backend uses. A \<open>str\<close> is the list of its code
  points, a \<open>bytes\<close> object a list of 8-bit words. Strings that the code writes as literals are
  \<open>lit ''...''\<close>. The UTF-8 codec is CPython's: strict encoding rejects surrogates, strict decoding
  rejects every ill-formed sequence, and decoding with \<open>errors="replace"\<close> puts one U+FFFD for each
  maximal ill-formed part.
\<close>

type_synonym pystr = "nat list"
type_synonym byte = "8 word"
type_synonym bytes = "8 word list"

definition byte_of :: "nat \<Rightarrow> byte" where
  "byte_of n = of_nat n"

lemma unat_byte_of [simp]: "n < 256 \<Longrightarrow> unat (byte_of n) = n"
  by (simp add: byte_of_def unat_of_nat take_bit_nat_eq_self)

lemma byte_of_unat [simp]: "byte_of (unat b) = b"
  by (simp add: byte_of_def)

lemma unat_byte_less: "unat (b :: byte) < 256"
  using unsigned_less [of b] by simp

text \<open>The exceptions that the modelled code raises or lets through.\<close>

datatype py_error =
    ValueError string
  | UnicodeEncodeError
  | UnicodeDecodeError
  | BinasciiError string
  | TypeError string
  | OverflowError
  | InvalidTag string
  | OtherError string

text \<open>What \<open>except ValueError\<close> catches: the class itself and its subclasses.\<close>

fun is_value_error :: "py_error \<Rightarrow> bool" where
  "is_value_error (ValueError _) = True"
| "is_value_error UnicodeEncodeError = True"
| "is_value_error UnicodeDecodeError = True"
| "is_value_error (BinasciiError _) = True"
| "is_value_error _ = False"

fun is_type_error :: "py_error \<Rightarrow> bool" where
  "is_type_error (TypeError _) = True"
| "is_type_error _ = False"

definition lit :: "string \<Rightarrow> pystr" where
  "lit s = map of_char s"

lemma lit_simps: "lit [] = []" "lit (c # cs) = of_char c # lit cs"
  by (simp_all add: lit_def)

lemma lit_inj [simp]: "lit s = lit t \<longleftrightarrow> s = t"
  by (auto simp: lit_def inj_on_def intro!: inj_mapD)

lemma lit_eq_Nil [simp]: "lit s = [] \<longleftrightarrow> s = []" "[] = lit s \<longleftrightarrow> s = []"
  by (auto simp: lit_def)

section \<open>Splitting, joining, stripping\<close>

text \<open>\<open>s.split(c)\<close> for a one-character separator, \<open>c.join(parts)\<close>, and \<open>s.split(c, 1)\<close>.\<close>

fun split_on :: "nat \<Rightarrow> pystr \<Rightarrow> pystr list" where
  "split_on c [] = [[]]"
| "split_on c (x # xs) =
     (if x = c then [] # split_on c xs
      else (case split_on c xs of [] \<Rightarrow> [[x]] | p # ps \<Rightarrow> (x # p) # ps))"

fun join_with :: "nat \<Rightarrow> pystr list \<Rightarrow> pystr" where
  "join_with c [] = []"
| "join_with c [p] = p"
| "join_with c (p # q # ps) = p @ c # join_with c (q # ps)"

definition before :: "nat \<Rightarrow> pystr \<Rightarrow> pystr" where
  "before c s = takeWhile (\<lambda>x. x \<noteq> c) s"

definition after :: "nat \<Rightarrow> pystr \<Rightarrow> pystr" where
  "after c s = tl (dropWhile (\<lambda>x. x \<noteq> c) s)"

lemma split_on_not_Nil [simp]: "split_on c s \<noteq> []"
  by (cases s) (auto split: list.splits)

lemma split_on_none: "c \<notin> set s \<Longrightarrow> split_on c s = [s]"
  by (induction s) auto

lemma split_on_append: "c \<notin> set p \<Longrightarrow> split_on c (p @ c # s) = p # split_on c s"
  by (induction p) auto

lemma split_on_parts: "p \<in> set (split_on c s) \<Longrightarrow> c \<notin> set p \<and> set p \<subseteq> set s"
proof (induction s arbitrary: p)
  case Nil
  then show ?case by simp
next
  case (Cons x xs)
  then show ?case by (fastforce split: if_splits list.splits)
qed

lemma split_join:
  assumes "ps \<noteq> []" and "\<forall>p \<in> set ps. c \<notin> set p"
  shows "split_on c (join_with c ps) = ps"
  using assms by (induction c ps rule: join_with.induct) (auto simp: split_on_none split_on_append)

lemma join_split: "join_with c (split_on c s) = s"
proof (induction s)
  case Nil
  then show ?case by simp
next
  case (Cons x xs)
  obtain p ps where p: "split_on c xs = p # ps" by (cases "split_on c xs") auto
  show ?case
  proof (cases "x = c")
    case True
    then show ?thesis using Cons.IH p by simp
  next
    case False
    then show ?thesis using Cons.IH p by (cases ps) auto
  qed
qed

lemma before_after:
  "c \<notin> set p \<Longrightarrow> before c (p @ c # s) = p"
  "c \<notin> set p \<Longrightarrow> after c (p @ c # s) = s"
  "c \<notin> set p \<Longrightarrow> before c p = p"
  by (auto simp: before_def after_def takeWhile_dropWhile_split intro!: takeWhile_all)

lemma before_append_after: "c \<in> set s \<Longrightarrow> before c s @ c # after c s = s"
  by (induction s) (auto simp: before_def after_def)

lemma set_before: "x \<in> set (before c s) \<Longrightarrow> x \<in> set s \<and> x \<noteq> c"
  unfolding before_def using set_takeWhileD by fastforce

lemma set_after: "x \<in> set (after c s) \<Longrightarrow> x \<in> set s"
  unfolding after_def by (metis list.set_sel(2) list.sel(2) set_dropWhileD)

text \<open>The code points that \<open>str.isspace\<close> holds of: what \<open>str.strip()\<close> removes at both ends.\<close>

definition is_space :: "nat \<Rightarrow> bool" where
  "is_space c \<longleftrightarrow> (9 \<le> c \<and> c \<le> 13) \<or> (28 \<le> c \<and> c \<le> 32) \<or> c = 133 \<or> c = 160 \<or> c = 5760
     \<or> (8192 \<le> c \<and> c \<le> 8202) \<or> c = 8232 \<or> c = 8233 \<or> c = 8239 \<or> c = 8287 \<or> c = 12288"

definition lstrip_of :: "(nat \<Rightarrow> bool) \<Rightarrow> pystr \<Rightarrow> pystr" where
  "lstrip_of P s = dropWhile P s"

definition rstrip_of :: "(nat \<Rightarrow> bool) \<Rightarrow> pystr \<Rightarrow> pystr" where
  "rstrip_of P s = rev (dropWhile P (rev s))"

definition strip :: "pystr \<Rightarrow> pystr" where
  "strip s = rstrip_of is_space (lstrip_of is_space s)"

lemma set_dropWhile_subset: "set (dropWhile P s) \<subseteq> set s"
  by (auto dest: set_dropWhileD)

lemma set_strip: "set (strip s) \<subseteq> set s"
  unfolding strip_def rstrip_of_def lstrip_of_def
  by (metis set_dropWhile_subset set_rev subset_trans)

lemma dropWhile_hd_False: "xs \<noteq> [] \<Longrightarrow> \<not> P (hd xs) \<Longrightarrow> dropWhile P xs = xs"
  by (cases xs) auto

lemma strip_ends:
  assumes "strip s \<noteq> []"
  shows "\<not> is_space (hd (strip s))" and "\<not> is_space (last (strip s))"
proof -
  define t where "t = dropWhile is_space s"
  define r where "r = dropWhile is_space (rev t)"
  have strip: "strip s = rev r" by (simp add: strip_def rstrip_of_def lstrip_of_def r_def t_def)
  with assms have ne: "r \<noteq> []" by simp
  then show "\<not> is_space (last (strip s))"
    unfolding strip r_def by (metis hd_dropWhile last_rev)
  obtain pre where "rev t = pre @ r" by (metis r_def takeWhile_dropWhile_id)
  then have "t = rev r @ rev pre" by (metis rev_append rev_rev_ident)
  then have "t \<noteq> []" and "hd t = hd (rev r)" using ne by (simp_all del: hd_rev)
  then show "\<not> is_space (hd (strip s))"
    unfolding strip t_def by (metis hd_dropWhile)
qed

lemma strip_id: "s \<noteq> [] \<Longrightarrow> \<not> is_space (hd s) \<Longrightarrow> \<not> is_space (last s) \<Longrightarrow> strip s = s"
  unfolding strip_def rstrip_of_def lstrip_of_def
  by (simp add: dropWhile_hd_False hd_rev del: dropWhile_eq_Nil_conv)

lemma strip_Nil [simp]: "strip [] = []"
  by (simp add: strip_def rstrip_of_def lstrip_of_def)

lemma strip_idem: "strip (strip s) = strip s"
  by (cases "strip s = []") (simp_all add: strip_id strip_ends)

section \<open>Numbers\<close>

text \<open>\<open>str(n)\<close> of an integer.\<close>

fun nat_str :: "nat \<Rightarrow> pystr" where
  "nat_str n = (if n < 10 then [48 + n] else nat_str (n div 10) @ [48 + n mod 10])"

declare nat_str.simps [simp del]

definition int_str :: "int \<Rightarrow> pystr" where
  "int_str i = (if i < 0 then 45 # nat_str (nat (- i)) else nat_str (nat i))"

lemma nat_str_digits: "c \<in> set (nat_str n) \<Longrightarrow> 48 \<le> c \<and> c \<le> 57"
proof (induction n rule: nat_str.induct)
  case (1 n)
  then show ?case by (subst (asm) (2) nat_str.simps) (auto split: if_splits)
qed

fun digits_val :: "pystr \<Rightarrow> nat \<Rightarrow> nat" where
  "digits_val [] acc = acc"
| "digits_val (c # cs) acc = digits_val cs (10 * acc + (c - 48))"

lemma digits_val_append: "digits_val (xs @ ys) acc = digits_val ys (digits_val xs acc)"
  by (induction xs arbitrary: acc) auto

lemma digits_val_nat_str: "digits_val (nat_str n) 0 = n"
proof (induction n rule: nat_str.induct)
  case (1 n)
  then show ?case by (subst nat_str.simps) (auto simp: digits_val_append)
qed

lemma nat_str_inj: "nat_str m = nat_str n \<Longrightarrow> m = n"
  by (metis digits_val_nat_str)

end
