(* ===== verification/Backoff.thy ===== *)
theory Backoff
  imports Complex_Main PyText
begin

text \<open>
  The configuration checks and the retry delay of \<open>EmbeddedWorkerRuntime\<close>
  (\<open>workers/runtime.py\<close>). A Python float is a rational or one of the three special values; the
  operations used here (comparison, \<open>min\<close>, \<open>ldexp\<close> by a non-negative exponent) are exact on
  doubles, so they are exact here. The one inexact expression, \<open>log2(max) - log2(base)\<close>, comes
  from the platform's libm and is a parameter \<open>log2_gap\<close>; what the code relies on is that it is
  close to the real number, stated as \<open>log2_gap_ok\<close>.
\<close>

section \<open>Floats\<close>

datatype pyfloat = Fin rat | PosInf | NegInf | NaN

fun isfinite :: "pyfloat \<Rightarrow> bool" where
  "isfinite (Fin _) = True"
| "isfinite _ = False"

text \<open>Python's \<open>x < y\<close>: every comparison with NaN is false.\<close>

fun float_less :: "pyfloat \<Rightarrow> pyfloat \<Rightarrow> bool" where
  "float_less (Fin x) (Fin y) \<longleftrightarrow> x < y"
| "float_less (Fin _) PosInf \<longleftrightarrow> True"
| "float_less NegInf (Fin _) \<longleftrightarrow> True"
| "float_less NegInf PosInf \<longleftrightarrow> True"
| "float_less _ _ \<longleftrightarrow> False"

fun float_le_zero :: "pyfloat \<Rightarrow> bool" where
  "float_le_zero (Fin x) \<longleftrightarrow> x \<le> 0"
| "float_le_zero NegInf \<longleftrightarrow> True"
| "float_le_zero _ \<longleftrightarrow> False"

text \<open>
  \<open>math.ldexp(x, e)\<close>: multiplication by a power of two, \<open>OverflowError\<close> when the result leaves
  the range of a double. (For \<open>e < 0\<close> the value is exact unless it is subnormal; the runtime never
  calls it so, see \<open>max_exponent_nonneg\<close>.)
\<close>

definition ldexp :: "rat \<Rightarrow> int \<Rightarrow> (py_error, rat) result" where
  "ldexp x e =
     (let y = (if 0 \<le> e then x * 2 ^ nat e else x / 2 ^ nat (- e))
      in if \<bar>y\<bar> < 2 ^ 1024 then Inr y else Inl OverflowError)"

section \<open>The constructor's checks\<close>

record backoff_config =
  base_backoff :: rat
  max_backoff :: rat
  max_exponent :: int

text \<open>\<open>any(not name or not name.strip() for name in runners)\<close>\<close>

definition blank_name :: "pystr \<Rightarrow> bool" where
  "blank_name name \<longleftrightarrow> name = [] \<or> strip name = []"

definition check_config ::
  "(rat \<Rightarrow> rat \<Rightarrow> rat) \<Rightarrow> pystr list \<Rightarrow> pyfloat \<Rightarrow> pyfloat \<Rightarrow> (py_error, backoff_config) result" where
  "check_config log2_gap names base mx =
     (if names = [] then Inl (ValueError ''At least one embedded worker runner is required'')
      else if list_ex blank_name names then Inl (ValueError ''Embedded worker names must not be empty'')
      else if \<not> isfinite base \<or> float_le_zero base
        then Inl (ValueError ''base_backoff_seconds must be finite and positive'')
      else if \<not> isfinite mx then Inl (ValueError ''max_backoff_seconds must be finite'')
      else if float_less mx base
        then Inl (ValueError ''max_backoff_seconds must be greater than or equal to base_backoff_seconds'')
      else (case (base, mx) of
              (Fin b, Fin m) \<Rightarrow>
                Inr \<lparr>base_backoff = b, max_backoff = m, max_exponent = \<lceil>log2_gap m b\<rceil>\<rparr>
            | _ \<Rightarrow> Inl (ValueError ''unreachable'')))"

section \<open>The retry delay\<close>

text \<open>
  \<open>min(math.ldexp(base, min(status.restart_count, max_exponent)), max)\<close>
\<close>

definition retry_seconds :: "backoff_config \<Rightarrow> nat \<Rightarrow> (py_error, rat) result" where
  "retry_seconds cfg count =
     res_bind (ldexp (base_backoff cfg) (min (int count) (max_exponent cfg)))
       (\<lambda>x. Inr (min x (max_backoff cfg)))"

text \<open>What the constructor leaves behind.\<close>

definition config_ok :: "backoff_config \<Rightarrow> bool" where
  "config_ok cfg \<longleftrightarrow> 0 < base_backoff cfg \<and> base_backoff cfg \<le> max_backoff cfg \<and> 0 \<le> max_exponent cfg
     \<and> base_backoff cfg * 2 ^ nat (max_exponent cfg) < 2 ^ 1024"

text \<open>What it leaves behind for every maximum, and the largest delay that can come of it.\<close>

definition config_sane :: "backoff_config \<Rightarrow> bool" where
  "config_sane cfg \<longleftrightarrow> 0 < base_backoff cfg \<and> base_backoff cfg \<le> max_backoff cfg \<and> 0 \<le> max_exponent cfg"

definition top_delay :: "backoff_config \<Rightarrow> rat" where
  "top_delay cfg = min (max_backoff cfg) (base_backoff cfg * 2 ^ nat (max_exponent cfg))"

text \<open>
  The accuracy of \<open>log2(m) - log2(b)\<close> that the code relies on: non-negative for \<open>b \<le> m\<close>, and
  within \<open>2 ^ (-10)\<close> of the real difference (libm and the subtraction are far better).
\<close>

definition log2_gap_ok :: "(rat \<Rightarrow> rat \<Rightarrow> rat) \<Rightarrow> rat \<Rightarrow> rat \<Rightarrow> bool" where
  "log2_gap_ok log2_gap m b \<longleftrightarrow> 0 \<le> log2_gap m b \<and>
     \<bar>real_of_rat (log2_gap m b) - (log 2 (real_of_rat m) - log 2 (real_of_rat b))\<bar> \<le> 1 / 1024"

lemma check_config_Inr:
  assumes "check_config gap names base mx = Inr cfg"
  obtains b m where "base = Fin b" "mx = Fin m" "0 < b" "b \<le> m"
    "cfg = \<lparr>base_backoff = b, max_backoff = m, max_exponent = \<lceil>gap m b\<rceil>\<rparr>"
    "names \<noteq> []" "\<forall>n \<in> set names. strip n \<noteq> []"
  using assms that
  by (cases base; cases mx)
    (auto simp: check_config_def blank_name_def list_ex_iff split: if_splits)

lemma check_config_ok:
  "names \<noteq> [] \<Longrightarrow> \<forall>n \<in> set names. strip n \<noteq> [] \<Longrightarrow> 0 < b \<Longrightarrow> b \<le> m
   \<Longrightarrow> check_config gap names (Fin b) (Fin m)
     = Inr \<lparr>base_backoff = b, max_backoff = m, max_exponent = \<lceil>gap m b\<rceil>\<rparr>"
  by (auto simp: check_config_def blank_name_def list_ex_iff)

text \<open>The exponent in real numbers: \<open>base * 2 ^ E\<close> lies between \<open>max\<close> and twice \<open>max\<close>, up to the tolerance.\<close>

lemma exponent_bounds:
  assumes ok: "log2_gap_ok gap m b" and b: "0 < b" and bm: "b \<le> m"
  defines "E \<equiv> nat \<lceil>gap m b\<rceil>"
  shows "real_of_rat m * 2 powr (- 1 / 1024) \<le> real_of_rat (b * 2 ^ E)"
    and "real_of_rat (b * 2 ^ E) \<le> real_of_rat m * 2 powr (1 + 1 / 1024)"
proof -
  let ?g = "real_of_rat (gap m b)" and ?m = "real_of_rat m" and ?b = "real_of_rat b"
  have pos: "0 < ?b" "0 < ?m" using b bm by simp_all
  have g0: "0 \<le> gap m b" and acc: "\<bar>?g - (log 2 ?m - log 2 ?b)\<bar> \<le> 1 / 1024"
    using ok by (simp_all add: log2_gap_ok_def)
  from g0 have "real E = of_int \<lceil>gap m b\<rceil>" by (simp add: E_def)
  moreover have "\<lceil>gap m b\<rceil> = \<lceil>?g\<rceil>" by simp
  ultimately have E: "?g \<le> real E" "real E < ?g + 1"
    using ceiling_correct [of ?g] by linarith+
  have "2 powr (log 2 ?m + (- 1 / 1024)) \<le> 2 powr (log 2 ?b + real E)"
    using acc E by (intro powr_mono; linarith)
  then show "?m * 2 powr (- 1 / 1024) \<le> real_of_rat (b * 2 ^ E)"
    using pos by (simp only: powr_add powr_log_cancel powr_realpow of_rat_mult of_rat_power) simp
  have "2 powr (log 2 ?b + real E) \<le> 2 powr (log 2 ?m + (1 + 1 / 1024))"
    using acc E by (intro powr_mono; linarith)
  then show "real_of_rat (b * 2 ^ E) \<le> ?m * 2 powr (1 + 1 / 1024)"
    using pos by (simp only: powr_add powr_log_cancel powr_realpow of_rat_mult of_rat_power) simp
qed

lemma max_exponent_nonneg: "log2_gap_ok gap m b \<Longrightarrow> 0 \<le> \<lceil>gap m b\<rceil>"
  by (simp add: log2_gap_ok_def)

text \<open>With a maximum of at most \<open>2 ^ 1022\<close> seconds the exponent never takes \<open>ldexp\<close> out of range.\<close>

lemma check_config_config_ok:
  assumes cfg: "check_config gap names base mx = Inr cfg"
    and gap: "\<And>b m. base = Fin b \<Longrightarrow> mx = Fin m \<Longrightarrow> log2_gap_ok gap m b"
    and small: "max_backoff cfg \<le> 2 ^ 1022"
  shows "config_ok cfg"
proof -
  obtain b m where bm: "base = Fin b" "mx = Fin m" "0 < b" "b \<le> m"
    and eq: "cfg = \<lparr>base_backoff = b, max_backoff = m, max_exponent = \<lceil>gap m b\<rceil>\<rparr>"
    using cfg by (rule check_config_Inr)
  have ok: "log2_gap_ok gap m b" using gap bm by blast
  let ?x = "b * 2 ^ nat \<lceil>gap m b\<rceil>"
  have m: "real_of_rat m \<le> 2 ^ 1022"
  proof -
    have "real_of_rat m \<le> real_of_rat (2 ^ 1022)" using small eq by (simp only: of_rat_less_eq) simp
    also have "real_of_rat (2 ^ 1022) = 2 ^ 1022" by (simp only: of_rat_power of_rat_numeral_eq)
    finally show ?thesis .
  qed
  have "real_of_rat ?x \<le> real_of_rat m * 2 powr (1 + 1 / 1024)"
    using exponent_bounds(2) [OF ok] bm by simp
  also have "\<dots> < real_of_rat m * 2 powr 2"
    using bm by (intro mult_strict_left_mono powr_less_mono) auto
  also have "\<dots> \<le> 2 ^ 1022 * 2 powr 2" using m by (intro mult_right_mono) auto
  also have "2 ^ 1022 * 2 powr 2 = real_of_rat (2 ^ 1024)"
    by (simp only: of_rat_power of_rat_numeral_eq) (simp add: powr_numeral flip: power_add)
  finally have "?x < 2 ^ 1024" by (simp only: of_rat_less)
  moreover have "-1 < gap m b" using ok by (simp add: log2_gap_ok_def)
  ultimately show ?thesis using bm eq by (simp add: config_ok_def)
qed

section \<open>Bounds, monotonicity and the exact value of the delay\<close>

lemma ldexp_nonneg:
  assumes "config_ok cfg"
  shows "ldexp (base_backoff cfg) (min (int n) (max_exponent cfg))
    = Inr (base_backoff cfg * 2 ^ nat (min (int n) (max_exponent cfg)))"
proof -
  let ?b = "base_backoff cfg" and ?e = "min (int n) (max_exponent cfg)"
  have pos: "0 < ?b" and e: "0 \<le> ?e" and top: "?b * 2 ^ nat (max_exponent cfg) < 2 ^ 1024"
    using assms by (simp_all add: config_ok_def)
  have "(2::rat) ^ nat ?e \<le> 2 ^ nat (max_exponent cfg)" by (intro power_increasing) auto
  then have "?b * 2 ^ nat ?e \<le> ?b * 2 ^ nat (max_exponent cfg)"
    using pos by (intro mult_left_mono) auto
  also note top
  finally show ?thesis using e pos by (simp add: ldexp_def Let_def abs_mult)
qed

lemma retry_seconds_eq:
  "config_ok cfg \<Longrightarrow> retry_seconds cfg n
    = Inr (min (base_backoff cfg * 2 ^ nat (min (int n) (max_exponent cfg))) (max_backoff cfg))"
  by (simp add: retry_seconds_def ldexp_nonneg)

lemma config_ok_sane: "config_ok cfg \<Longrightarrow> config_sane cfg"
  by (simp add: config_ok_def config_sane_def)

lemma check_config_sane:
  assumes "check_config gap names base mx = Inr cfg"
    and "\<And>b m. base = Fin b \<Longrightarrow> mx = Fin m \<Longrightarrow> log2_gap_ok gap m b"
  shows "config_sane cfg"
proof -
  obtain b m where bm: "base = Fin b" "mx = Fin m" "0 < b" "b \<le> m"
    and eq: "cfg = \<lparr>base_backoff = b, max_backoff = m, max_exponent = \<lceil>gap m b\<rceil>\<rparr>"
    using assms(1) by (rule check_config_Inr)
  have "log2_gap_ok gap m b" using assms(2) bm by blast
  then have "-1 < gap m b" by (simp add: log2_gap_ok_def)
  then show ?thesis using bm eq by (simp add: config_sane_def)
qed

text \<open>A delay that is computed is the doubled base under the largest delay.\<close>

lemma retry_seconds_capped:
  assumes "config_sane cfg" and "retry_seconds cfg n = Inr d"
  shows "d = min (base_backoff cfg * 2 ^ n) (top_delay cfg)"
proof -
  let ?b = "base_backoff cfg" and ?E = "nat (max_exponent cfg)"
  have b: "0 \<le> ?b" and E: "0 \<le> max_exponent cfg" using assms(1) by (simp_all add: config_sane_def)
  have d: "d = min (?b * 2 ^ nat (min (int n) (max_exponent cfg))) (max_backoff cfg)"
    using assms(2) E by (auto simp: retry_seconds_def ldexp_def Let_def split: if_splits)
  show ?thesis
  proof (cases "n \<le> ?E")
    case True
    then have "(2::rat) ^ n \<le> 2 ^ ?E" by (intro power_increasing) auto
    then have "?b * 2 ^ n \<le> ?b * 2 ^ ?E" using b by (rule mult_left_mono)
    moreover have "nat (min (int n) (max_exponent cfg)) = n" using True E by simp
    ultimately show ?thesis using d by (simp add: top_delay_def)
  next
    case False
    then have "(2::rat) ^ ?E \<le> 2 ^ n" by (intro power_increasing) auto
    then have "?b * 2 ^ ?E \<le> ?b * 2 ^ n" using b by (rule mult_left_mono)
    moreover have "nat (min (int n) (max_exponent cfg)) = ?E" using False E by simp
    ultimately show ?thesis using d by (simp add: top_delay_def min.commute min.absorb2)
  qed
qed

lemma top_delay_bounds:
  assumes "config_sane cfg"
  shows "base_backoff cfg \<le> top_delay cfg" and "top_delay cfg \<le> max_backoff cfg"
proof -
  have "base_backoff cfg * 1 \<le> base_backoff cfg * 2 ^ nat (max_exponent cfg)"
    using assms by (intro mult_left_mono) (auto simp: config_sane_def)
  then show "base_backoff cfg \<le> top_delay cfg" using assms by (simp add: top_delay_def config_sane_def)
  show "top_delay cfg \<le> max_backoff cfg" by (simp add: top_delay_def)
qed

text \<open>The largest delay is the maximum, up to the accuracy of the logarithm.\<close>

lemma top_delay_accuracy:
  assumes "check_config gap names base mx = Inr cfg"
    and "\<And>b m. base = Fin b \<Longrightarrow> mx = Fin m \<Longrightarrow> log2_gap_ok gap m b"
  shows "real_of_rat (max_backoff cfg) * 2 powr (- 1 / 1024) \<le> real_of_rat (top_delay cfg)"
proof -
  obtain b m where bm: "base = Fin b" "mx = Fin m" "0 < b" "b \<le> m"
    and eq: "cfg = \<lparr>base_backoff = b, max_backoff = m, max_exponent = \<lceil>gap m b\<rceil>\<rparr>"
    using assms(1) by (rule check_config_Inr)
  have "(2::real) powr (- 1 / 1024) \<le> 2 powr 0" by (intro powr_mono) auto
  then have "real_of_rat m * 2 powr (- 1 / 1024) \<le> real_of_rat m * 1" using bm by (intro mult_left_mono) auto
  moreover have "real_of_rat m * 2 powr (- 1 / 1024) \<le> real_of_rat (b * 2 ^ nat \<lceil>gap m b\<rceil>)"
    using exponent_bounds(1)[of gap m b] assms(2) bm by blast
  ultimately show ?thesis by (simp add: eq top_delay_def min_def)
qed

lemma retry_seconds_bounds:
  assumes "config_sane cfg" and "retry_seconds cfg n = Inr d"
  shows "base_backoff cfg \<le> d" and "d \<le> max_backoff cfg"
proof -
  have "base_backoff cfg * 1 \<le> base_backoff cfg * 2 ^ n"
    using assms(1) by (intro mult_left_mono) (auto simp: config_sane_def)
  then show "base_backoff cfg \<le> d" "d \<le> max_backoff cfg"
    using retry_seconds_capped[OF assms] top_delay_bounds[OF assms(1)] by auto
qed

lemma retry_seconds_range:
  assumes "config_ok cfg" and "retry_seconds cfg n = Inr d"
  shows "base_backoff cfg \<le> d" and "d \<le> max_backoff cfg" and "0 < d"
proof -
  have sane: "config_sane cfg" by (rule config_ok_sane[OF assms(1)])
  show "base_backoff cfg \<le> d" "d \<le> max_backoff cfg" by (rule retry_seconds_bounds[OF sane assms(2)])+
  then show "0 < d" using assms(1) by (simp add: config_ok_def)
qed

lemma retry_seconds_mono:
  assumes "config_ok cfg" and "n \<le> k" and "retry_seconds cfg n = Inr d" and "retry_seconds cfg k = Inr d'"
  shows "d \<le> d'"
proof -
  have "(2::rat) ^ nat (min (int n) (max_exponent cfg)) \<le> 2 ^ nat (min (int k) (max_exponent cfg))"
    using assms(2) by (intro power_increasing nat_mono min.mono) auto
  then have "base_backoff cfg * 2 ^ nat (min (int n) (max_exponent cfg))
      \<le> base_backoff cfg * 2 ^ nat (min (int k) (max_exponent cfg))"
    using assms(1) by (intro mult_left_mono) (auto simp: config_ok_def)
  with assms show ?thesis by (auto simp: retry_seconds_eq min_def split: if_splits)
qed

text \<open>When the exponent covers the maximum, the delay is the textbook capped doubling.\<close>

lemma retry_seconds_doubling:
  assumes ok: "config_ok cfg" and cover: "max_backoff cfg \<le> base_backoff cfg * 2 ^ nat (max_exponent cfg)"
  shows "retry_seconds cfg n = Inr (min (base_backoff cfg * 2 ^ n) (max_backoff cfg))"
proof (cases "int n \<le> max_exponent cfg")
  case True
  then show ?thesis using ok by (simp add: retry_seconds_eq)
next
  case False
  then have "(2::rat) ^ nat (max_exponent cfg) \<le> 2 ^ n" by (intro power_increasing) auto
  then have "base_backoff cfg * 2 ^ nat (max_exponent cfg) \<le> base_backoff cfg * 2 ^ n"
    using ok by (intro mult_left_mono) (auto simp: config_ok_def)
  with cover False ok show ?thesis by (simp add: retry_seconds_eq)
qed

end
