(* ===== verification/Runtime.thy ===== *)
theory Runtime
  imports Backoff
begin

text \<open>
  \<open>EmbeddedWorkerRuntime\<close> of \<open>workers/runtime.py\<close> as a state machine. The event loop runs one
  coroutine at a time and switches only at an \<open>await\<close>, so a step is the code between two
  suspensions: a call of \<open>start\<close>, the part of \<open>stop\<close> before and the part after its \<open>gather\<close>, a
  cancellation of its caller meanwhile, and the parts of \<open>_supervise\<close> between \<open>runner_factory()\<close> and
  \<open>asyncio.sleep\<close>. What a runner does at
  the end of its \<open>await\<close> is the environment's choice and part of the event. A requested
  cancellation is delivered at the task's next resumption, as \<open>Task.cancel\<close> documents: a coroutine
  that has not begun never runs, a sleeping one ends with \<open>CancelledError\<close>, and a runner sees it
  at its \<open>await\<close> and may let it through, turn it into another exit, or absorb it.
\<close>

section \<open>State\<close>

datatype worker_state = Starting | Running | Backoff | Stopping | Stopped

datatype worker_exit = ExitException | ExitReturned

record worker_status =
  state :: worker_state
  restart_count :: nat
  last_exit :: "worker_exit option"
  next_retry_seconds :: "rat option"

definition new_status :: worker_status where
  "new_status = \<lparr>state = Stopped, restart_count = 0, last_exit = None, next_retry_seconds = None\<rparr>"

text \<open>Where a supervisor task is, and whether \<open>cancel()\<close> was called on it and not yet delivered.\<close>

datatype task_end = EndCancelled | EndRaised

datatype task_pc = NotBegun | InRunner | InSleep | Finished task_end

datatype task = Task (pc: task_pc) (cancel_requested: bool)

text \<open>
  \<open>stopping\<close>: \<open>stop\<close> holds \<open>_lifecycle_lock\<close> and waits in \<open>asyncio.gather\<close>; \<open>stop_cancelled\<close>: its caller
  has been cancelled since. The names of the
  runners are the keys of a dict, so they are distinct.
\<close>

record runtime =
  config :: backoff_config
  runners :: "pystr list"
  statuses :: "pystr \<Rightarrow> worker_status"
  tasks :: "pystr \<Rightarrow> task option"
  started :: bool
  stopping :: bool
  stop_cancelled :: bool

section \<open>Construction, start, stop\<close>

definition init_runtime ::
  "(rat \<Rightarrow> rat \<Rightarrow> rat) \<Rightarrow> pystr list \<Rightarrow> pyfloat \<Rightarrow> pyfloat \<Rightarrow> (py_error, runtime) result" where
  "init_runtime log2_gap names base mx =
     res_bind (check_config log2_gap names base mx) (\<lambda>cfg.
       Inr \<lparr>config = cfg, runners = names, statuses = (\<lambda>_. new_status), tasks = (\<lambda>_. None),
            started = False, stopping = False, stop_cancelled = False\<rparr>)"

definition start_status :: "worker_status \<Rightarrow> worker_status" where
  "start_status st =
     st\<lparr>state := Starting, restart_count := 0, last_exit := None, next_retry_seconds := None\<rparr>"

definition start :: "runtime \<Rightarrow> runtime" where
  "start rt =
     (if started rt then rt
      else rt\<lparr>started := True,
              statuses := (\<lambda>w. if w \<in> set (runners rt) then start_status (statuses rt w) else statuses rt w),
              tasks := (\<lambda>w. if w \<in> set (runners rt) then Some (Task NotBegun False)
                            else tasks rt w)\<rparr>)"

text \<open>\<open>Task.cancel()\<close> has no effect on a task that is done.\<close>

definition cancel_task :: "task \<Rightarrow> task" where
  "cancel_task t = (case pc t of Finished _ \<Rightarrow> t | _ \<Rightarrow> Task (pc t) True)"

definition stop_begin :: "runtime \<Rightarrow> runtime" where
  "stop_begin rt =
     rt\<lparr>started := False, stopping := True, stop_cancelled := False,
        statuses := (\<lambda>w. if tasks rt w \<noteq> None then (statuses rt w)\<lparr>state := Stopping\<rparr> else statuses rt w),
        tasks := (\<lambda>w. map_option cancel_task (tasks rt w))\<rparr>"

definition stop_finish :: "runtime \<Rightarrow> runtime" where
  "stop_finish rt =
     rt\<lparr>stopping := False, tasks := (\<lambda>_. None),
        statuses := (\<lambda>w. if w \<in> set (runners rt)
                         then (statuses rt w)\<lparr>state := Stopped, next_retry_seconds := None\<rparr>
                         else statuses rt w)\<rparr>"

text \<open>When the caller of \<open>stop\<close> is cancelled in the \<open>gather\<close>, the future of \<open>asyncio.gather\<close> cancels its
  unfinished tasks again and raises \<open>CancelledError\<close> once all of them are done: what follows the
  \<open>gather\<close> is skipped, the lock is released, and \<open>_tasks\<close> and the statuses stay as they are.\<close>

definition stop_cancel :: "runtime \<Rightarrow> runtime" where
  "stop_cancel rt = rt\<lparr>stop_cancelled := True, tasks := (\<lambda>w. map_option cancel_task (tasks rt w))\<rparr>"

definition stop_abort :: "runtime \<Rightarrow> runtime" where
  "stop_abort rt = rt\<lparr>stopping := False\<rparr>"

section \<open>The supervisor loop\<close>

text \<open>What ends the \<open>await runner_factory()\<close>.\<close>

datatype runner_exit = Returns | Raises | RaisesCancelled | RaisesBase

text \<open>The head of the loop, the \<open>finally\<close> clause, and the body after the runner has ended.\<close>

definition loop_head :: "worker_status \<Rightarrow> worker_status" where
  "loop_head st = st\<lparr>state := Running, next_retry_seconds := None\<rparr>"

definition supervise_finally :: "worker_status \<Rightarrow> worker_status" where
  "supervise_finally st = st\<lparr>state := Stopped, next_retry_seconds := None\<rparr>"

definition back_off :: "backoff_config \<Rightarrow> worker_exit \<Rightarrow> worker_status \<Rightarrow> task_pc \<times> worker_status" where
  "back_off cfg e st =
     (case retry_seconds cfg (restart_count st) of
        Inl _ \<Rightarrow> (Finished EndRaised, supervise_finally (st\<lparr>last_exit := Some e\<rparr>))
      | Inr d \<Rightarrow> (InSleep, st\<lparr>last_exit := Some e, restart_count := Suc (restart_count st),
                             state := Backoff, next_retry_seconds := Some d\<rparr>))"

fun after_runner :: "backoff_config \<Rightarrow> runner_exit \<Rightarrow> worker_status \<Rightarrow> task_pc \<times> worker_status" where
  "after_runner cfg Returns st = back_off cfg ExitReturned st"
| "after_runner cfg Raises st = back_off cfg ExitException st"
| "after_runner cfg RaisesCancelled st = (Finished EndCancelled, supervise_finally st)"
| "after_runner cfg RaisesBase st = (Finished EndRaised, supervise_finally st)"

definition set_worker :: "runtime \<Rightarrow> pystr \<Rightarrow> task_pc \<times> worker_status \<Rightarrow> runtime" where
  "set_worker rt w p =
     rt\<lparr>tasks := (tasks rt)(w \<mapsto> Task (fst p) False),
        statuses := (statuses rt)(w := snd p)\<rparr>"

section \<open>Steps\<close>

datatype event =
    StartCall
  | StopCall
  | StopReturn
  | StopCancel
  | StopAbort
  | TaskBegin pystr
  | RunnerExit pystr runner_exit
  | RunnerAbsorb pystr
  | SleepEnd pystr

definition unfinished :: "runtime \<Rightarrow> pystr \<Rightarrow> bool" where
  "unfinished rt w \<longleftrightarrow> (case tasks rt w of None \<Rightarrow> False
     | Some t \<Rightarrow> (case pc t of Finished _ \<Rightarrow> False | _ \<Rightarrow> True))"

fun runtime_step :: "runtime \<Rightarrow> event \<Rightarrow> runtime option" where
  "runtime_step rt StartCall = (if stopping rt then None else Some (start rt))"
| "runtime_step rt StopCall =
     (if stopping rt then None else if \<not> started rt then Some rt else Some (stop_begin rt))"
| "runtime_step rt StopReturn =
     (if stopping rt \<and> \<not> stop_cancelled rt \<and> list_all (\<lambda>w. \<not> unfinished rt w) (runners rt)
      then Some (stop_finish rt) else None)"
| "runtime_step rt StopCancel = (if stopping rt then Some (stop_cancel rt) else None)"
| "runtime_step rt StopAbort =
     (if stopping rt \<and> stop_cancelled rt \<and> list_all (\<lambda>w. \<not> unfinished rt w) (runners rt)
      then Some (stop_abort rt) else None)"
| "runtime_step rt (TaskBegin w) =
     (case tasks rt w of
        Some (Task NotBegun c) \<Rightarrow>
          Some (set_worker rt w (if c then (Finished EndCancelled, statuses rt w)
                                 else (InRunner, loop_head (statuses rt w))))
      | _ \<Rightarrow> None)"
| "runtime_step rt (RunnerExit w e) =
     (case tasks rt w of
        Some (Task InRunner _) \<Rightarrow>
          Some (set_worker rt w (after_runner (config rt) e (statuses rt w)))
      | _ \<Rightarrow> None)"
| "runtime_step rt (RunnerAbsorb w) =
     (case tasks rt w of
        Some (Task InRunner True) \<Rightarrow> Some (set_worker rt w (InRunner, statuses rt w))
      | _ \<Rightarrow> None)"
| "runtime_step rt (SleepEnd w) =
     (case tasks rt w of
        Some (Task InSleep c) \<Rightarrow>
          Some (set_worker rt w (if c then (Finished EndCancelled, supervise_finally (statuses rt w))
                                 else (InRunner, loop_head (statuses rt w))))
      | _ \<Rightarrow> None)"

section \<open>The health snapshot\<close>

text \<open>
  \<open>status_snapshot\<close> is not a coroutine: \<open>/health\<close> calls it in a thread of its own, beside the event loop.
  It reads \<open>_started\<close> and then, worker by worker, the four fields of a status, and the supervisors step in
  between. \<open>seen r\<close> is the runtime at the reading \<open>r\<close>; the keys of \<open>_statuses\<close> never change. A step of
  the event loop writes each of these fields at most once, so that what a reading in the middle of a
  step sees is the value before or the value after it.
\<close>

datatype reading = ReadStarted | ReadState pystr | ReadCount pystr | ReadExit pystr | ReadRetry pystr

definition status_seen :: "(reading \<Rightarrow> runtime) \<Rightarrow> pystr \<Rightarrow> worker_status" where
  "status_seen seen w =
     \<lparr>state = state (statuses (seen (ReadState w)) w),
      restart_count = restart_count (statuses (seen (ReadCount w)) w),
      last_exit = last_exit (statuses (seen (ReadExit w)) w),
      next_retry_seconds = next_retry_seconds (statuses (seen (ReadRetry w)) w)\<rparr>"

definition status_snapshot :: "(reading \<Rightarrow> runtime) \<Rightarrow> pystr list \<Rightarrow> bool \<times> (pystr \<times> worker_status) list" where
  "status_snapshot seen names = (started (seen ReadStarted), map (\<lambda>w. (w, status_seen seen w)) names)"

end
