(* ===== verification/RuntimeInv.thy ===== *)
theory RuntimeInv
  imports Runtime
begin

text \<open>
  What every history of an \<open>EmbeddedWorkerRuntime\<close> keeps: the agreement between a worker's status,
  its task and the lifecycle flags; the isolation of the workers from each other; the accounting of
  failures and delays; and how \<open>stop\<close> ends.
\<close>

section \<open>The invariant\<close>

text \<open>The delay shown by a sleeping worker is the one computed for its last failure.\<close>

definition sleeping_status :: "backoff_config \<Rightarrow> worker_status \<Rightarrow> bool" where
  "sleeping_status cfg st \<longleftrightarrow> restart_count st \<noteq> 0 \<and> last_exit st \<noteq> None \<and>
     (\<exists>d. next_retry_seconds st = Some d \<and> retry_seconds cfg (restart_count st - 1) = Inr d)"

definition expected_state :: "task_pc \<Rightarrow> worker_state" where
  "expected_state p = (case p of NotBegun \<Rightarrow> Starting | InRunner \<Rightarrow> Running | InSleep \<Rightarrow> Backoff
     | Finished _ \<Rightarrow> Stopped)"

text \<open>One worker: its task and status, given the two lifecycle flags. While the runtime is down a task is
  left only by a \<open>stop\<close> whose caller was cancelled, and it is finished.\<close>

fun worker_inv :: "backoff_config \<Rightarrow> bool \<Rightarrow> bool \<Rightarrow> task option \<Rightarrow> worker_status \<Rightarrow> bool" where
  "worker_inv cfg on off None st \<longleftrightarrow> \<not> on \<and> \<not> off \<and> state st = Stopped \<and> next_retry_seconds st = None"
| "worker_inv cfg on off (Some t) st \<longleftrightarrow>
     (if on then \<not> cancel_requested t \<and> state st = expected_state (pc t)
      else state st \<in> {Stopping, expected_state (pc t)}
        \<and> (pc t = NotBegun \<longrightarrow> cancel_requested t \<and> state st = Stopping))
     \<and> (cancel_requested t \<longrightarrow> (\<forall>e. pc t \<noteq> Finished e))
     \<and> (\<not> on \<and> \<not> off \<longrightarrow> (\<exists>e. pc t = Finished e))
     \<and> (if pc t = InSleep then sleeping_status cfg st else next_retry_seconds st = None)"

definition runtime_inv :: "runtime \<Rightarrow> bool" where
  "runtime_inv rt \<longleftrightarrow> \<not> (started rt \<and> stopping rt)
     \<and> (\<forall>w. w \<notin> set (runners rt) \<longrightarrow> tasks rt w = None)
     \<and> (\<forall>w \<in> set (runners rt). worker_inv (config rt) (started rt) (stopping rt) (tasks rt w) (statuses rt w))"

lemma init_runtime_inv: "init_runtime gap names base mx = Inr rt \<Longrightarrow> runtime_inv rt"
  by (auto simp: init_runtime_def runtime_inv_def new_status_def)

lemma runtime_inv_worker:
  "runtime_inv rt \<Longrightarrow> w \<in> set (runners rt) \<Longrightarrow>
     worker_inv (config rt) (started rt) (stopping rt) (tasks rt w) (statuses rt w)"
  "runtime_inv rt \<Longrightarrow> tasks rt w = Some t \<Longrightarrow>
     w \<in> set (runners rt) \<and> worker_inv (config rt) (started rt) (stopping rt) (Some t) (statuses rt w)"
  unfolding runtime_inv_def by (blast, metis option.distinct(1))

text \<open>A task is unfinished only while the runtime is up or a \<open>stop\<close> waits.\<close>

lemma unfinished_flags:
  assumes "runtime_inv rt" "tasks rt w = Some t" "\<And>e. pc t \<noteq> Finished e"
  shows "started rt \<noteq> stopping rt"
  using runtime_inv_worker(2)[OF assms(1,2)] assms(1,3) by (auto simp: runtime_inv_def)

lemma back_off_ok:
  assumes "config_ok cfg"
  obtains d where "retry_seconds cfg (restart_count st) = Inr d"
    and "back_off cfg e st = (InSleep, st\<lparr>last_exit := Some e, restart_count := Suc (restart_count st),
           state := Backoff, next_retry_seconds := Some d\<rparr>)"
  using assms by (auto simp: back_off_def retry_seconds_eq)

lemma back_off_worker_inv:
  "on \<noteq> off \<Longrightarrow> worker_inv cfg on off (Some (Task (fst (back_off cfg e st)) False)) (snd (back_off cfg e st))"
  by (cases "retry_seconds cfg (restart_count st)")
    (simp_all add: back_off_def supervise_finally_def sleeping_status_def expected_state_def)

lemma after_runner_worker_inv:
  assumes "on \<noteq> off"
  shows "worker_inv cfg on off (Some (Task (fst (after_runner cfg x st)) False)) (snd (after_runner cfg x st))"
proof (cases "x = Returns \<or> x = Raises")
  case True
  then show ?thesis using back_off_worker_inv[OF assms] by (elim disjE) (simp_all only: after_runner.simps)
next
  case False
  then show ?thesis using assms by (cases x) (simp_all add: supervise_finally_def expected_state_def)
qed

text \<open>A worker's own step keeps the invariant when its new task and status agree.\<close>

lemma set_worker_inv:
  assumes "runtime_inv rt" and "tasks rt w = Some t" and "\<And>e. pc t \<noteq> Finished e"
    and "started rt \<noteq> stopping rt \<Longrightarrow>
      worker_inv (config rt) (started rt) (stopping rt) (Some (Task (fst p) False)) (snd p)"
  shows "runtime_inv (set_worker rt w p)"
proof -
  have w: "w \<in> set (runners rt)" using runtime_inv_worker(2)[OF assms(1,2)] by blast
  have "started rt \<noteq> stopping rt" by (rule unfinished_flags[OF assms(1-3)])
  with assms w show ?thesis by (auto simp: runtime_inv_def set_worker_def simp del: worker_inv.simps)
qed

lemma start_inv: "runtime_inv rt \<Longrightarrow> \<not> stopping rt \<Longrightarrow> runtime_inv (start rt)"
  by (auto simp: runtime_inv_def start_def start_status_def expected_state_def)

lemma worker_inv_stop:
  assumes "worker_inv cfg True False t st" and "t \<noteq> None"
  shows "worker_inv cfg False True (map_option cancel_task t) (st\<lparr>state := Stopping\<rparr>)"
  using assms
  by (cases t) (auto simp: cancel_task_def expected_state_def sleeping_status_def split: task_pc.splits)

lemma stop_begin_inv:
  assumes "runtime_inv rt" and "started rt"
  shows "runtime_inv (stop_begin rt)"
proof -
  have "worker_inv (config rt) False True (map_option cancel_task (tasks rt w)) ((statuses rt w)\<lparr>state := Stopping\<rparr>)"
    and "tasks rt w \<noteq> None" if "w \<in> set (runners rt)" for w
  proof -
    from assms that have inv: "worker_inv (config rt) True False (tasks rt w) (statuses rt w)"
      by (auto simp: runtime_inv_def)
    then show "tasks rt w \<noteq> None" by (cases "tasks rt w") auto
    with inv show "worker_inv (config rt) False True (map_option cancel_task (tasks rt w))
        ((statuses rt w)\<lparr>state := Stopping\<rparr>)" by (rule worker_inv_stop)
  qed
  with assms show ?thesis by (auto simp: runtime_inv_def stop_begin_def simp del: worker_inv.simps)
qed

lemma stop_finish_inv: "runtime_inv rt \<Longrightarrow> stopping rt \<Longrightarrow> runtime_inv (stop_finish rt)"
  by (auto simp: runtime_inv_def stop_finish_def)

lemma worker_inv_recancel:
  "worker_inv cfg False True t st \<Longrightarrow> worker_inv cfg False True (map_option cancel_task t) st"
  by (cases t) (auto simp: cancel_task_def split: task_pc.splits)

lemma stop_cancel_inv:
  assumes "runtime_inv rt" and "stopping rt"
  shows "runtime_inv (stop_cancel rt)"
  using assms worker_inv_recancel by (auto simp: runtime_inv_def stop_cancel_def simp del: worker_inv.simps)

lemma worker_inv_abort:
  "worker_inv cfg False True t st \<Longrightarrow> (\<And>u. t = Some u \<Longrightarrow> \<exists>e. pc u = Finished e) \<Longrightarrow> worker_inv cfg False False t st"
  by (cases t) auto

lemma stop_abort_inv:
  assumes "runtime_inv rt" and "stopping rt" and "list_all (\<lambda>w. \<not> unfinished rt w) (runners rt)"
  shows "runtime_inv (stop_abort rt)"
proof -
  have "worker_inv (config rt) False False (tasks rt w) (statuses rt w)" if w: "w \<in> set (runners rt)" for w
  proof (rule worker_inv_abort)
    show "worker_inv (config rt) False True (tasks rt w) (statuses rt w)"
      using runtime_inv_worker(1)[OF assms(1) w] assms(1,2) by (auto simp: runtime_inv_def)
    show "\<exists>e. pc u = Finished e" if "tasks rt w = Some u" for u
      using assms(3) w that by (auto simp: list_all_iff unfinished_def split: task_pc.splits)
  qed
  then show ?thesis using assms(1,2) by (auto simp: runtime_inv_def stop_abort_def simp del: worker_inv.simps)
qed

text \<open>The steps of the supervisors, inverted: the task each one finds and the state it leaves.\<close>

lemma TaskBegin_iff: "runtime_step rt (TaskBegin w) = Some rt' \<longleftrightarrow>
    (\<exists>c. tasks rt w = Some (Task NotBegun c) \<and>
      rt' = set_worker rt w (if c then (Finished EndCancelled, statuses rt w)
                             else (InRunner, loop_head (statuses rt w))))"
  by (auto split: option.splits task.splits task_pc.splits)

lemma RunnerExit_iff: "runtime_step rt (RunnerExit w x) = Some rt' \<longleftrightarrow>
    (\<exists>c. tasks rt w = Some (Task InRunner c) \<and>
      rt' = set_worker rt w (after_runner (config rt) x (statuses rt w)))"
  by (auto split: option.splits task.splits task_pc.splits)

lemma RunnerAbsorb_iff: "runtime_step rt (RunnerAbsorb w) = Some rt' \<longleftrightarrow>
    tasks rt w = Some (Task InRunner True) \<and> rt' = set_worker rt w (InRunner, statuses rt w)"
  by (auto split: option.splits task.splits task_pc.splits bool.splits)

lemma SleepEnd_iff: "runtime_step rt (SleepEnd w) = Some rt' \<longleftrightarrow>
    (\<exists>c. tasks rt w = Some (Task InSleep c) \<and>
      rt' = set_worker rt w (if c then (Finished EndCancelled, supervise_finally (statuses rt w))
                             else (InRunner, loop_head (statuses rt w))))"
  by (auto split: option.splits task.splits task_pc.splits)

lemmas worker_step_iffs = TaskBegin_iff RunnerExit_iff RunnerAbsorb_iff SleepEnd_iff

lemma runtime_step_inv:
  assumes inv: "runtime_inv rt" and step: "runtime_step rt e = Some rt'"
  shows "runtime_inv rt'"
proof -
  note wi = runtime_inv_worker(2)[OF inv, THEN conjunct2]
  show ?thesis
  proof (cases e)
    case StartCall
    with step inv show ?thesis by (auto split: if_splits intro: start_inv)
  next
    case StopCall
    with step inv show ?thesis by (auto split: if_splits intro: stop_begin_inv)
  next
    case StopReturn
    with step inv show ?thesis by (auto split: if_splits intro: stop_finish_inv)
  next
    case StopCancel
    with step inv show ?thesis by (auto split: if_splits intro: stop_cancel_inv)
  next
    case StopAbort
    with step inv show ?thesis by (auto split: if_splits intro: stop_abort_inv)
  next
    case (TaskBegin w)
    then obtain c where t: "tasks rt w = Some (Task NotBegun c)"
      and rt': "rt' = set_worker rt w (if c then (Finished EndCancelled, statuses rt w)
                                 else (InRunner, loop_head (statuses rt w)))"
      using step TaskBegin_iff RunnerExit_iff SleepEnd_iff by blast
    show ?thesis unfolding rt' using wi [OF t]
      by (intro set_worker_inv [OF inv t]) (auto simp: loop_head_def expected_state_def split: if_splits)
  next
    case (RunnerExit w x)
    then obtain c where t: "tasks rt w = Some (Task InRunner c)"
      and rt': "rt' = set_worker rt w (after_runner (config rt) x (statuses rt w))"
      using step TaskBegin_iff RunnerExit_iff SleepEnd_iff by blast
    show ?thesis unfolding rt'
      by (intro set_worker_inv [OF inv t] after_runner_worker_inv) auto
  next
    case (RunnerAbsorb w)
    then have t: "tasks rt w = Some (Task InRunner True)"
      and rt': "rt' = set_worker rt w (InRunner, statuses rt w)"
      using step RunnerAbsorb_iff by blast+
    show ?thesis unfolding rt' using wi [OF t]
      by (intro set_worker_inv [OF inv t]) (auto simp: expected_state_def split: if_splits)
  next
    case (SleepEnd w)
    then obtain c where t: "tasks rt w = Some (Task InSleep c)"
      and rt': "rt' = set_worker rt w (if c then (Finished EndCancelled, supervise_finally (statuses rt w))
                                 else (InRunner, loop_head (statuses rt w)))"
      using step TaskBegin_iff RunnerExit_iff SleepEnd_iff by blast
    show ?thesis unfolding rt' using wi [OF t]
      by (intro set_worker_inv [OF inv t]) (auto simp: loop_head_def supervise_finally_def expected_state_def split: if_splits)
  qed
qed

interpretation runtime_machine: step_invariant runtime_step runtime_inv
  by unfold_locales (rule runtime_step_inv)

section \<open>Which worker an event belongs to\<close>

fun worker_of :: "event \<Rightarrow> pystr option" where
  "worker_of (TaskBegin w) = Some w"
| "worker_of (RunnerExit w _) = Some w"
| "worker_of (RunnerAbsorb w) = Some w"
| "worker_of (SleepEnd w) = Some w"
| "worker_of _ = None"

text \<open>Everything a step of worker \<open>v\<close> can change is \<open>v\<close>'s own task and status.\<close>

lemma worker_step_form:
  assumes "runtime_step rt e = Some rt'" and "worker_of e = Some v"
  obtains p where "rt' = set_worker rt v p" and "tasks rt v \<noteq> None"
proof -
  have "\<exists>p. rt' = set_worker rt v p \<and> tasks rt v \<noteq> None"
  proof (cases e)
    case (TaskBegin w)
    with assms show ?thesis using TaskBegin_iff [of rt w rt'] by force
  next
    case (RunnerExit w x)
    with assms show ?thesis using RunnerExit_iff [of rt w x rt'] by (metis option.distinct(1) option.inject worker_of.simps(2))
  next
    case (RunnerAbsorb w)
    with assms show ?thesis using RunnerAbsorb_iff [of rt w rt'] by (metis option.distinct(1) option.inject worker_of.simps(3))
  next
    case (SleepEnd w)
    with assms show ?thesis using SleepEnd_iff [of rt w rt'] by (metis option.distinct(1) option.inject worker_of.simps(4))
  qed (use assms in simp_all)
  with that show ?thesis by blast
qed

lemma set_worker_simps [simp]:
  "config (set_worker rt w p) = config rt"
  "runners (set_worker rt w p) = runners rt"
  "started (set_worker rt w p) = started rt"
  "stopping (set_worker rt w p) = stopping rt"
  "stop_cancelled (set_worker rt w p) = stop_cancelled rt"
  "v \<noteq> w \<Longrightarrow> tasks (set_worker rt w p) v = tasks rt v"
  "v \<noteq> w \<Longrightarrow> statuses (set_worker rt w p) v = statuses rt v"
  "tasks (set_worker rt w p) w = Some (Task (fst p) False)"
  "statuses (set_worker rt w p) w = snd p"
  by (simp_all add: set_worker_def)

lemma worker_run_frame:
  assumes "run runtime_step rt es = Some rt'" and "\<forall>e \<in> set es. worker_of e \<noteq> None \<and> worker_of e \<noteq> Some w"
  shows "tasks rt' w = tasks rt w \<and> statuses rt' w = statuses rt w
    \<and> started rt' = started rt \<and> stopping rt' = stopping rt \<and> runners rt' = runners rt \<and> config rt' = config rt"
  using assms
proof (induction es arbitrary: rt)
  case Nil
  then show ?case by simp
next
  case (Cons e es)
  then obtain u where u: "runtime_step rt e = Some u" and r: "run runtime_step u es = Some rt'"
    by (auto split: option.splits)
  from Cons.prems(2) obtain v where v: "worker_of e = Some v" "v \<noteq> w" by auto
  obtain p where "u = set_worker rt v p" using u v(1) by (rule worker_step_form)
  with Cons.IH [OF r] Cons.prems(2) v(2) show ?case by simp
qed

text \<open>The configuration and the runners never change.\<close>

lemma runtime_step_constants:
  assumes "runtime_step rt e = Some rt'"
  shows "runners rt' = runners rt \<and> config rt' = config rt"
proof (cases "worker_of e")
  case None
  with assms show ?thesis
    by (cases e) (auto simp: start_def stop_begin_def stop_finish_def stop_cancel_def stop_abort_def split: if_splits)
next
  case (Some v)
  obtain p where "rt' = set_worker rt v p" using assms Some by (rule worker_step_form)
  then show ?thesis by simp
qed

lemma run_constants: "run runtime_step rt es = Some rt' \<Longrightarrow> runners rt' = runners rt \<and> config rt' = config rt"
  by (induction es arbitrary: rt) (auto split: option.splits dest!: runtime_step_constants)

section \<open>Counting failures\<close>

text \<open>The exits of a worker's runner that its supervisor answers with a back-off.\<close>

fun is_failure :: "pystr \<Rightarrow> event \<Rightarrow> bool" where
  "is_failure w (RunnerExit v x) \<longleftrightarrow> v = w \<and> (x = Returns \<or> x = Raises)"
| "is_failure w _ \<longleftrightarrow> False"

definition failures :: "pystr \<Rightarrow> event list \<Rightarrow> nat" where
  "failures w es = length (filter (is_failure w) es)"

lemma restart_count_back_off:
  "config_ok cfg \<Longrightarrow> restart_count (snd (back_off cfg x st)) = Suc (restart_count st)"
  by (rule back_off_ok [of cfg st x]) auto

lemma restart_count_after_runner:
  "config_ok cfg \<Longrightarrow> restart_count (snd (after_runner cfg x st))
    = restart_count st + (if x = Returns \<or> x = Raises then 1 else 0)"
  by (cases x) (simp_all add: restart_count_back_off supervise_finally_def)

lemma restart_count_step:
  assumes "runtime_step rt e = Some rt'" and "config_ok (config rt)"
    and "started rt \<or> stopping rt" and "e \<noteq> StopReturn" and "e \<noteq> StopAbort"
  shows "(started rt' \<or> stopping rt') \<and> config rt' = config rt
    \<and> restart_count (statuses rt' w) = restart_count (statuses rt w) + (if is_failure w e then 1 else 0)"
proof (cases "worker_of e")
  case None
  then show ?thesis using assms
    by (cases e) (auto simp: start_def stop_begin_def stop_cancel_def split: if_splits)
next
  case (Some v)
  then show ?thesis using assms
    by (cases e; cases "v = w")
      (auto simp: worker_step_iffs restart_count_after_runner loop_head_def supervise_finally_def
        simp del: runtime_step.simps after_runner.simps)
qed

lemma restart_count_run:
  assumes "run runtime_step rt es = Some rt'" and "config_ok (config rt)"
    and "started rt \<or> stopping rt" and "StopReturn \<notin> set es" and "StopAbort \<notin> set es"
  shows "restart_count (statuses rt' w) = restart_count (statuses rt w) + failures w es
    \<and> config rt' = config rt"
  using assms
proof (induction es arbitrary: rt)
  case Nil
  then show ?case by (simp add: failures_def)
next
  case (Cons e es)
  then obtain u where u: "runtime_step rt e = Some u" and r: "run runtime_step u es = Some rt'"
    by (auto split: option.splits)
  from Cons.prems restart_count_step [OF u, of w]
  have "started u \<or> stopping u" "config u = config rt"
    "restart_count (statuses u w) = restart_count (statuses rt w) + (if is_failure w e then 1 else 0)"
    by auto
  with Cons.IH [OF r] Cons.prems show ?case by (auto simp: failures_def)
qed

section \<open>How \<open>stop\<close> ends\<close>

text \<open>
  The events by which a supervisor answers its cancellation without starting over: a task that had
  not begun ends, a sleep ends, a runner lets \<open>CancelledError\<close> (or another \<open>BaseException\<close>) out.
\<close>

fun obedient :: "event \<Rightarrow> bool" where
  "obedient (TaskBegin _) = True"
| "obedient (SleepEnd _) = True"
| "obedient (RunnerExit _ x) \<longleftrightarrow> x = RaisesCancelled \<or> x = RaisesBase"
| "obedient _ = False"

definition pending :: "runtime \<Rightarrow> nat" where
  "pending rt = card {w \<in> set (runners rt). unfinished rt w}"

definition all_cancelled :: "runtime \<Rightarrow> bool" where
  "all_cancelled rt \<longleftrightarrow> (\<forall>w t. tasks rt w = Some t \<and> unfinished rt w \<longrightarrow> cancel_requested t)"

lemma stop_begin_all_cancelled: "all_cancelled (stop_begin rt)"
  by (auto simp: all_cancelled_def stop_begin_def unfinished_def cancel_task_def
      split: option.splits task_pc.splits)

lemma all_cancelledD:
  "all_cancelled rt \<Longrightarrow> tasks rt w = Some (Task p c) \<Longrightarrow> p = NotBegun \<or> p = InRunner \<or> p = InSleep \<Longrightarrow> c"
  unfolding all_cancelled_def unfinished_def by force

lemma obedient_step:
  assumes step: "runtime_step rt e = Some rt'" and ob: "obedient e" and inv: "runtime_inv rt"
    and ac: "all_cancelled rt" and st: "stopping rt"
  shows "all_cancelled rt' \<and> stopping rt' \<and> stop_cancelled rt' = stop_cancelled rt \<and> Suc (pending rt') = pending rt"
proof -
  from ob obtain v where v: "worker_of e = Some v" by (cases e) auto
  have "\<exists>x st. rt' = set_worker rt v (Finished x, st) \<and> unfinished rt v"
  proof (cases e)
    case (TaskBegin w)
    then obtain c where t: "tasks rt v = Some (Task NotBegun c)"
      and "rt' = set_worker rt v (if c then (Finished EndCancelled, statuses rt v)
                                  else (InRunner, loop_head (statuses rt v)))"
      using step v TaskBegin_iff by auto
    moreover have c using ac t by (rule all_cancelledD) simp
    ultimately show ?thesis using t by (auto simp only: if_True unfinished_def option.case task.sel task_pc.case)
  next
    case (RunnerExit w x)
    then obtain c where t: "tasks rt v = Some (Task InRunner c)"
      and "rt' = set_worker rt v (after_runner (config rt) x (statuses rt v))"
      using step v RunnerExit_iff by auto
    moreover obtain y st where "after_runner (config rt) x (statuses rt v) = (Finished y, st)"
      using ob RunnerExit by auto
    ultimately show ?thesis using t by (auto simp only: unfinished_def option.case task.sel task_pc.case)
  next
    case (SleepEnd w)
    then obtain c where t: "tasks rt v = Some (Task InSleep c)"
      and "rt' = set_worker rt v (if c then (Finished EndCancelled, supervise_finally (statuses rt v))
                                  else (InRunner, loop_head (statuses rt v)))"
      using step v SleepEnd_iff by auto
    moreover have c using ac t by (rule all_cancelledD) simp
    ultimately show ?thesis using t by (auto simp only: if_True unfinished_def option.case task.sel task_pc.case)
  qed (use ob in simp_all)
  then obtain x st where rt': "rt' = set_worker rt v (Finished x, st)" and u: "unfinished rt v" by blast
  have "tasks rt v \<noteq> None" using u by (auto simp: unfinished_def split: option.splits)
  then have "v \<in> set (runners rt)" using inv by (auto simp: runtime_inv_def)
  with u have "{w \<in> set (runners rt). unfinished rt w} = insert v {w \<in> set (runners rt'). unfinished rt' w}"
    and "v \<notin> {w \<in> set (runners rt'). unfinished rt' w}"
    unfolding rt' by (auto simp: unfinished_def set_worker_def)
  then have "Suc (pending rt') = pending rt" by (simp add: pending_def)
  moreover have "all_cancelled rt'"
    using ac unfolding rt' by (auto simp: all_cancelled_def unfinished_def set_worker_def split: if_splits)
  ultimately show ?thesis using st rt' by simp
qed

lemma obedient_run:
  assumes "run runtime_step rt es = Some rt'" and "\<forall>e \<in> set es. obedient e"
    and "runtime_inv rt" and "all_cancelled rt" and "stopping rt"
  shows "runtime_inv rt' \<and> all_cancelled rt' \<and> stopping rt' \<and> stop_cancelled rt' = stop_cancelled rt \<and> length es + pending rt' = pending rt"
  using assms
proof (induction es arbitrary: rt)
  case Nil
  then show ?case by simp
next
  case (Cons e es)
  then obtain u where u: "runtime_step rt e = Some u" and r: "run runtime_step u es = Some rt'"
    by (auto split: option.splits)
  with Cons.prems have o: "all_cancelled u \<and> stopping u \<and> stop_cancelled u = stop_cancelled rt \<and> Suc (pending u) = pending rt"
    using obedient_step by simp
  moreover have "runtime_inv u" using u Cons.prems(3) by (rule runtime_step_inv [rotated])
  ultimately show ?case using Cons.IH [OF r] Cons.prems(2) by simp
qed

lemma pending_zero_iff: "pending rt = 0 \<longleftrightarrow> list_all (\<lambda>w. \<not> unfinished rt w) (runners rt)"
  by (auto simp: pending_def list_all_iff)

lemma pending_obedient_enabled:
  assumes "0 < pending rt"
  shows "\<exists>e rt'. obedient e \<and> runtime_step rt e = Some rt'"
proof -
  from assms obtain w where "unfinished rt w"
    by (metis (mono_tags, lifting) card_gt_0_iff empty_Collect_eq pending_def)
  then obtain p c where t: "tasks rt w = Some (Task p c)" and p: "p = NotBegun \<or> p = InRunner \<or> p = InSleep"
    by (auto simp: unfinished_def split: option.splits task_pc.splits) (metis task.collapse)+
  from p show ?thesis
  proof (elim disjE)
    assume "p = NotBegun"
    with t show ?thesis by (intro exI [of _ "TaskBegin w"]) simp
  next
    assume "p = InRunner"
    with t show ?thesis by (intro exI [of _ "RunnerExit w RaisesCancelled"]) simp
  next
    assume "p = InSleep"
    with t show ?thesis by (intro exI [of _ "SleepEnd w"]) simp
  qed
qed

text \<open>A supervisor that has ended stays as it is until a \<open>stop\<close> ends.\<close>

lemma finished_task_stays:
  assumes step: "runtime_step rt e = Some rt'" and "e \<noteq> StopReturn" and "e \<noteq> StopAbort" and "started rt \<or> stopping rt"
    and fin: "tasks rt w = Some (Task (Finished x) False)" and "state (statuses rt w) \<in> {Stopped, Stopping}"
  shows "(started rt' \<or> stopping rt') \<and> tasks rt' w = Some (Task (Finished x) False)
    \<and> state (statuses rt' w) \<in> {Stopped, Stopping}"
proof (cases "worker_of e")
  case None
  with assms show ?thesis
    by (cases e) (auto simp: start_def stop_begin_def stop_cancel_def cancel_task_def split: if_splits)
next
  case (Some v)
  have "v \<noteq> w"
  proof
    assume "v = w"
    with step Some fin show False by (cases e) (auto simp: worker_step_iffs simp del: runtime_step.simps)
  qed
  moreover obtain p where "rt' = set_worker rt v p" using step Some by (rule worker_step_form)
  ultimately show ?thesis using assms(4-6) by simp
qed

text \<open>Without an abandoned \<open>stop\<close>, a runtime that is down keeps no task.\<close>

definition tidy :: "runtime \<Rightarrow> bool" where
  "tidy rt \<longleftrightarrow> started rt \<or> stopping rt \<or> tasks rt = (\<lambda>_. None)"

lemma tidy_step:
  assumes "tidy rt" and "runtime_step rt e = Some rt'" and "e \<noteq> StopAbort"
  shows "tidy rt'"
proof (cases "worker_of e")
  case None
  with assms show ?thesis
    by (cases e) (auto simp: tidy_def start_def stop_begin_def stop_finish_def stop_cancel_def split: if_splits)
next
  case (Some v)
  with assms(2) obtain p where "rt' = set_worker rt v p" "tasks rt v \<noteq> None" by (rule worker_step_form)
  then show ?thesis using assms(1) by (auto simp: tidy_def)
qed

lemma tidy_run: "tidy rt \<Longrightarrow> run runtime_step rt es = Some rt' \<Longrightarrow> StopAbort \<notin> set es \<Longrightarrow> tidy rt'"
proof (induction es arbitrary: rt)
  case Nil
  then show ?case by simp
next
  case (Cons e es)
  then obtain u where "runtime_step rt e = Some u" "run runtime_step u es = Some rt'" by (auto split: option.splits)
  then show ?case using Cons.IH tidy_step Cons.prems by auto
qed

end
