(* ===== verification/RuntimeProps.thy ===== *)
theory RuntimeProps
  imports RuntimeInv
begin

text \<open>
  The properties of the embedded worker runtime: what the constructor accepts, the retry delays,
  the lifecycle over whole histories, isolation, and the two ways a supervisor stops being one.
\<close>

section \<open>Construction\<close>

lemma constructor_accepts:
  "init_runtime gap names base mx = Inr rt \<longleftrightarrow>
     names \<noteq> [] \<and> list_all (\<lambda>n. strip n \<noteq> []) names \<and>
     (\<exists>b m. base = Fin b \<and> mx = Fin m \<and> 0 < b \<and> b \<le> m \<and>
        rt = \<lparr>config = \<lparr>base_backoff = b, max_backoff = m, max_exponent = \<lceil>gap m b\<rceil>\<rparr>,
              runners = names, statuses = (\<lambda>_. new_status), tasks = (\<lambda>_. None),
              started = False, stopping = False, stop_cancelled = False\<rparr>)"
proof
  assume "init_runtime gap names base mx = Inr rt"
  then obtain cfg where cfg: "check_config gap names base mx = Inr cfg"
    and rt: "rt = \<lparr>config = cfg, runners = names, statuses = (\<lambda>_. new_status), tasks = (\<lambda>_. None),
              started = False, stopping = False, stop_cancelled = False\<rparr>"
    by (auto simp: init_runtime_def)
  from cfg show "names \<noteq> [] \<and> list_all (\<lambda>n. strip n \<noteq> []) names \<and> (\<exists>b m. base = Fin b \<and> mx = Fin m \<and> 0 < b \<and> b \<le> m \<and>
        rt = \<lparr>config = \<lparr>base_backoff = b, max_backoff = m, max_exponent = \<lceil>gap m b\<rceil>\<rparr>,
              runners = names, statuses = (\<lambda>_. new_status), tasks = (\<lambda>_. None),
              started = False, stopping = False, stop_cancelled = False\<rparr>)"
    by (rule check_config_Inr) (auto simp: rt list_all_iff)
next
  assume "names \<noteq> [] \<and> list_all (\<lambda>n. strip n \<noteq> []) names \<and> (\<exists>b m. base = Fin b \<and> mx = Fin m \<and> 0 < b \<and> b \<le> m \<and>
        rt = \<lparr>config = \<lparr>base_backoff = b, max_backoff = m, max_exponent = \<lceil>gap m b\<rceil>\<rparr>,
              runners = names, statuses = (\<lambda>_. new_status), tasks = (\<lambda>_. None),
              started = False, stopping = False, stop_cancelled = False\<rparr>)"
  then show "init_runtime gap names base mx = Inr rt"
    by (auto simp: init_runtime_def check_config_ok list_all_iff)
qed

text \<open>The constructor succeeds exactly on a non-empty set of runners with non-blank names, a
  finite positive base delay and a finite maximum that is not below it; what it builds is stopped,
  has no task, and carries the given names and delays.\<close>

theorem constructor_accepts_iff:
  "init_runtime gap names base mx = Inr rt \<longleftrightarrow>
     names \<noteq> [] \<and> list_all (\<lambda>n. strip n \<noteq> []) names \<and>
     (\<exists>b m. base = Fin b \<and> mx = Fin m \<and> 0 < b \<and> b \<le> m \<and>
        rt = \<lparr>config = \<lparr>base_backoff = b, max_backoff = m, max_exponent = \<lceil>gap m b\<rceil>\<rparr>,
              runners = names, statuses = (\<lambda>_. new_status), tasks = (\<lambda>_. None),
              started = False, stopping = False, stop_cancelled = False\<rparr>)"
  by (rule constructor_accepts)

theorem constructor_accepts_iff_witness:
  "init_runtime (\<lambda>_ _. 5) [lit ''poster''] (Fin 1) (Fin 32)
     = Inr \<lparr>config = \<lparr>base_backoff = 1, max_backoff = 32, max_exponent = 5\<rparr>,
            runners = [lit ''poster''], statuses = (\<lambda>_. new_status), tasks = (\<lambda>_. None),
            started = False, stopping = False, stop_cancelled = False\<rparr>"
  by (simp add: constructor_accepts_iff strip_def lit_simps rstrip_of_def lstrip_of_def is_space_def)

section \<open>The retry delay\<close>

text \<open>The default settings: a base of 1 second, a maximum of 30, exponent \<open>\<lceil>log2 30\<rceil> = 5\<close>.\<close>

definition default_config :: backoff_config where
  "default_config = \<lparr>base_backoff = 1, max_backoff = 30, max_exponent = 5\<rparr>"

text \<open>Bounds on a logarithm from a comparison of powers.\<close>

lemma log2_lower: "0 < x \<Longrightarrow> (2::real) ^ a \<le> x ^ b \<Longrightarrow> real a \<le> real b * log 2 x"
  using log_le_cancel_iff [of 2 "2 ^ a" "x ^ b"] by (simp add: log_nat_power)

lemma log2_upper: "0 < x \<Longrightarrow> x ^ b \<le> (2::real) ^ a \<Longrightarrow> real b * log 2 x \<le> real a"
  using log_le_cancel_iff [of 2 "x ^ b" "2 ^ a"] by (simp add: log_nat_power)

text \<open>\<open>157 / 32\<close> is within the tolerance of \<open>log2 30\<close>, compared by powers of integers.\<close>

lemma log2_30: "log2_gap_ok (\<lambda>_ _. 157 / 32) 30 1"
  using log2_lower [of 30 157 32] log2_upper [of 30 43 211]
  by (simp add: log2_gap_ok_def of_rat_divide abs_le_iff)

lemma ceiling_157_32: "\<lceil>157 / 32 :: rat\<rceil> = 5"
  by (rule ceiling_unique) simp_all

text \<open>C21: For every configuration the constructor accepts with a maximum of at most \<open>2 ^ 1022\<close>
  seconds, the delay after any number of failures is computed without an overflow, lies between
  the base and the maximum, starts at the base, and never shrinks as failures accumulate.\<close>

theorem retry_delay_bounded:
  assumes "check_config gap names base mx = Inr cfg"
    and "\<And>b m. base = Fin b \<Longrightarrow> mx = Fin m \<Longrightarrow> log2_gap_ok gap m b"
    and "max_backoff cfg \<le> 2 ^ 1022"
  shows "\<exists>d d'. retry_seconds cfg n = Inr d \<and> retry_seconds cfg (Suc n) = Inr d'
    \<and> base_backoff cfg \<le> d \<and> d \<le> d' \<and> d' \<le> max_backoff cfg
    \<and> retry_seconds cfg 0 = Inr (base_backoff cfg)"
proof -
  have ok: "config_ok cfg" using assms by (rule check_config_config_ok)
  then obtain d d' where d: "retry_seconds cfg n = Inr d" and d': "retry_seconds cfg (Suc n) = Inr d'"
    by (simp add: retry_seconds_eq)
  moreover have "base_backoff cfg \<le> d" using ok d by (rule retry_seconds_range)
  moreover have "d' \<le> max_backoff cfg" using ok d' by (rule retry_seconds_range)
  moreover have "d \<le> d'" using ok le_SucI [OF order_refl] d d' by (rule retry_seconds_mono)
  moreover have "retry_seconds cfg 0 = Inr (base_backoff cfg)"
    using ok by (simp add: retry_seconds_eq config_ok_def min_def)
  ultimately show ?thesis by blast
qed

theorem retry_delay_bounded_witness:
  "check_config (\<lambda>_ _. 157 / 32) [lit ''poster''] (Fin 1) (Fin 30) = Inr default_config
   \<and> (\<exists>d d'. retry_seconds default_config 3 = Inr d \<and> retry_seconds default_config (Suc 3) = Inr d'
     \<and> base_backoff default_config \<le> d \<and> d \<le> d' \<and> d' \<le> max_backoff default_config
     \<and> retry_seconds default_config 0 = Inr (base_backoff default_config))"
proof
  show c: "check_config (\<lambda>_ _. 157 / 32) [lit ''poster''] (Fin 1) (Fin 30) = Inr default_config"
    by (simp add: check_config_def default_config_def blank_name_def strip_def lit_simps rstrip_of_def
        lstrip_of_def is_space_def ceiling_157_32)
  show "\<exists>d d'. retry_seconds default_config 3 = Inr d \<and> retry_seconds default_config (Suc 3) = Inr d'
     \<and> base_backoff default_config \<le> d \<and> d \<le> d' \<and> d' \<le> max_backoff default_config
     \<and> retry_seconds default_config 0 = Inr (base_backoff default_config)"
    by (rule retry_delay_bounded [OF c]) (auto simp: log2_30, simp add: default_config_def)
qed

text \<open>Where \<open>base * 2 ^ max_exponent\<close> reaches the maximum, the delay after \<open>n\<close> failures is
  exactly \<open>min (base * 2 ^ n) max\<close>: the exponent cap that protects \<open>ldexp\<close> changes no delay.\<close>

theorem retry_delay_is_capped_doubling:
  assumes "config_ok cfg" and "max_backoff cfg \<le> base_backoff cfg * 2 ^ nat (max_exponent cfg)"
  shows "retry_seconds cfg n = Inr (min (base_backoff cfg * 2 ^ n) (max_backoff cfg))"
  using assms by (rule retry_seconds_doubling)

theorem retry_delay_is_capped_doubling_witness:
  "map (retry_seconds default_config) [0, 1, 2, 3, 4, 5, 6]
    = map Inr [1, 2, 4, 8, 16, 30, 30]"
proof -
  have ok: "config_ok default_config" by (simp add: config_ok_def default_config_def)
  have cover: "max_backoff default_config \<le> base_backoff default_config * 2 ^ nat (max_exponent default_config)"
    by (simp add: default_config_def)
  have "retry_seconds default_config n = Inr (min (2 ^ n) 30)" for n
    using retry_delay_is_capped_doubling [OF ok cover, of n] by (simp add: default_config_def)
  then show ?thesis by simp
qed

lemma ceiling_1024: "\<lceil>1022 + 65 / 41 :: rat\<rceil> = 1024"
  by (rule ceiling_unique) simp_all

lemma ceiling_41967: "\<lceil>41967 / 41 :: rat\<rceil> = 1024"
  by (rule ceiling_unique) simp_all

lemma log2_3_1022: "log2_gap_ok (\<lambda>_ _. 1022 + 65 / 41) (3 * 2 ^ 1022) 1"
proof -
  have lo: "84 \<le> 53 * log 2 (3::real)" using log2_lower [of 3 84 53] by simp
  have hi: "41 * log 2 (3::real) \<le> 65" using log2_upper [of 3 41 65] by simp
  have "real_of_rat (3 * 2 ^ 1022) = 3 * 2 ^ 1022"
    by (simp only: of_rat_mult of_rat_power of_rat_numeral_eq)
  moreover have "log 2 ((3::real) * 2 ^ 1022) = log 2 3 + 1022"
    by (subst log_mult) (simp_all only: log_pow_cancel, simp_all)
  ultimately show ?thesis using lo hi
    by (simp only: log2_gap_ok_def) (simp add: of_rat_add of_rat_divide abs_le_iff)
qed

text \<open>The constructor accepts a finite maximum so large that the exponent leaves the range of
  \<open>ldexp\<close>: with a base of 1 and a maximum of \<open>3 * 2 ^ 1022\<close> the supervisor of a worker that has
  failed 1024 times ends with \<open>OverflowError\<close> instead of backing off.\<close>

theorem overflow_ends_supervisor:
  "log2_gap_ok (\<lambda>_ _. 1022 + 65 / 41) (3 * 2 ^ 1022) 1 \<and>
   (\<exists>cfg. check_config (\<lambda>_ _. 1022 + 65 / 41) [lit ''poster''] (Fin 1) (Fin (3 * 2 ^ 1022)) = Inr cfg
     \<and> back_off cfg ExitException (new_status\<lparr>restart_count := 1024\<rparr>)
       = (Finished EndRaised, new_status\<lparr>restart_count := 1024, last_exit := Some ExitException\<rparr>))"
proof
  show "log2_gap_ok (\<lambda>_ _. 1022 + 65 / 41) (3 * 2 ^ 1022) 1" by (rule log2_3_1022)
  let ?cfg = "\<lparr>base_backoff = 1, max_backoff = 3 * 2 ^ 1022, max_exponent = 1024\<rparr>"
  have "check_config (\<lambda>_ _. 1022 + 65 / 41) [lit ''poster''] (Fin 1) (Fin (3 * 2 ^ 1022)) = Inr ?cfg"
    by (simp add: check_config_def blank_name_def strip_def lit_simps rstrip_of_def lstrip_of_def is_space_def
        ceiling_1024 ceiling_41967)
  moreover have "back_off ?cfg ExitException (new_status\<lparr>restart_count := 1024\<rparr>)
       = (Finished EndRaised, new_status\<lparr>restart_count := 1024, last_exit := Some ExitException\<rparr>)"
    by (simp add: back_off_def retry_seconds_def ldexp_def supervise_finally_def new_status_def)
  ultimately show "\<exists>cfg. check_config (\<lambda>_ _. 1022 + 65 / 41) [lit ''poster''] (Fin 1) (Fin (3 * 2 ^ 1022)) = Inr cfg
     \<and> back_off cfg ExitException (new_status\<lparr>restart_count := 1024\<rparr>)
       = (Finished EndRaised, new_status\<lparr>restart_count := 1024, last_exit := Some ExitException\<rparr>)"
    by blast
qed

section \<open>Histories\<close>

lemma init_config_sane:
  assumes "init_runtime gap names base mx = Inr rt"
    and "\<And>b m. base = Fin b \<Longrightarrow> mx = Fin m \<Longrightarrow> log2_gap_ok gap m b"
  shows "config_sane (config rt)"
  using assms(1) check_config_sane[OF _ assms(2)] by (auto simp: init_runtime_def)

lemma backoff_sleeping:
  "worker_inv cfg on off t st \<Longrightarrow> state st = Backoff \<Longrightarrow> sleeping_status cfg st"
  by (cases t) (auto simp: expected_state_def split: task_pc.splits if_splits)

text \<open>A runtime with two workers and the default delays, for the concrete runs below.\<close>

definition demo_runtime :: runtime where
  "demo_runtime = \<lparr>config = default_config, runners = [lit ''poster'', lit ''webhook''],
     statuses = (\<lambda>_. new_status), tasks = (\<lambda>_. None), started = False, stopping = False, stop_cancelled = False\<rparr>"

lemma demo_init:
  "init_runtime (\<lambda>_ _. 157 / 32) [lit ''poster'', lit ''webhook''] (Fin 1) (Fin 30) = Inr demo_runtime"
  by (simp add: constructor_accepts demo_runtime_def default_config_def ceiling_157_32
      strip_def lit_simps rstrip_of_def lstrip_of_def is_space_def)

lemma demo_gap: "Fin 1 = Fin b \<Longrightarrow> Fin 30 = Fin m \<Longrightarrow> log2_gap_ok (\<lambda>_ _. 157 / 32) m b"
  using log2_30 by simp

lemma demo_config_ok: "config_ok (config demo_runtime)"
  by (simp add: demo_runtime_def config_ok_def default_config_def)

lemma default_retry: "retry_seconds default_config n = Inr (min (2 ^ nat (min (int n) 5)) 30)"
  by (simp add: retry_seconds_eq config_ok_def default_config_def)

lemmas demo_simps = demo_runtime_def start_def start_status_def stop_begin_def stop_finish_def stop_cancel_def stop_abort_def
  cancel_task_def set_worker_def loop_head_def back_off_def supervise_finally_def new_status_def
  default_retry unfinished_def failures_def

text \<open>C11: In every history of a runtime that the constructor accepts, with \<open>log2\<close> as accurate as
  \<open>log2_gap_ok\<close> states and whatever the maximum: while the runtime is up, every worker has a task that
  nobody has cancelled, and its reported state is the state of that task; while a \<open>stop\<close> waits, the
  state is that of the task or \<open>stopping\<close>; and while the runtime is down no task is unfinished, every
  worker is reported as stopped or, when the caller of the \<open>stop\<close> was cancelled, possibly still as
  stopping, and unless that has happened no task is kept and every worker is reported as stopped. A retry
  delay is reported only of a worker that sleeps, and is within the configured bounds.\<close>

theorem runtime_history_consistent:
  assumes "init_runtime gap names base mx = Inr rt0"
    and "\<And>b m. base = Fin b \<Longrightarrow> mx = Fin m \<Longrightarrow> log2_gap_ok gap m b"
    and "run runtime_step rt0 es = Some rt" and "w \<in> set (runners rt)"
  shows "(\<not> started rt \<and> \<not> stopping rt \<longrightarrow> \<not> unfinished rt w \<and> state (statuses rt w) \<in> {Stopped, Stopping}
        \<and> (StopAbort \<notin> set es \<longrightarrow> tasks rt w = None \<and> state (statuses rt w) = Stopped))
    \<and> (started rt \<longrightarrow> (\<exists>t. tasks rt w = Some t \<and> \<not> cancel_requested t
        \<and> state (statuses rt w) = expected_state (pc t)))
    \<and> (stopping rt \<longrightarrow> (\<exists>t. tasks rt w = Some t \<and> state (statuses rt w) \<in> {Stopping, expected_state (pc t)}))
    \<and> (\<forall>d. next_retry_seconds (statuses rt w) = Some d \<longrightarrow>
          base_backoff (config rt) \<le> d \<and> d \<le> max_backoff (config rt)
          \<and> (\<exists>t. tasks rt w = Some t \<and> pc t = InSleep))"
proof -
  have inv: "runtime_inv rt" using init_runtime_inv[OF assms(1)] assms(3) by (rule runtime_machine.run_inv)
  note wi = runtime_inv_worker(1)[OF inv assms(4)]
  have sane: "config_sane (config rt)" using init_config_sane[OF assms(1,2)] run_constants[OF assms(3)] by simp
  have flags: "\<not> (started rt \<and> stopping rt)" using inv by (simp add: runtime_inv_def)
  have tidy: "tidy rt" if "StopAbort \<notin> set es"
    using tidy_run[OF _ assms(3) that] assms(1) by (auto simp: tidy_def init_runtime_def)
  show ?thesis
  proof (intro conjI impI allI)
    assume down: "\<not> started rt \<and> \<not> stopping rt"
    with wi show "\<not> unfinished rt w" "state (statuses rt w) \<in> {Stopped, Stopping}"
      by (cases "tasks rt w"; force simp: unfinished_def expected_state_def)+
    show "tasks rt w = None" "state (statuses rt w) = Stopped" if "StopAbort \<notin> set es"
      using tidy[OF that] down wi by (auto simp: tidy_def)
  next
    assume "started rt"
    with wi show "\<exists>t. tasks rt w = Some t \<and> \<not> cancel_requested t \<and> state (statuses rt w) = expected_state (pc t)"
      by (cases "tasks rt w") auto
  next
    assume "stopping rt"
    with wi flags show "\<exists>t. tasks rt w = Some t \<and> state (statuses rt w) \<in> {Stopping, expected_state (pc t)}"
      by (cases "tasks rt w") auto
  next
    fix d assume d: "next_retry_seconds (statuses rt w) = Some d"
    with wi show "\<exists>t. tasks rt w = Some t \<and> pc t = InSleep" by (cases "tasks rt w") (auto split: if_splits)
    from wi d have "retry_seconds (config rt) (restart_count (statuses rt w) - 1) = Inr d"
      by (cases "tasks rt w") (auto simp: sleeping_status_def split: if_splits)
    then show "base_backoff (config rt) \<le> d" "d \<le> max_backoff (config rt)"
      by (rule retry_seconds_bounds[OF sane])+
  qed
qed


theorem runtime_history_consistent_witness:
  "\<exists>rt. run runtime_step demo_runtime [StartCall, TaskBegin (lit ''poster''), RunnerExit (lit ''poster'') Raises]
     = Some rt \<and> started rt
     \<and> (\<exists>t. tasks rt (lit ''webhook'') = Some t \<and> state (statuses rt (lit ''webhook'')) = expected_state (pc t))"
proof -
  have "\<exists>rt. run runtime_step demo_runtime [StartCall, TaskBegin (lit ''poster''), RunnerExit (lit ''poster'') Raises]
     = Some rt \<and> started rt \<and> runners rt = [lit ''poster'', lit ''webhook'']"
    by (simp add: demo_simps)
  then obtain rt where r: "run runtime_step demo_runtime [StartCall, TaskBegin (lit ''poster''),
      RunnerExit (lit ''poster'') Raises] = Some rt"
    and rt: "started rt" "runners rt = [lit ''poster'', lit ''webhook'']" by blast
  then show ?thesis
    using runtime_history_consistent [OF demo_init demo_gap r, of "lit ''webhook''"] by auto
qed


text \<open>C22: Workers are isolated: whatever events of other workers happen, however they fail, a worker's
  task and status and the runtime's lifecycle flags stay exactly as they were.\<close>

theorem workers_are_isolated:
  assumes "run runtime_step rt es = Some rt'"
    and "list_all (\<lambda>e. worker_of e \<noteq> None \<and> worker_of e \<noteq> Some w) es"
  shows "tasks rt' w = tasks rt w \<and> statuses rt' w = statuses rt w
    \<and> started rt' = started rt \<and> stopping rt' = stopping rt"
  using worker_run_frame [of rt es rt' w] assms by (simp add: list_all_iff)

theorem workers_are_isolated_witness:
  "\<exists>rt'. run runtime_step (start demo_runtime)
       [TaskBegin (lit ''poster''), RunnerExit (lit ''poster'') RaisesBase] = Some rt'
     \<and> state (statuses rt' (lit ''poster'')) = Stopped
     \<and> tasks rt' (lit ''webhook'') = tasks (start demo_runtime) (lit ''webhook'')"
proof -
  let ?es = "[TaskBegin (lit ''poster''), RunnerExit (lit ''poster'') RaisesBase]"
  have "\<exists>rt'. run runtime_step (start demo_runtime) ?es = Some rt'
     \<and> state (statuses rt' (lit ''poster'')) = Stopped"
    by (simp add: demo_simps)
  moreover have "list_all (\<lambda>e. worker_of e \<noteq> None \<and> worker_of e \<noteq> Some (lit ''webhook'')) ?es" by simp
  ultimately show ?thesis using workers_are_isolated [of "start demo_runtime" ?es _ "lit ''webhook''"] by blast
qed

section \<open>Starting and stopping\<close>

text \<open>\<open>start\<close> is idempotent: a second call changes nothing, and after a first call every worker
  has a task that has not begun and a fresh status with no failures and no exit.\<close>

theorem start_idempotent:
  "start (start rt) = start rt \<and> started (start rt)
   \<and> (\<not> started rt \<and> w \<in> set (runners rt) \<longrightarrow>
        tasks (start rt) w = Some (Task NotBegun False)
        \<and> statuses (start rt) w = \<lparr>state = Starting, restart_count = 0, last_exit = None, next_retry_seconds = None\<rparr>)"
  by (auto simp: start_def start_status_def)

theorem start_idempotent_witness:
  "tasks (start demo_runtime) (lit ''poster'') = Some (Task NotBegun False)"
  using start_idempotent [of demo_runtime "lit ''poster''"] by (simp add: demo_runtime_def)

text \<open>C13: \<open>stop\<close> terminates when runners honour their cancellation. After \<open>stop\<close> has cancelled the
  supervisors, every obedient event brings it closer to its end by exactly one worker; while some
  worker is left an obedient event is possible, and when none is left \<open>stop\<close> returns, with every
  worker stopped and no task kept.\<close>

theorem stop_terminates:
  assumes "runtime_inv rt" and "started rt"
    and "runtime_step rt StopCall = Some s" and "run runtime_step s es = Some t"
    and "list_all obedient es"
  shows "length es + pending t = pending s \<and> pending s \<le> length (runners rt)
    \<and> (if pending t = 0
       then (\<exists>u. runtime_step t StopReturn = Some u \<and> tasks u = (\<lambda>_. None)
               \<and> list_all (\<lambda>w. state (statuses u w) = Stopped) (runners u))
       else (\<exists>e t'. obedient e \<and> runtime_step t e = Some t'))"
proof -
  have s: "s = stop_begin rt" using assms(2,3) by (auto split: if_splits)
  have inv: "runtime_inv s" using assms(1,3) by (rule runtime_step_inv)
  have "stopping s" by (simp add: s stop_begin_def)
  then have t: "stopping t" "\<not> stop_cancelled t" "length es + pending t = pending s"
    using obedient_run [OF assms(4) _ inv] assms(5) s stop_begin_all_cancelled
    by (simp_all add: list_all_iff stop_begin_def)
  have "pending s \<le> card (set (runners rt))"
    unfolding pending_def s by (intro card_mono) (auto simp: stop_begin_def)
  then have "pending s \<le> length (runners rt)" using card_length [of "runners rt"] by linarith
  moreover have "\<exists>u. runtime_step t StopReturn = Some u \<and> tasks u = (\<lambda>_. None)
      \<and> list_all (\<lambda>w. state (statuses u w) = Stopped) (runners u)" if "pending t = 0"
    using that t(1,2) by (auto simp: pending_zero_iff stop_finish_def list_all_iff)
  ultimately show ?thesis using t(3) pending_obedient_enabled [of t] by auto
qed

theorem stop_terminates_witness:
  "\<exists>s t u. runtime_step (start demo_runtime) StopCall = Some s
     \<and> run runtime_step s [TaskBegin (lit ''poster''), TaskBegin (lit ''webhook'')] = Some t
     \<and> runtime_step t StopReturn = Some u \<and> tasks u = (\<lambda>_. None)"
proof -
  let ?es = "[TaskBegin (lit ''poster''), TaskBegin (lit ''webhook'')]"
  have inv: "runtime_inv (start demo_runtime)"
    using init_runtime_inv [OF demo_init] by (rule start_inv) (simp add: demo_runtime_def)
  have on: "started (start demo_runtime)" by (simp add: start_def)
  have "\<exists>s t. runtime_step (start demo_runtime) StopCall = Some s \<and> run runtime_step s ?es = Some t
      \<and> list_all (\<lambda>w. \<not> unfinished t w) (runners t)"
    by (simp add: demo_simps)
  then obtain s t where s: "runtime_step (start demo_runtime) StopCall = Some s"
    and t: "run runtime_step s ?es = Some t" and z: "pending t = 0"
    by (auto simp: pending_zero_iff)
  have "list_all obedient ?es" by simp
  from stop_terminates [OF inv on s t this] z have "\<exists>u. runtime_step t StopReturn = Some u \<and> tasks u = (\<lambda>_. None)"
    by (simp only: if_True simp_thms) blast
  with s t show ?thesis by blast
qed

text \<open>One round of a runner that answers with an exception: it fails, sleeps and is run again.\<close>

lemma failing_runner:
  assumes "config_ok (config u)" and "tasks u w = Some (Task InRunner c)"
  obtains t where "runtime_step u (RunnerExit w Raises) = Some t" and "runners t = runners u"
    and "config t = config u" and "tasks t w = Some (Task InSleep False)" and "state (statuses t w) = Backoff"
proof -
  obtain d where "back_off (config u) ExitException (statuses u w) = (InSleep, (statuses u w)\<lparr>last_exit := Some ExitException,
        restart_count := Suc (restart_count (statuses u w)), state := Backoff, next_retry_seconds := Some d\<rparr>)"
    using assms(1) by (rule back_off_ok)
  with assms(2) that show ?thesis by simp
qed

lemma failing_rounds:
  assumes "config_ok (config u)" and "tasks u w = Some (Task InSleep False)" and "state (statuses u w) = Backoff"
  shows "\<exists>t. run runtime_step u (concat (replicate n [SleepEnd w, RunnerExit w Raises])) = Some t
      \<and> runners t = runners u \<and> tasks t w = Some (Task InSleep False) \<and> state (statuses t w) = Backoff"
  using assms
proof (induction n arbitrary: u)
  case 0
  then show ?case by simp
next
  case (Suc n)
  let ?v = "set_worker u w (InRunner, loop_head (statuses u w))"
  have v: "runtime_step u (SleepEnd w) = Some ?v" using Suc.prems(2) by simp
  obtain x where x: "runtime_step ?v (RunnerExit w Raises) = Some x" "runners x = runners ?v"
      "config x = config ?v" "tasks x w = Some (Task InSleep False)" "state (statuses x w) = Backoff"
    using failing_runner [of ?v w False] Suc.prems(1) by auto
  from Suc.IH [of x] x Suc.prems(1) have "\<exists>t. run runtime_step x (concat (replicate n [SleepEnd w, RunnerExit w Raises])) = Some t
      \<and> runners t = runners u \<and> tasks t w = Some (Task InSleep False) \<and> state (statuses t w) = Backoff"
    by simp
  with v x(1) show ?case
    by (simp only: replicate_Suc concat.simps append_Cons append_Nil run.simps option.case)
qed

text \<open>C40: \<open>stop\<close> has no bound when a runner answers its cancellation with an ordinary exception. The
  supervisor treats that as a failure, backs off and restarts the runner; the cancellation is used
  up, so the worker can go on failing and restarting for any number of rounds while \<open>stop\<close> still
  cannot return.\<close>

theorem stop_can_wait_forever:
  assumes "runtime_step rt StopCall = Some s" and "started rt" and "config_ok (config rt)"
    and "w \<in> set (runners rt)" and "tasks rt w = Some (Task InRunner False)"
  shows "\<exists>t. run runtime_step s (RunnerExit w Raises # concat (replicate n [SleepEnd w, RunnerExit w Raises])) = Some t
    \<and> state (statuses t w) = Backoff \<and> runtime_step t StopReturn = None"
proof -
  have s: "s = stop_begin rt" using assms(1,2) by (auto split: if_splits)
  then have ws: "tasks s w = Some (Task InRunner True)" "runners s = runners rt" "config s = config rt"
    using assms(5) by (simp_all add: stop_begin_def cancel_task_def)
  obtain x where x: "runtime_step s (RunnerExit w Raises) = Some x" "runners x = runners s"
      "config x = config s" "tasks x w = Some (Task InSleep False)" "state (statuses x w) = Backoff"
    using assms(3) ws by (metis failing_runner)
  then obtain t where t: "run runtime_step x (concat (replicate n [SleepEnd w, RunnerExit w Raises])) = Some t"
      "runners t = runners x" "tasks t w = Some (Task InSleep False)" "state (statuses t w) = Backoff"
    using assms(3) ws failing_rounds [of x w n] by auto
  then have "unfinished t w" and "w \<in> set (runners t)"
    using assms(4) ws x(2) by (simp_all add: unfinished_def)
  then have "runtime_step t StopReturn = None" by (auto simp: list_all_iff)
  with t x(1) show ?thesis by (simp only: run.simps option.case) blast
qed

theorem stop_can_wait_forever_witness:
  "\<exists>rt s t. run runtime_step demo_runtime [StartCall, TaskBegin (lit ''poster'')] = Some rt
     \<and> runtime_step rt StopCall = Some s
     \<and> run runtime_step s (RunnerExit (lit ''poster'') Raises #
          concat (replicate 1000 [SleepEnd (lit ''poster''), RunnerExit (lit ''poster'') Raises])) = Some t
     \<and> runtime_step t StopReturn = None"
proof -
  have "\<exists>rt s. run runtime_step demo_runtime [StartCall, TaskBegin (lit ''poster'')] = Some rt
     \<and> runtime_step rt StopCall = Some s \<and> started rt \<and> config rt = config demo_runtime
     \<and> lit ''poster'' \<in> set (runners rt) \<and> tasks rt (lit ''poster'') = Some (Task InRunner False)"
    by (simp add: demo_simps)
  then obtain rt s where r: "run runtime_step demo_runtime [StartCall, TaskBegin (lit ''poster'')] = Some rt"
    and s: "runtime_step rt StopCall = Some s" "started rt" "config_ok (config rt)"
     "lit ''poster'' \<in> set (runners rt)" "tasks rt (lit ''poster'') = Some (Task InRunner False)"
    using demo_config_ok by metis
  from stop_can_wait_forever [OF s, of 1000] r s(1) show ?thesis by blast
qed

text \<open>A \<open>CancelledError\<close> that comes out of a runner without anybody stopping the runtime (a task the
  runner awaited was cancelled) ends the supervision of that worker: until a \<open>stop\<close> has ended
  it is never run again, although the runtime still reports itself as running.\<close>

theorem leaked_cancellation_is_final:
  assumes "runtime_step rt (RunnerExit w RaisesCancelled) = Some s" and "started rt"
    and "run runtime_step s es = Some t" and "StopReturn \<notin> set es" and "StopAbort \<notin> set es"
  shows "tasks t w = Some (Task (Finished EndCancelled) False) \<and> state (statuses t w) \<in> {Stopped, Stopping}"
proof -
  have s: "tasks s w = Some (Task (Finished EndCancelled) False)" "state (statuses s w) = Stopped" "started s"
    using assms(1,2) unfolding RunnerExit_iff by (auto simp: supervise_finally_def)
  have "(started t \<or> stopping t) \<and> tasks t w = Some (Task (Finished EndCancelled) False)
      \<and> state (statuses t w) \<in> {Stopped, Stopping}"
    if "run runtime_step s es = Some t" "StopReturn \<notin> set es" "StopAbort \<notin> set es" "started s \<or> stopping s"
      "tasks s w = Some (Task (Finished EndCancelled) False)" "state (statuses s w) \<in> {Stopped, Stopping}" for s es
    using that
  proof (induction es arbitrary: s)
    case Nil
    then show ?case by simp
  next
    case (Cons e es)
    then obtain u where u: "runtime_step s e = Some u" and r: "run runtime_step u es = Some t"
      by (auto split: option.splits)
    with finished_task_stays [OF u] Cons.prems have "started u \<or> stopping u"
      "tasks u w = Some (Task (Finished EndCancelled) False)" "state (statuses u w) \<in> {Stopped, Stopping}"
      by auto
    with Cons.IH [OF r] Cons.prems(2,3) show ?case by simp
  qed
  from this [OF assms(3-5)] s show ?thesis by simp
qed

theorem leaked_cancellation_is_final_witness:
  "\<exists>rt s t. run runtime_step demo_runtime [StartCall, TaskBegin (lit ''poster'')] = Some rt
     \<and> runtime_step rt (RunnerExit (lit ''poster'') RaisesCancelled) = Some s
     \<and> run runtime_step s [TaskBegin (lit ''webhook''), StartCall] = Some t
     \<and> tasks t (lit ''poster'') = Some (Task (Finished EndCancelled) False)"
proof -
  have "\<exists>rt s t. run runtime_step demo_runtime [StartCall, TaskBegin (lit ''poster'')] = Some rt
     \<and> runtime_step rt (RunnerExit (lit ''poster'') RaisesCancelled) = Some s \<and> started rt
     \<and> run runtime_step s [TaskBegin (lit ''webhook''), StartCall] = Some t"
    by (simp add: demo_simps)
  then obtain rt s t where r: "run runtime_step demo_runtime [StartCall, TaskBegin (lit ''poster'')] = Some rt"
    and s: "runtime_step rt (RunnerExit (lit ''poster'') RaisesCancelled) = Some s" "started rt"
    and t: "run runtime_step s [TaskBegin (lit ''webhook''), StartCall] = Some t" by blast
  have "StopReturn \<notin> set [TaskBegin (lit ''webhook''), StartCall]" "StopAbort \<notin> set [TaskBegin (lit ''webhook''), StartCall]"
    by simp_all
  from leaked_cancellation_is_final [OF s t this] r s t show ?thesis by blast
qed

text \<open>A \<open>stop\<close> whose caller is cancelled skips the lines behind the \<open>gather\<close>: a worker whose task was cancelled
  before its first step, and so never reached the \<open>finally\<close> of \<open>_supervise\<close>, stays reported as stopping.\<close>

theorem cancelled_stop_leaves_stopping:
  "\<exists>rt. run runtime_step demo_runtime [StartCall, StopCall, StopCancel, TaskBegin (lit ''poster''),
       TaskBegin (lit ''webhook''), StopAbort] = Some rt
     \<and> \<not> started rt \<and> \<not> stopping rt \<and> \<not> unfinished rt (lit ''poster'')
     \<and> state (statuses rt (lit ''poster'')) = Stopping"
  by (simp add: demo_simps)

end
