(* ===== verification/RuntimeSpec.thy ===== *)
theory RuntimeSpec
  imports RuntimeProps
begin

text \<open>
  What the embedded worker runtime promises, without tasks, cancellation flags and status fields: a
  service is open or not, and each worker is off, at work after so many failures, pausing for the
  capped doubling of the base delay, or ended. The runtime of \<open>workers/runtime.py\<close> refines it.
\<close>

section \<open>The specification\<close>

datatype phase = Off | AtWork nat | Pausing nat rat | Ended

record service =
  open_for_work :: bool
  phase_of :: "pystr \<Rightarrow> phase"

definition service_init :: service where
  "service_init = \<lparr>open_for_work = False, phase_of = (\<lambda>_. Off)\<rparr>"

definition set_phase :: "service \<Rightarrow> pystr \<Rightarrow> phase \<Rightarrow> service" where
  "set_phase s w p = s\<lparr>phase_of := (phase_of s)(w := p)\<rparr>"

text \<open>\<open>service_step b m ws\<close>: the base and the largest delay, and the names of the workers. A service that
  is closed opens again when every worker has ended, also before it has settled.\<close>

inductive service_step :: "rat \<Rightarrow> rat \<Rightarrow> pystr set \<Rightarrow> service \<Rightarrow> service \<Rightarrow> bool"
  for b :: rat and m :: rat and ws :: "pystr set"
where
  opens: "\<not> open_for_work s \<Longrightarrow> (\<And>w. phase_of s w = Off \<or> phase_of s w = Ended) \<Longrightarrow>
    service_step b m ws s \<lparr>open_for_work = True, phase_of = (\<lambda>w. if w \<in> ws then AtWork 0 else Off)\<rparr>"
| closes: "open_for_work s \<Longrightarrow> service_step b m ws s (s\<lparr>open_for_work := False\<rparr>)"
| fails: "w \<in> ws \<Longrightarrow> phase_of s w = AtWork n \<Longrightarrow>
    service_step b m ws s (set_phase s w (Pausing (Suc n) (min (b * 2 ^ n) m)))"
| resumes: "w \<in> ws \<Longrightarrow> phase_of s w = Pausing n d \<Longrightarrow> service_step b m ws s (set_phase s w (AtWork n))"
| ends: "w \<in> ws \<Longrightarrow> (\<exists>n. phase_of s w = AtWork n) \<or> (\<exists>n d. phase_of s w = Pausing n d) \<Longrightarrow>
    service_step b m ws s (set_phase s w Ended)"
| settles: "\<not> open_for_work s \<Longrightarrow> (\<And>w. w \<in> ws \<Longrightarrow> phase_of s w = Ended) \<Longrightarrow>
    service_step b m ws s service_init"

text \<open>What a worker can do next, phase by phase.\<close>

inductive_cases service_stepE: "service_step b m ws s t"

lemma ended_until_settled:
  assumes "service_step b m ws s t" "phase_of s w = Ended" "w \<in> ws"
  shows "phase_of t w = Ended \<or> t = service_init
     \<or> open_for_work t \<and> \<not> open_for_work s \<and> (\<forall>w. phase_of t w = (if w \<in> ws then AtWork 0 else Off))"
  using assms by (auto elim!: service_stepE simp: set_phase_def split: if_splits)

lemma pause_in_bounds:
  assumes "service_step b m ws s t" "0 < b" "b \<le> m" "phase_of t w = Pausing n d" "phase_of s w \<noteq> Pausing n d"
  shows "b \<le> d \<and> d \<le> m"
proof -
  obtain k where "d = min (b * 2 ^ k) m"
    using assms(1,4,5) by (auto elim!: service_stepE simp: set_phase_def service_init_def split: if_splits)
  moreover have "b * 1 \<le> b * 2 ^ k" using assms(2) by (intro mult_left_mono) auto
  ultimately show ?thesis using assms(3) by simp
qed

section \<open>The abstraction\<close>

definition worker_phase :: "task option \<Rightarrow> worker_status \<Rightarrow> phase" where
  "worker_phase t st = (case t of None \<Rightarrow> Off
     | Some t \<Rightarrow> (case pc t of
         NotBegun \<Rightarrow> AtWork (restart_count st)
       | InRunner \<Rightarrow> AtWork (restart_count st)
       | InSleep \<Rightarrow> Pausing (restart_count st) (the (next_retry_seconds st))
       | Finished _ \<Rightarrow> Ended))"

definition service_of :: "runtime \<Rightarrow> service" where
  "service_of rt = \<lparr>open_for_work = started rt, phase_of = (\<lambda>w. worker_phase (tasks rt w) (statuses rt w))\<rparr>"

text \<open>The invariant of the refinement: that of the runtime, and the constants of the specification.\<close>

definition refines_inv :: "backoff_config \<Rightarrow> pystr set \<Rightarrow> runtime \<Rightarrow> bool" where
  "refines_inv cfg ws rt \<longleftrightarrow> runtime_inv rt \<and> config rt = cfg \<and> set (runners rt) = ws
     \<and> config_sane cfg"

lemma refines_inv_worker:
  "refines_inv cfg ws rt \<Longrightarrow> w \<in> ws \<Longrightarrow> worker_inv (config rt) (started rt) (stopping rt) (tasks rt w) (statuses rt w)"
  "refines_inv cfg ws rt \<Longrightarrow> w \<notin> ws \<Longrightarrow> tasks rt w = None"
  unfolding refines_inv_def runtime_inv_def by blast+

lemma refines_inv_step:
  "refines_inv cfg ws rt \<Longrightarrow> runtime_step rt e = Some rt' \<Longrightarrow> refines_inv cfg ws rt'"
  using run_constants[of rt "[e]" rt'] by (auto simp: refines_inv_def intro: runtime_step_inv)

lemma service_of_set_worker:
  "service_of (set_worker rt w p) = set_phase (service_of rt) w (worker_phase (Some (Task (fst p) False)) (snd p))"
  by (auto simp: service_of_def set_worker_def set_phase_def fun_eq_iff)

lemma set_phase_same: "phase_of s w = p \<Longrightarrow> set_phase s w p = s"
  by (cases s) (auto simp: set_phase_def)

lemma service_worker: "phase_of (service_of rt) w = worker_phase (tasks rt w) (statuses rt w)"
  by (simp add: service_of_def)

lemma refines_worker:
  assumes "refines_inv cfg ws rt" "tasks rt w \<noteq> None"
  shows "w \<in> ws"
  using assms by (auto simp: refines_inv_def runtime_inv_def)

lemma after_runner_sim:
  assumes inv: "refines_inv cfg ws rt" and t: "tasks rt w = Some (Task InRunner c)"
  shows "service_step (base_backoff cfg) (top_delay cfg) ws (service_of rt)
    (service_of (set_worker rt w (after_runner cfg x (statuses rt w))))"
proof -
  let ?n = "restart_count (statuses rt w)"
  have w: "w \<in> ws" and at: "phase_of (service_of rt) w = AtWork ?n"
    using refines_worker[OF inv] t by (auto simp: service_worker worker_phase_def)
  note fail = fails[OF w at, of "base_backoff cfg" "top_delay cfg"]
  note finish = ends[OF w, of "service_of rt" "base_backoff cfg" "top_delay cfg"]
  have d: "d = min (base_backoff cfg * 2 ^ ?n) (top_delay cfg)" if "retry_seconds cfg ?n = Inr d" for d
    using inv that by (auto simp: refines_inv_def intro: retry_seconds_capped)
  note shape = service_of_set_worker worker_phase_def back_off_def
  show ?thesis
  proof (cases "retry_seconds cfg ?n")
    case (Inl e)
    then show ?thesis using finish at by (cases x) (simp_all add: shape)
  next
    case (Inr b)
    then show ?thesis using fail finish at d[OF Inr] by (cases x) (simp_all add: shape)
  qed
qed

lemma stop_settles:
  assumes "refines_inv cfg ws rt" "stopping rt" "list_all (\<lambda>w. \<not> unfinished rt w) (runners rt)"
  shows "service_step b m ws (service_of rt) (service_of (stop_finish rt))"
proof -
  have off: "\<not> started rt" using assms(1,2) by (auto simp: refines_inv_def runtime_inv_def)
  have "phase_of (service_of rt) w = Ended" if w: "w \<in> ws" for w
  proof -
    have "worker_inv (config rt) (started rt) (stopping rt) (tasks rt w) (statuses rt w)"
      by (rule refines_inv_worker(1)[OF assms(1) w])
    moreover have "\<not> unfinished rt w" using assms(1,3) w by (auto simp: refines_inv_def list_all_iff)
    ultimately show ?thesis using assms(2)
      by (cases "tasks rt w") (auto simp: service_worker worker_phase_def unfinished_def split: task_pc.splits)
  qed
  moreover have "service_of (stop_finish rt) = service_init"
    using off by (simp add: service_of_def stop_finish_def service_init_def worker_phase_def)
  ultimately show ?thesis using settles[of "service_of rt" ws b m] off by (simp add: service_of_def)
qed

lemma start_opens:
  assumes "refines_inv cfg ws rt" "\<not> stopping rt" "\<not> started rt"
  shows "service_step b m ws (service_of rt) (service_of (start rt))"
proof -
  have off: "phase_of (service_of rt) w = (if tasks rt w = None then Off else Ended)" for w
    using refines_inv_worker[OF assms(1), of w] assms(2,3)
    by (cases "w \<in> ws"; cases "tasks rt w") (auto simp: service_worker worker_phase_def)
  have outside: "tasks rt w = None" if "w \<notin> ws" for w using refines_inv_worker(2)[OF assms(1) that] .
  have "service_of (start rt) = \<lparr>open_for_work = True, phase_of = (\<lambda>w. if w \<in> ws then AtWork 0 else Off)\<rparr>"
    using assms(1,3) outside
    by (auto simp: service_of_def start_def start_status_def worker_phase_def fun_eq_iff refines_inv_def)
  then show ?thesis using opens[of "service_of rt" b m ws] off assms(3) by (simp add: service_of_def)
qed

lemma stop_closes:
  assumes "started rt"
  shows "service_step b m ws (service_of rt) (service_of (stop_begin rt))"
proof -
  have "worker_phase (map_option cancel_task t) (st\<lparr>state := Stopping\<rparr>) = worker_phase t st" for t st
    by (auto simp: worker_phase_def cancel_task_def split: option.splits task_pc.splits)
  moreover have "worker_phase (map_option cancel_task t) st = worker_phase t st" for t st
    by (auto simp: worker_phase_def cancel_task_def split: option.splits task_pc.splits)
  ultimately have "service_of (stop_begin rt) = (service_of rt)\<lparr>open_for_work := False\<rparr>"
    by (simp add: service_of_def stop_begin_def fun_eq_iff)
  then show ?thesis using closes[of "service_of rt" b m ws] assms by (simp add: service_of_def)
qed

text \<open>Neither a cancellation of the caller of \<open>stop\<close> nor its end changes what is seen of the service.\<close>

lemma cancel_sim: "service_of (stop_cancel rt) = service_of rt" "service_of (stop_abort rt) = service_of rt"
proof -
  have "worker_phase (map_option cancel_task t) st = worker_phase t st" for t st
    by (auto simp: worker_phase_def cancel_task_def split: option.splits task_pc.splits)
  then show "service_of (stop_cancel rt) = service_of rt" by (simp add: service_of_def stop_cancel_def)
  show "service_of (stop_abort rt) = service_of rt" by (simp add: service_of_def stop_abort_def)
qed

text \<open>The supervisors' own steps: a worker that begins or absorbs a cancellation is at work before and
  after; a sleeping one resumes or ends.\<close>

lemma begin_sim:
  assumes inv: "refines_inv cfg ws rt" and t: "tasks rt w = Some (Task NotBegun c)"
  shows "service_of (set_worker rt w (InRunner, loop_head (statuses rt w))) = service_of rt"
    and "service_step b m ws (service_of rt) (service_of (set_worker rt w (Finished e, st)))"
proof -
  have at: "phase_of (service_of rt) w = AtWork (restart_count (statuses rt w))"
    using t by (simp add: service_worker worker_phase_def)
  then show "service_of (set_worker rt w (InRunner, loop_head (statuses rt w))) = service_of rt"
    by (simp add: service_of_set_worker worker_phase_def loop_head_def set_phase_same)
  show "service_step b m ws (service_of rt) (service_of (set_worker rt w (Finished e, st)))"
    using ends[of w ws "service_of rt" b m] at refines_worker[OF inv] t
    by (simp add: service_of_set_worker worker_phase_def)
qed

lemma sleep_sim:
  assumes inv: "refines_inv cfg ws rt" and t: "tasks rt w = Some (Task InSleep c)"
  shows "service_step b m ws (service_of rt) (service_of (set_worker rt w (InRunner, loop_head (statuses rt w))))"
    and "service_step b m ws (service_of rt) (service_of (set_worker rt w (Finished e, st)))"
proof -
  have w: "w \<in> ws" using refines_worker[OF inv] t by simp
  have at: "phase_of (service_of rt) w = Pausing (restart_count (statuses rt w)) (the (next_retry_seconds (statuses rt w)))"
    using t by (simp add: service_worker worker_phase_def)
  then show "service_step b m ws (service_of rt) (service_of (set_worker rt w (InRunner, loop_head (statuses rt w))))"
    using resumes[OF w, of "service_of rt" _ _ b m]
    by (simp add: service_of_set_worker worker_phase_def loop_head_def)
  show "service_step b m ws (service_of rt) (service_of (set_worker rt w (Finished e, st)))"
    using ends[OF w, of "service_of rt" b m] at by (simp add: service_of_set_worker worker_phase_def)
qed

lemma absorb_sim:
  assumes "tasks rt w = Some (Task InRunner c)"
  shows "service_of (set_worker rt w (InRunner, statuses rt w)) = service_of rt"
  using assms by (simp add: service_of_set_worker worker_phase_def set_phase_same service_worker)

lemma runtime_step_sim:
  assumes inv: "refines_inv cfg ws rt" and step: "runtime_step rt e = Some rt'"
  shows "service_of rt' = service_of rt
    \<or> service_step (base_backoff cfg) (top_delay cfg) ws (service_of rt) (service_of rt')"
proof (cases e)
  case StartCall
  then show ?thesis using step start_opens[OF inv] by (auto simp: start_def split: if_splits)
next
  case StopCall
  then show ?thesis using step stop_closes by (auto split: if_splits)
next
  case StopReturn
  then show ?thesis using step stop_settles[OF inv] by (auto split: if_splits)
next
  case StopCancel
  then show ?thesis using step cancel_sim by (auto split: if_splits)
next
  case StopAbort
  then show ?thesis using step cancel_sim by (auto split: if_splits)
next
  case (TaskBegin w)
  then show ?thesis using step begin_sim[OF inv] unfolding TaskBegin_iff[of rt w rt', folded TaskBegin] by auto
next
  case (RunnerExit w x)
  then show ?thesis using step after_runner_sim[OF inv] inv
    unfolding RunnerExit_iff[of rt w x rt', folded RunnerExit] by (auto simp: refines_inv_def)
next
  case (RunnerAbsorb w)
  then show ?thesis using step absorb_sim unfolding RunnerAbsorb_iff[of rt w rt', folded RunnerAbsorb] by auto
next
  case (SleepEnd w)
  then show ?thesis using step sleep_sim[OF inv] unfolding SleepEnd_iff[of rt w rt', folded SleepEnd] by auto
qed

interpretation supervised: simulation runtime_step "refines_inv cfg ws" service_of
  "service_step (base_backoff cfg) (top_delay cfg) ws" for cfg ws
  by unfold_locales (fact refines_inv_step runtime_step_sim)+

section \<open>Properties\<close>

text \<open>C12: The runtime refines its specification: for every configuration that the constructor accepts, with
  \<open>log2\<close> as accurate as \<open>log2_gap_ok\<close> states, and in every interleaving of calls, runners, timers and
  cancellations, also of the caller of \<open>stop\<close>, what is seen of it is a run of \<open>service_step\<close>. So the service
  opens only when every worker is off or has ended, and is off again only when every worker has ended; a
  worker leaves its work only by failing, which makes it pause for the base delay doubled once per
  failure before, under a largest delay, or by ending; it comes back only from that pause; and what has
  ended stays so until the service settles or opens again. The largest delay is at most the maximum, and
  falls short of it by no more than the accuracy of the logarithm, a factor of \<open>2 powr (- 1 / 1024)\<close>.\<close>

theorem runtime_refines_service:
  assumes "init_runtime gap names base mx = Inr rt0"
    and "\<And>b m. base = Fin b \<Longrightarrow> mx = Fin m \<Longrightarrow> log2_gap_ok gap m b"
    and "run runtime_step rt0 es = Some rt"
  shows "service_of rt0 = service_init
     \<and> (service_step (base_backoff (config rt0)) (top_delay (config rt0)) (set names))\<^sup>*\<^sup>*
         service_init (service_of rt)
     \<and> top_delay (config rt0) \<le> max_backoff (config rt0)
     \<and> real_of_rat (max_backoff (config rt0)) * 2 powr (- 1 / 1024) \<le> real_of_rat (top_delay (config rt0))"
proof -
  have init: "service_of rt0 = service_init" and names: "runners rt0 = names"
    and cfg: "check_config gap names base mx = Inr (config rt0)"
    using assms(1) by (auto simp: init_runtime_def service_of_def service_init_def worker_phase_def)
  have sane: "config_sane (config rt0)" by (rule init_config_sane[OF assms(1,2)])
  then have "refines_inv (config rt0) (set names) rt0"
    using init_runtime_inv[OF assms(1)] names by (simp add: refines_inv_def)
  from supervised.run_sim[OF this assms(3)] init show ?thesis
    using top_delay_bounds(2)[OF sane] top_delay_accuracy[OF cfg assms(2)] by simp
qed

theorem runtime_refines_service_witness:
  "\<exists>rt. run runtime_step demo_runtime [StartCall, TaskBegin (lit ''poster''), RunnerExit (lit ''poster'') Raises] = Some rt
     \<and> (service_step 1 30 {lit ''poster'', lit ''webhook''})\<^sup>*\<^sup>* service_init (service_of rt)
     \<and> phase_of (service_of rt) (lit ''poster'') = Pausing 1 1"
proof -
  let ?es = "[StartCall, TaskBegin (lit ''poster''), RunnerExit (lit ''poster'') Raises]"
  have "\<exists>rt. run runtime_step demo_runtime ?es = Some rt \<and> phase_of (service_of rt) (lit ''poster'') = Pausing 1 1"
    by (simp add: demo_simps service_worker worker_phase_def)
  then obtain rt where rt: "run runtime_step demo_runtime ?es = Some rt"
    "phase_of (service_of rt) (lit ''poster'') = Pausing 1 1" by blast
  have "base_backoff (config demo_runtime) = 1" "top_delay (config demo_runtime) = 30"
    by (simp_all add: demo_runtime_def default_config_def top_delay_def)
  then show ?thesis using runtime_refines_service[OF demo_init demo_gap rt(1)] rt by simp
qed

end
