(* ===== verification/Sql.thy ===== *)
theory Sql
  imports Complex_Main PyText
begin

text \<open>
  The SQL that the migration and the models are written in: column values with \<open>NULL\<close>, column
  types and what storing a value in a column does to it, and the conditions of \<open>CHECK\<close> constraints
  and partial indexes with their three-valued logic. A \<open>CHECK\<close> accepts a row unless its condition
  is false; an index predicate selects a row only when its condition is true.
\<close>

section \<open>Values and column types\<close>

datatype sval =
    Null
  | VUuid nat
  | VText pystr
  | VInt int
  | VNum rat
  | VBool bool
  | VTime int
  | VBytes bytes

datatype sql_type =
    UUID
  | Varchar nat
  | TextT
  | Numeric nat nat
  | IntegerT
  | BigInt
  | BooleanT
  | TimestampTZ
  | Bytea

datatype sql_error =
    UndefinedTable string
  | UndefinedColumn string string
  | DuplicateTable string
  | DuplicateObject string
  | UndefinedObject string
  | InvalidForeignKey string
  | DependentObjects string
  | DatatypeMismatch string
  | UntranslatableText string
  | StringTruncation string
  | NumericOutOfRange string
  | NotNullViolation string string
  | CheckViolation string
  | UniqueViolation string "string list"
  | ForeignKeyViolation string string
  | RestrictViolation string string
  | TriggerRaised string
  | TruncateReferenced string
  | CascadeTooDeep

text \<open>\<open>NUMERIC(p, s)\<close> rounds to \<open>s\<close> decimals, halves away from zero, and then needs
  \<open>|v| < 10 ^ (p - s)\<close>.\<close>

definition round_half_away :: "rat \<Rightarrow> int" where
  "round_half_away q = (if 0 \<le> q then \<lfloor>q + 1 / 2\<rfloor> else - \<lfloor>- q + 1 / 2\<rfloor>)"

definition round_scale :: "nat \<Rightarrow> rat \<Rightarrow> rat" where
  "round_scale s q = of_int (round_half_away (q * 10 ^ s)) / 10 ^ s"

text \<open>The text types of a UTF-8 database hold no NUL and no surrogate; the driver or the server refuses
  a string that has one.\<close>

definition text_storable :: "pystr \<Rightarrow> bool" where
  "text_storable s = list_all (\<lambda>c. 0 < c \<and> c < 1114112 \<and> \<not> (55296 \<le> c \<and> c \<le> 57343)) s"

text \<open>For evaluation: integer literals are binary.\<close>

lemma text_storable_code [code]:
  "text_storable s = list_all (\<lambda>c. let i = int c in 0 < i \<and> i < 1114112 \<and> \<not> (55296 \<le> i \<and> i \<le> 57343)) s"
  by (simp add: text_storable_def Let_def list_all_iff)

lemma text_storable_take: "text_storable s \<Longrightarrow> text_storable (take n s)"
  by (auto simp: text_storable_def list_all_iff dest: in_set_takeD)

text \<open>Storing a value in a column of a type. A text that is too long is an error unless only spaces
  are cut off.\<close>

definition coerce :: "string \<Rightarrow> sql_type \<Rightarrow> sval \<Rightarrow> (sql_error, sval) result" where
  "coerce c ty v =
     (if v = Null then Inr Null else
      case ty of
        UUID \<Rightarrow> (case v of VUuid _ \<Rightarrow> Inr v | _ \<Rightarrow> Inl (DatatypeMismatch c))
      | Varchar n \<Rightarrow>
          (case v of VText s \<Rightarrow>
             if \<not> text_storable s then Inl (UntranslatableText c)
             else if length s \<le> n then Inr v
             else if list_all (\<lambda>x. x = 32) (drop n s) then Inr (VText (take n s))
             else Inl (StringTruncation c)
           | _ \<Rightarrow> Inl (DatatypeMismatch c))
      | TextT \<Rightarrow>
          (case v of VText s \<Rightarrow> if text_storable s then Inr v else Inl (UntranslatableText c)
           | _ \<Rightarrow> Inl (DatatypeMismatch c))
      | Numeric p s \<Rightarrow>
          (case v of VNum q \<Rightarrow>
             if \<bar>round_scale s q\<bar> < 10 ^ (p - s) then Inr (VNum (round_scale s q))
             else Inl (NumericOutOfRange c)
           | _ \<Rightarrow> Inl (DatatypeMismatch c))
      | IntegerT \<Rightarrow>
          (case v of VInt i \<Rightarrow>
             if - (2 ^ 31) \<le> i \<and> i < 2 ^ 31 then Inr v else Inl (NumericOutOfRange c)
           | _ \<Rightarrow> Inl (DatatypeMismatch c))
      | BigInt \<Rightarrow>
          (case v of VInt i \<Rightarrow>
             if - (2 ^ 63) \<le> i \<and> i < 2 ^ 63 then Inr v else Inl (NumericOutOfRange c)
           | _ \<Rightarrow> Inl (DatatypeMismatch c))
      | BooleanT \<Rightarrow> (case v of VBool _ \<Rightarrow> Inr v | _ \<Rightarrow> Inl (DatatypeMismatch c))
      | TimestampTZ \<Rightarrow> (case v of VTime _ \<Rightarrow> Inr v | _ \<Rightarrow> Inl (DatatypeMismatch c))
      | Bytea \<Rightarrow> (case v of VBytes _ \<Rightarrow> Inr v | _ \<Rightarrow> Inl (DatatypeMismatch c)))"

text \<open>The values a column of a type can hold.\<close>

definition has_type :: "sql_type \<Rightarrow> sval \<Rightarrow> bool" where
  "has_type ty v \<longleftrightarrow> v = Null \<or>
     (case ty of
        UUID \<Rightarrow> (case v of VUuid _ \<Rightarrow> True | _ \<Rightarrow> False)
      | Varchar n \<Rightarrow> (case v of VText s \<Rightarrow> length s \<le> n \<and> text_storable s | _ \<Rightarrow> False)
      | TextT \<Rightarrow> (case v of VText s \<Rightarrow> text_storable s | _ \<Rightarrow> False)
      | Numeric p s \<Rightarrow> (case v of VNum q \<Rightarrow> \<bar>q\<bar> < 10 ^ (p - s) \<and> round_scale s q = q | _ \<Rightarrow> False)
      | IntegerT \<Rightarrow> (case v of VInt i \<Rightarrow> - (2 ^ 31) \<le> i \<and> i < 2 ^ 31 | _ \<Rightarrow> False)
      | BigInt \<Rightarrow> (case v of VInt i \<Rightarrow> - (2 ^ 63) \<le> i \<and> i < 2 ^ 63 | _ \<Rightarrow> False)
      | BooleanT \<Rightarrow> (case v of VBool _ \<Rightarrow> True | _ \<Rightarrow> False)
      | TimestampTZ \<Rightarrow> (case v of VTime _ \<Rightarrow> True | _ \<Rightarrow> False)
      | Bytea \<Rightarrow> (case v of VBytes _ \<Rightarrow> True | _ \<Rightarrow> False))"

lemma round_half_away_int [simp]: "round_half_away (of_int i) = i"
  by (simp add: round_half_away_def) linarith

lemma round_scale_idem [simp]: "round_scale s (round_scale s q) = round_scale s q"
  by (simp add: round_scale_def)

lemma coerce_has_type: "coerce c ty v = Inr v' \<Longrightarrow> has_type ty v'"
  by (auto simp: coerce_def has_type_def text_storable_take split: if_splits sql_type.splits sval.splits)

text \<open>A value that fits is stored as it is.\<close>

lemma coerce_id: "has_type ty v \<Longrightarrow> coerce c ty v = Inr v"
  by (auto simp: coerce_def has_type_def split: sql_type.splits sval.splits)

section \<open>Conditions\<close>

datatype tv = TT | FF | UU

fun tv_not :: "tv \<Rightarrow> tv" where
  "tv_not TT = FF"
| "tv_not FF = TT"
| "tv_not UU = UU"

text \<open>False lies below unknown and unknown below true: \<open>AND\<close> is the minimum and \<open>OR\<close> the maximum.\<close>

fun tv_rank :: "tv \<Rightarrow> nat" where
  "tv_rank FF = 0"
| "tv_rank UU = 1"
| "tv_rank TT = 2"

lemma tv_rank_inj: "tv_rank a = tv_rank b \<Longrightarrow> a = b"
  by (cases a; cases b) simp_all

instantiation tv :: linorder
begin

definition less_eq_tv :: "tv \<Rightarrow> tv \<Rightarrow> bool" where
  "less_eq_tv a b \<longleftrightarrow> tv_rank a \<le> tv_rank b"

definition less_tv :: "tv \<Rightarrow> tv \<Rightarrow> bool" where
  "less_tv a b \<longleftrightarrow> tv_rank a < tv_rank b"

instance
  by standard (auto simp: less_eq_tv_def less_tv_def tv_rank_inj)

end

definition tv_of :: "bool \<Rightarrow> tv" where
  "tv_of b = (if b then TT else FF)"

datatype cmp = EQ | NE | LT | LE | GT | GE

datatype cond =
    Cmp cmp string sval
  | CmpCol cmp string string
  | IsNull string
  | IsNotNull string
  | InList string "sval list"
  | BoolCol string
  | NotC cond
  | AndC cond cond
  | OrC cond cond

type_synonym row = "string \<Rightarrow> sval"

text \<open>Numbers and timestamps are ordered; the other types are only compared for equality here.\<close>

fun sval_less :: "sval \<Rightarrow> sval \<Rightarrow> bool" where
  "sval_less (VInt i) (VInt j) \<longleftrightarrow> i < j"
| "sval_less (VNum x) (VNum y) \<longleftrightarrow> x < y"
| "sval_less (VTime t) (VTime u) \<longleftrightarrow> t < u"
| "sval_less _ _ \<longleftrightarrow> False"

fun compare_by :: "cmp \<Rightarrow> sval \<Rightarrow> sval \<Rightarrow> bool" where
  "compare_by EQ x y \<longleftrightarrow> x = y"
| "compare_by NE x y \<longleftrightarrow> x \<noteq> y"
| "compare_by LT x y \<longleftrightarrow> sval_less x y"
| "compare_by LE x y \<longleftrightarrow> sval_less x y \<or> x = y"
| "compare_by GT x y \<longleftrightarrow> sval_less y x"
| "compare_by GE x y \<longleftrightarrow> sval_less y x \<or> x = y"

definition compare :: "cmp \<Rightarrow> sval \<Rightarrow> sval \<Rightarrow> tv" where
  "compare c x y = (if x = Null \<or> y = Null then UU else tv_of (compare_by c x y))"

fun eval :: "cond \<Rightarrow> row \<Rightarrow> tv" where
  "eval (Cmp c col v) r = compare c (r col) v"
| "eval (CmpCol c col col') r = compare c (r col) (r col')"
| "eval (IsNull col) r = tv_of (r col = Null)"
| "eval (IsNotNull col) r = tv_of (r col \<noteq> Null)"
| "eval (InList col vs) r = (if r col = Null then UU else tv_of (r col \<in> set vs))"
| "eval (BoolCol col) r = (case r col of VBool b \<Rightarrow> tv_of b | _ \<Rightarrow> UU)"
| "eval (NotC c) r = tv_not (eval c r)"
| "eval (AndC c d) r = min (eval c r) (eval d r)"
| "eval (OrC c d) r = max (eval c r) (eval d r)"

text \<open>When a condition is true, and when it is not false.\<close>

lemma tv_of_simps [simp]: "tv_of b = TT \<longleftrightarrow> b" "tv_of b = FF \<longleftrightarrow> \<not> b" "tv_of b \<noteq> UU"
  by (simp_all add: tv_of_def)

lemmas tv_order = less_eq_tv_def less_tv_def min_def max_def

lemma tv_and_simps [simp]:
  "min a b = TT \<longleftrightarrow> a = TT \<and> b = TT" "min a b = FF \<longleftrightarrow> a = FF \<or> b = FF"
  by (cases a; cases b; simp add: tv_order)+

lemma tv_or_simps [simp]:
  "max a b = TT \<longleftrightarrow> a = TT \<or> b = TT" "max a b = FF \<longleftrightarrow> a = FF \<and> b = FF"
  by (cases a; cases b; simp add: tv_order)+

text \<open>\<open>NOT\<close> turns the order around, so De Morgan's laws hold with \<open>NULL\<close> as well.\<close>

lemma tv_not_antimono: "tv_not a \<le> tv_not b \<longleftrightarrow> b \<le> a"
  by (cases a; cases b) (simp_all add: tv_order)

lemma eval_de_morgan:
  "eval (NotC (AndC c d)) r = eval (OrC (NotC c) (NotC d)) r"
  "eval (NotC (OrC c d)) r = eval (AndC (NotC c) (NotC d)) r"
  by (auto simp: min_def max_def tv_not_antimono)

lemma tv_not_simps [simp]: "tv_not a = TT \<longleftrightarrow> a = FF" "tv_not a = FF \<longleftrightarrow> a = TT"
  by (cases a; simp)+

lemma compare_TT: "compare c x y = TT \<longleftrightarrow> x \<noteq> Null \<and> y \<noteq> Null \<and> compare_by c x y"
  by (simp add: compare_def)

lemma compare_FF: "compare c x y = FF \<longleftrightarrow> x \<noteq> Null \<and> y \<noteq> Null \<and> \<not> compare_by c x y"
  by (simp add: compare_def)

end
