(* ===== verification/Schema.thy ===== *)
theory Schema
  imports Sql
begin

text \<open>
  Schemas as data, and the statements of a migration as operations on them: \<open>op.create_table\<close>,
  \<open>op.create_index\<close>, \<open>op.create_foreign_key\<close>, the \<open>CREATE FUNCTION\<close> and \<open>CREATE TRIGGER\<close> of
  \<open>op.execute\<close>, and their inverses. Each fails as PostgreSQL documents when an object exists
  already, is missing, or is still depended on.
\<close>

section \<open>Schemas\<close>

datatype sql_default = DefaultLit sval | DefaultNow

datatype on_delete = Cascade | SetNull | Restrict

record column =
  cname :: string
  ctype :: sql_type
  cnullable :: bool
  cdefault :: "sql_default option"

record foreign_key =
  fk_name :: "string option"
  fk_col :: string
  fk_target :: string
  fk_target_col :: string
  fk_on_delete :: on_delete

record index =
  ix_name :: string
  ix_cols :: "string list"
  ix_unique :: bool
  ix_where :: "cond option"

record table =
  tname :: string
  tcolumns :: "column list"
  tchecks :: "(string \<times> cond) list"
  tforeign_keys :: "foreign_key list"
  tprimary :: "string list"
  tuniques :: "(string option \<times> string list) list"
  tindexes :: "index list"

datatype tg_event = OnUpdate | OnDelete | OnTruncate

datatype tg_level = EachRow | EachStatement

record trigger =
  tg_name :: string
  tg_table :: string
  tg_events :: "tg_event list"
  tg_level :: tg_level
  tg_function :: string

record schema =
  s_tables :: "table list"
  s_functions :: "string list"
  s_triggers :: "trigger list"

definition empty_schema :: schema where
  "empty_schema = \<lparr>s_tables = [], s_functions = [], s_triggers = []\<rparr>"

definition find_table :: "schema \<Rightarrow> string \<Rightarrow> table option" where
  "find_table sch n = List.find (\<lambda>t. tname t = n) (s_tables sch)"

definition column_names :: "table \<Rightarrow> string list" where
  "column_names t = map cname (tcolumns t)"

section \<open>Statements of a migration\<close>

datatype ddl =
    CreateTable table
  | CreateIndex string index
  | AddForeignKey string foreign_key
  | CreateFunction string
  | CreateTrigger trigger
  | DropTable string
  | DropConstraint string string
  | DropTriggerIfExists string string
  | DropFunctionIfExists string

text \<open>The referenced column must be the primary key or carry a unique constraint.\<close>

definition unique_column :: "table \<Rightarrow> string \<Rightarrow> bool" where
  "unique_column t c \<longleftrightarrow> tprimary t = [c] \<or> list_ex (\<lambda>u. snd u = [c]) (tuniques t)"

definition fk_valid :: "table list \<Rightarrow> table \<Rightarrow> foreign_key \<Rightarrow> bool" where
  "fk_valid ts t fk \<longleftrightarrow> fk_col fk \<in> set (column_names t) \<and>
     list_ex (\<lambda>u. tname u = fk_target fk \<and> unique_column u (fk_target_col fk)) ts"

definition update_table :: "string \<Rightarrow> (table \<Rightarrow> table) \<Rightarrow> schema \<Rightarrow> schema" where
  "update_table n f sch = sch\<lparr>s_tables := map (\<lambda>t. if tname t = n then f t else t) (s_tables sch)\<rparr>"

definition references :: "table \<Rightarrow> string \<Rightarrow> bool" where
  "references t n \<longleftrightarrow> list_ex (\<lambda>fk. fk_target fk = n) (tforeign_keys t)"

fun exec_ddl :: "ddl \<Rightarrow> schema \<Rightarrow> (sql_error, schema) result" where
  "exec_ddl (CreateTable t) sch =
     (if list_ex (\<lambda>u. tname u = tname t) (s_tables sch) then Inl (DuplicateTable (tname t))
      else if \<not> list_all (fk_valid (t # s_tables sch) t) (tforeign_keys t) then Inl (InvalidForeignKey (tname t))
      else Inr (sch\<lparr>s_tables := s_tables sch @ [t]\<rparr>))"
| "exec_ddl (CreateIndex n ix) sch =
     (case find_table sch n of None \<Rightarrow> Inl (UndefinedTable n)
      | Some t \<Rightarrow>
          if \<not> list_all (\<lambda>c. c \<in> set (column_names t)) (ix_cols ix) then Inl (UndefinedColumn n (ix_name ix))
          else if list_ex (\<lambda>u. list_ex (\<lambda>i. ix_name i = ix_name ix) (tindexes u)) (s_tables sch)
            then Inl (DuplicateObject (ix_name ix))
          else Inr (update_table n (\<lambda>u. u\<lparr>tindexes := tindexes u @ [ix]\<rparr>) sch))"
| "exec_ddl (AddForeignKey n fk) sch =
     (case find_table sch n of None \<Rightarrow> Inl (UndefinedTable n)
      | Some t \<Rightarrow>
          if \<not> fk_valid (s_tables sch) t fk then Inl (InvalidForeignKey n)
          else Inr (update_table n (\<lambda>u. u\<lparr>tforeign_keys := tforeign_keys u @ [fk]\<rparr>) sch))"
| "exec_ddl (CreateFunction f) sch =
     (if f \<in> set (s_functions sch) then Inl (DuplicateObject f)
      else Inr (sch\<lparr>s_functions := s_functions sch @ [f]\<rparr>))"
| "exec_ddl (CreateTrigger tg) sch =
     (if find_table sch (tg_table tg) = None then Inl (UndefinedTable (tg_table tg))
      else if tg_function tg \<notin> set (s_functions sch) then Inl (UndefinedObject (tg_function tg))
      else if list_ex (\<lambda>u. tg_name u = tg_name tg \<and> tg_table u = tg_table tg) (s_triggers sch)
        then Inl (DuplicateObject (tg_name tg))
      else Inr (sch\<lparr>s_triggers := s_triggers sch @ [tg]\<rparr>))"
| "exec_ddl (DropTable n) sch =
     (if find_table sch n = None then Inl (UndefinedTable n)
      else if list_ex (\<lambda>t. tname t \<noteq> n \<and> references t n) (s_tables sch) then Inl (DependentObjects n)
      else Inr (sch\<lparr>s_tables := filter (\<lambda>t. tname t \<noteq> n) (s_tables sch),
                    s_triggers := filter (\<lambda>tg. tg_table tg \<noteq> n) (s_triggers sch)\<rparr>))"
| "exec_ddl (DropConstraint n c) sch =
     (case find_table sch n of None \<Rightarrow> Inl (UndefinedTable n)
      | Some t \<Rightarrow>
          if list_all (\<lambda>fk. fk_name fk \<noteq> Some c) (tforeign_keys t) then Inl (UndefinedObject c)
          else Inr (update_table n (\<lambda>u. u\<lparr>tforeign_keys := filter (\<lambda>fk. fk_name fk \<noteq> Some c) (tforeign_keys u)\<rparr>) sch))"
| "exec_ddl (DropTriggerIfExists g n) sch =
     Inr (sch\<lparr>s_triggers := filter (\<lambda>tg. \<not> (tg_name tg = g \<and> tg_table tg = n)) (s_triggers sch)\<rparr>)"
| "exec_ddl (DropFunctionIfExists f) sch =
     (if list_ex (\<lambda>tg. tg_function tg = f) (s_triggers sch) then Inl (DependentObjects f)
      else Inr (sch\<lparr>s_functions := filter (\<lambda>g. g \<noteq> f) (s_functions sch)\<rparr>))"

definition migrate :: "ddl list \<Rightarrow> schema \<Rightarrow> (sql_error, schema) result" where
  "migrate ds = res_fold exec_ddl ds"

lemma migrate_simps [simp]:
  "migrate [] sch = Inr sch"
  "migrate (d # ds) sch = res_bind (exec_ddl d sch) (migrate ds)"
  by (simp_all add: migrate_def)

lemma migrate_append: "migrate (ds @ es) sch = res_bind (migrate ds sch) (migrate es)"
  by (simp add: migrate_def res_fold_append)

end
