(* ===== verification/Migration.thy ===== *)
theory Migration
  imports Schema
begin

text \<open>
  The initial revision, \<open>alembic/versions/07f7b6151968_initial_schema.py\<close>: one definition for each
  \<open>op.create_table\<close>, the list of statements of \<open>upgrade\<close> in its order, and that of \<open>downgrade\<close>.
  The conditions of the \<open>CHECK\<close> constraints and of the partial index are the SQL of the source as
  conditions of \<open>Sql\<close>. The body of \<open>votes_forbid_mutation\<close> is one unconditional \<open>RAISE EXCEPTION\<close>,
  so what a trigger that runs it does is raise.
\<close>

section \<open>Columns\<close>

definition col :: "string \<Rightarrow> sql_type \<Rightarrow> column" where
  "col n ty = \<lparr>cname = n, ctype = ty, cnullable = False, cdefault = None\<rparr>"

definition col_null :: "string \<Rightarrow> sql_type \<Rightarrow> column" where
  "col_null n ty = \<lparr>cname = n, ctype = ty, cnullable = True, cdefault = None\<rparr>"

definition col_default :: "string \<Rightarrow> sql_type \<Rightarrow> sql_default \<Rightarrow> column" where
  "col_default n ty d = \<lparr>cname = n, ctype = ty, cnullable = False, cdefault = Some d\<rparr>"

definition timestamps :: "column list" where
  "timestamps = [col_default ''created_at'' TimestampTZ DefaultNow,
                 col_default ''updated_at'' TimestampTZ DefaultNow]"

definition fkey :: "string \<Rightarrow> string \<Rightarrow> on_delete \<Rightarrow> foreign_key" where
  "fkey c target d = \<lparr>fk_name = None, fk_col = c, fk_target = target, fk_target_col = ''id'', fk_on_delete = d\<rparr>"

definition percent_range :: "string \<Rightarrow> cond" where
  "percent_range c = OrC (IsNull c) (AndC (Cmp GE c (VNum 0)) (Cmp LE c (VNum 100)))"

definition text_in :: "string \<Rightarrow> string list \<Rightarrow> cond" where
  "text_in c vs = InList c (map (\<lambda>v. VText (lit v)) vs)"

definition text_default :: "string \<Rightarrow> sql_default" where
  "text_default s = DefaultLit (VText (lit s))"

section \<open>Tables\<close>

definition organizations_ddl :: table where
  "organizations_ddl = \<lparr>tname = ''organizations'',
     tcolumns = [col ''id'' UUID, col ''name'' (Varchar 255), col_null ''contact_email'' (Varchar 320),
       col_null ''contact_phone'' (Varchar 20), col_null ''platform_fee_percent'' (Numeric 5 2),
       col_null ''created_by_user_id'' UUID] @ timestamps,
     tchecks = [(''ck_organizations_platform_fee_percent_range'', percent_range ''platform_fee_percent'')],
     tforeign_keys = [], tprimary = [''id''], tuniques = [], tindexes = []\<rparr>"

definition users_ddl :: table where
  "users_ddl = \<lparr>tname = ''users'',
     tcolumns = [col ''id'' UUID, col ''email'' (Varchar 320), col ''password_hash'' (Varchar 255),
       col ''role'' (Varchar 32), col_null ''organization_id'' UUID] @ timestamps,
     tchecks = [(''ck_users_role'', text_in ''role'' [''admin'', ''organizer'', ''candidate''])],
     tforeign_keys = [fkey ''organization_id'' ''organizations'' SetNull],
     tprimary = [''id''], tuniques = [], tindexes = []\<rparr>"

definition contests_ddl :: table where
  "contests_ddl = \<lparr>tname = ''contests'',
     tcolumns = [col ''id'' UUID, col ''organization_id'' UUID, col ''name'' (Varchar 255),
       col_default ''status'' (Varchar 32) (text_default ''draft''),
       col_default ''requires_matric_number'' BooleanT (DefaultLit (VBool False)),
       col_default ''caps_votes_per_identity'' BooleanT (DefaultLit (VBool False)),
       col_null ''platform_fee_percent'' (Numeric 5 2), col ''starts_at'' TimestampTZ,
       col ''ends_at'' TimestampTZ] @ timestamps,
     tchecks = [(''ck_contests_status'', text_in ''status'' [''draft'', ''active'', ''closed'']),
       (''ck_contests_window'', CmpCol GT ''ends_at'' ''starts_at''),
       (''ck_contests_platform_fee_percent_range'', percent_range ''platform_fee_percent'')],
     tforeign_keys = [fkey ''organization_id'' ''organizations'' Cascade],
     tprimary = [''id''], tuniques = [], tindexes = []\<rparr>"

definition categories_ddl :: table where
  "categories_ddl = \<lparr>tname = ''categories'',
     tcolumns = [col ''id'' UUID, col ''contest_id'' UUID, col ''name'' (Varchar 255)] @ timestamps,
     tchecks = [],
     tforeign_keys = [fkey ''contest_id'' ''contests'' Cascade],
     tprimary = [''id''], tuniques = [(Some ''uq_categories_contest_name'', [''contest_id'', ''name''])],
     tindexes = []\<rparr>"

definition candidates_ddl :: table where
  "candidates_ddl = \<lparr>tname = ''candidates'',
     tcolumns = [col ''id'' UUID, col ''category_id'' UUID, col_null ''user_id'' UUID,
       col ''name'' (Varchar 255), col ''slug'' (Varchar 255), col_null ''photo_url'' TextT,
       col_null ''bio'' TextT, col_null ''matric_number'' (Varchar 64), col_null ''poster_url'' TextT,
       col_default ''status'' (Varchar 32) (text_default ''pending_approval''),
       col_null ''disqualification_reason'' TextT] @ timestamps,
     tchecks = [(''ck_candidates_status'', text_in ''status'' [''pending_approval'', ''approved'', ''disqualified'']),
       (''ck_candidates_disqualified_has_reason'',
        OrC (Cmp NE ''status'' (VText (lit ''disqualified''))) (IsNotNull ''disqualification_reason''))],
     tforeign_keys = [fkey ''category_id'' ''categories'' Cascade, fkey ''user_id'' ''users'' SetNull],
     tprimary = [''id''], tuniques = [], tindexes = []\<rparr>"

definition vote_packages_ddl :: table where
  "vote_packages_ddl = \<lparr>tname = ''vote_packages'',
     tcolumns = [col ''id'' UUID, col ''contest_id'' UUID, col ''amount_kobo'' BigInt,
       col ''vote_count'' IntegerT, col ''label'' (Varchar 64)] @ timestamps,
     tchecks = [(''ck_vote_packages_amount_positive'', Cmp GT ''amount_kobo'' (VInt 0)),
       (''ck_vote_packages_votes_positive'', Cmp GT ''vote_count'' (VInt 0))],
     tforeign_keys = [fkey ''contest_id'' ''contests'' Cascade],
     tprimary = [''id''], tuniques = [], tindexes = []\<rparr>"

definition subaccounts_ddl :: table where
  "subaccounts_ddl = \<lparr>tname = ''subaccounts'',
     tcolumns = [col ''id'' UUID, col ''candidate_id'' UUID, col ''bank_code'' (Varchar 16),
       col ''account_number_encrypted'' Bytea, col_null ''account_name'' (Varchar 255),
       col_null ''subaccount_code'' (Varchar 64), col_null ''percentage_charge'' (Numeric 5 2),
       col_default ''settlement_schedule'' (Varchar 16) (text_default ''manual''),
       col_default ''status'' (Varchar 32) (text_default ''pending'')] @ timestamps,
     tchecks = [(''ck_subaccounts_status'', text_in ''status'' [''pending'', ''verified'']),
       (''ck_subaccounts_verified_has_code'',
        OrC (Cmp NE ''status'' (VText (lit ''verified''))) (IsNotNull ''subaccount_code'')),
       (''ck_subaccounts_percentage_charge_range'', percent_range ''percentage_charge'')],
     tforeign_keys = [fkey ''candidate_id'' ''candidates'' Cascade],
     tprimary = [''id''], tuniques = [(None, [''candidate_id'']), (None, [''subaccount_code''])],
     tindexes = []\<rparr>"

definition transactions_ddl :: table where
  "transactions_ddl = \<lparr>tname = ''transactions'',
     tcolumns = [col ''id'' UUID, col ''candidate_id'' UUID, col ''vote_package_id'' UUID,
       col ''contest_id'' UUID, col ''paystack_reference'' (Varchar 100), col ''amount_kobo'' BigInt,
       col_default ''status'' (Varchar 32) (text_default ''pending''),
       col_null ''voter_matric_number'' (Varchar 64), col_null ''voter_phone'' (Varchar 20),
       col_default ''enforce_identity_cap'' BooleanT (DefaultLit (VBool False)),
       col_null ''confirmed_at'' TimestampTZ] @ timestamps,
     tchecks = [(''ck_transactions_status'', text_in ''status'' [''pending'', ''success'', ''failed'']),
       (''ck_transactions_amount_positive'', Cmp GT ''amount_kobo'' (VInt 0)),
       (''ck_transactions_success_is_confirmed'',
        OrC (Cmp NE ''status'' (VText (lit ''success''))) (IsNotNull ''confirmed_at'')),
       (''ck_transactions_cap_needs_matric_number'',
        OrC (NotC (BoolCol ''enforce_identity_cap'')) (IsNotNull ''voter_matric_number''))],
     tforeign_keys = [fkey ''candidate_id'' ''candidates'' Restrict,
       fkey ''vote_package_id'' ''vote_packages'' Restrict, fkey ''contest_id'' ''contests'' Restrict],
     tprimary = [''id''], tuniques = [], tindexes = []\<rparr>"

definition votes_ddl :: table where
  "votes_ddl = \<lparr>tname = ''votes'',
     tcolumns = [col ''id'' UUID, col ''transaction_id'' UUID, col ''candidate_id'' UUID,
       col_default ''created_at'' TimestampTZ DefaultNow],
     tchecks = [],
     tforeign_keys = [fkey ''transaction_id'' ''transactions'' Restrict,
       fkey ''candidate_id'' ''candidates'' Restrict],
     tprimary = [''id''], tuniques = [], tindexes = []\<rparr>"

definition settlements_ddl :: table where
  "settlements_ddl = \<lparr>tname = ''settlements'',
     tcolumns = [col ''id'' UUID, col ''candidate_id'' UUID, col ''period_start'' TimestampTZ,
       col ''period_end'' TimestampTZ, col ''amount_kobo'' BigInt,
       col_default ''status'' (Varchar 32) (text_default ''held''),
       col_null ''actioned_by_user_id'' UUID, col_null ''actioned_at'' TimestampTZ] @ timestamps,
     tchecks = [(''ck_settlements_status'', text_in ''status'' [''held'', ''released'', ''reversed'']),
       (''ck_settlements_amount_non_negative'', Cmp GE ''amount_kobo'' (VInt 0)),
       (''ck_settlements_period'', CmpCol GE ''period_end'' ''period_start''),
       (''ck_settlements_action_is_timestamped'',
        OrC (Cmp EQ ''status'' (VText (lit ''held''))) (IsNotNull ''actioned_at''))],
     tforeign_keys = [fkey ''candidate_id'' ''candidates'' Restrict, fkey ''actioned_by_user_id'' ''users'' SetNull],
     tprimary = [''id''], tuniques = [], tindexes = []\<rparr>"

section \<open>Upgrade and downgrade\<close>

definition plain_index :: "string \<Rightarrow> string list \<Rightarrow> index" where
  "plain_index n cs = \<lparr>ix_name = n, ix_cols = cs, ix_unique = False, ix_where = None\<rparr>"

definition unique_index :: "string \<Rightarrow> string list \<Rightarrow> index" where
  "unique_index n cs = \<lparr>ix_name = n, ix_cols = cs, ix_unique = True, ix_where = None\<rparr>"

definition organizations_creator_fk :: foreign_key where
  "organizations_creator_fk = \<lparr>fk_name = Some ''fk_organizations_created_by_user_id_users'',
     fk_col = ''created_by_user_id'', fk_target = ''users'', fk_target_col = ''id'', fk_on_delete = SetNull\<rparr>"

definition identity_cap_index :: index where
  "identity_cap_index = \<lparr>ix_name = ''uq_transactions_identity_cap'',
     ix_cols = [''contest_id'', ''voter_matric_number''], ix_unique = True,
     ix_where = Some (AndC (BoolCol ''enforce_identity_cap'') (text_in ''status'' [''pending'', ''success'']))\<rparr>"

definition votes_append_only :: trigger where
  "votes_append_only = \<lparr>tg_name = ''votes_append_only'', tg_table = ''votes'',
     tg_events = [OnUpdate, OnDelete], tg_level = EachRow, tg_function = ''votes_forbid_mutation''\<rparr>"

definition votes_no_truncate :: trigger where
  "votes_no_truncate = \<lparr>tg_name = ''votes_no_truncate'', tg_table = ''votes'',
     tg_events = [OnTruncate], tg_level = EachStatement, tg_function = ''votes_forbid_mutation''\<rparr>"

text \<open>The indexes that follow each table, in the order they are created.\<close>

definition users_indexes :: "index list" where
  "users_indexes = [unique_index ''ix_users_email'' [''email''],
     plain_index ''ix_users_organization_id'' [''organization_id'']]"

definition contests_indexes :: "index list" where
  "contests_indexes = [plain_index ''ix_contests_organization_id'' [''organization_id''],
     plain_index ''ix_contests_organization_status'' [''organization_id'', ''status'']]"

definition categories_indexes :: "index list" where
  "categories_indexes = [plain_index ''ix_categories_contest_id'' [''contest_id'']]"

definition candidates_indexes :: "index list" where
  "candidates_indexes = [plain_index ''ix_candidates_category_id'' [''category_id''],
     plain_index ''ix_candidates_user_id'' [''user_id''], unique_index ''ix_candidates_slug'' [''slug''],
     plain_index ''ix_candidates_category_status'' [''category_id'', ''status'']]"

definition vote_packages_indexes :: "index list" where
  "vote_packages_indexes = [plain_index ''ix_vote_packages_contest_id'' [''contest_id'']]"

definition transactions_indexes :: "index list" where
  "transactions_indexes = [plain_index ''ix_transactions_candidate_id'' [''candidate_id''],
     plain_index ''ix_transactions_vote_package_id'' [''vote_package_id''],
     plain_index ''ix_transactions_contest_id'' [''contest_id''],
     unique_index ''ix_transactions_paystack_reference'' [''paystack_reference''],
     plain_index ''ix_transactions_candidate_status'' [''candidate_id'', ''status''],
     plain_index ''ix_transactions_contest_status'' [''contest_id'', ''status''], identity_cap_index]"

definition votes_indexes :: "index list" where
  "votes_indexes = [plain_index ''ix_votes_transaction_id'' [''transaction_id''],
     plain_index ''ix_votes_candidate_created'' [''candidate_id'', ''created_at'']]"

definition settlements_indexes :: "index list" where
  "settlements_indexes = [plain_index ''ix_settlements_candidate_id'' [''candidate_id''],
     plain_index ''ix_settlements_candidate_status'' [''candidate_id'', ''status'']]"

text \<open>A table and then its indexes.\<close>

definition create_with :: "table \<Rightarrow> index list \<Rightarrow> ddl list" where
  "create_with t ixs = CreateTable t # map (CreateIndex (tname t)) ixs"

definition upgrade_script :: "ddl list" where
  "upgrade_script =
     create_with organizations_ddl [] @
     create_with users_ddl users_indexes @
     [AddForeignKey ''organizations'' organizations_creator_fk] @
     create_with contests_ddl contests_indexes @
     create_with categories_ddl categories_indexes @
     create_with candidates_ddl candidates_indexes @
     create_with vote_packages_ddl vote_packages_indexes @
     create_with subaccounts_ddl [] @
     create_with transactions_ddl transactions_indexes @
     create_with votes_ddl votes_indexes @
     [CreateFunction ''votes_forbid_mutation'',
      CreateTrigger votes_append_only,
      CreateTrigger votes_no_truncate] @
     create_with settlements_ddl settlements_indexes"

definition downgrade_script :: "ddl list" where
  "downgrade_script =
     [DropTable ''settlements'',
      DropTriggerIfExists ''votes_no_truncate'' ''votes'',
      DropTriggerIfExists ''votes_append_only'' ''votes'',
      DropFunctionIfExists ''votes_forbid_mutation'',
      DropTable ''votes'',
      DropTable ''transactions'',
      DropTable ''subaccounts'',
      DropTable ''vote_packages'',
      DropTable ''candidates'',
      DropTable ''categories'',
      DropTable ''contests'',
      DropConstraint ''organizations'' ''fk_organizations_created_by_user_id_users'',
      DropTable ''users'',
      DropTable ''organizations'']"

section \<open>The schema that the upgrade is expected to build\<close>

text \<open>Written out for the proofs; \<open>Migrated\<close> shows that \<open>upgrade_script\<close> builds exactly this.\<close>

definition organizations_table :: table where
  "organizations_table = organizations_ddl\<lparr>tforeign_keys := [organizations_creator_fk]\<rparr>"

definition users_table :: table where
  "users_table = users_ddl\<lparr>tindexes := [unique_index ''ix_users_email'' [''email''],
     plain_index ''ix_users_organization_id'' [''organization_id'']]\<rparr>"

definition contests_table :: table where
  "contests_table = contests_ddl\<lparr>tindexes := [plain_index ''ix_contests_organization_id'' [''organization_id''],
     plain_index ''ix_contests_organization_status'' [''organization_id'', ''status'']]\<rparr>"

definition categories_table :: table where
  "categories_table = categories_ddl\<lparr>tindexes := [plain_index ''ix_categories_contest_id'' [''contest_id'']]\<rparr>"

definition candidates_table :: table where
  "candidates_table = candidates_ddl\<lparr>tindexes := [plain_index ''ix_candidates_category_id'' [''category_id''],
     plain_index ''ix_candidates_user_id'' [''user_id''], unique_index ''ix_candidates_slug'' [''slug''],
     plain_index ''ix_candidates_category_status'' [''category_id'', ''status'']]\<rparr>"

definition vote_packages_table :: table where
  "vote_packages_table = vote_packages_ddl\<lparr>tindexes := [plain_index ''ix_vote_packages_contest_id'' [''contest_id'']]\<rparr>"

definition subaccounts_table :: table where
  "subaccounts_table = subaccounts_ddl"

definition transactions_table :: table where
  "transactions_table = transactions_ddl\<lparr>tindexes := [plain_index ''ix_transactions_candidate_id'' [''candidate_id''],
     plain_index ''ix_transactions_vote_package_id'' [''vote_package_id''],
     plain_index ''ix_transactions_contest_id'' [''contest_id''],
     unique_index ''ix_transactions_paystack_reference'' [''paystack_reference''],
     plain_index ''ix_transactions_candidate_status'' [''candidate_id'', ''status''],
     plain_index ''ix_transactions_contest_status'' [''contest_id'', ''status''], identity_cap_index]\<rparr>"

definition votes_table :: table where
  "votes_table = votes_ddl\<lparr>tindexes := [plain_index ''ix_votes_transaction_id'' [''transaction_id''],
     plain_index ''ix_votes_candidate_created'' [''candidate_id'', ''created_at'']]\<rparr>"

definition settlements_table :: table where
  "settlements_table = settlements_ddl\<lparr>tindexes := [plain_index ''ix_settlements_candidate_id'' [''candidate_id''],
     plain_index ''ix_settlements_candidate_status'' [''candidate_id'', ''status'']]\<rparr>"

definition expected_schema :: schema where
  "expected_schema = \<lparr>s_tables = [organizations_table, users_table, contests_table, categories_table,
       candidates_table, vote_packages_table, subaccounts_table, transactions_table, votes_table,
       settlements_table],
     s_functions = [''votes_forbid_mutation''], s_triggers = [votes_append_only, votes_no_truncate]\<rparr>"

end
