(* ===== verification/Orm.thy ===== *)
theory Orm
  imports Migration
begin

text \<open>
  The SQLAlchemy models of \<open>api/v1/models\<close> as data, class by class, and what SQLAlchemy's declarative
  layer makes of them: the columns a class takes from \<open>BaseTableModel\<close>, the indexes and unique
  constraints that \<open>index=True\<close> and \<open>unique=True\<close> stand for, and the foreign keys. \<open>metadata_table\<close> is
  the table of \<open>Base.metadata\<close> for a class.
\<close>

section \<open>Declarations\<close>

datatype server_default = ServerNow | ServerText string

text \<open>A scalar \<open>default=\<close> or a callable one; these are applied by the ORM when it inserts.\<close>

datatype client_default = ClientText string | ClientBool bool | ClientUuid4

text \<open>The annotations: \<open>Mapped[T]\<close> and \<open>Mapped[Optional[T]]\<close> on columns, \<open>Mapped["C"]\<close>,
  \<open>Mapped[Optional["C"]]\<close> and \<open>Mapped[list["C"]]\<close> on relationships.\<close>

datatype py_type = PyUUID | PyStr | PyInt | PyDecimal | PyBool | PyDatetime | PyBytes

datatype annotation = Mapped py_type | MappedOptional py_type

datatype arity = ToOne | ToOptional | ToList

record mapped_col =
  m_name :: string
  m_annotation :: annotation
  m_type :: sql_type
  m_nullable :: bool
  m_primary :: bool
  m_unique :: bool
  m_index :: bool
  m_default :: "client_default option"
  m_server_default :: "server_default option"
  m_onupdate_now :: bool
  m_fk :: "(string option \<times> string \<times> on_delete) option"

text \<open>\<open>r_foreign_keys\<close> is the class and the column that \<open>foreign_keys=\<close> names.\<close>

record relation =
  r_attr :: string
  r_arity :: arity
  r_target :: string
  r_back_populates :: "string option"
  r_delete_orphan :: bool
  r_foreign_keys :: "(string \<times> string) option"
  r_uselist :: "bool option"

record model =
  md_class :: string
  md_table :: string
  md_base :: bool
  md_checks :: "(string \<times> cond) list"
  md_uniques :: "(string option \<times> string list) list"
  md_indexes :: "index list"
  md_columns :: "mapped_col list"
  md_relations :: "relation list"

definition mcol :: "string \<Rightarrow> annotation \<Rightarrow> sql_type \<Rightarrow> mapped_col" where
  "mcol n a ty = \<lparr>m_name = n, m_annotation = a, m_type = ty, m_nullable = False, m_primary = False, m_unique = False,
     m_index = False, m_default = None, m_server_default = None, m_onupdate_now = False, m_fk = None\<rparr>"

definition mcol_opt :: "string \<Rightarrow> annotation \<Rightarrow> sql_type \<Rightarrow> mapped_col" where
  "mcol_opt n a ty = (mcol n a ty)\<lparr>m_nullable := True\<rparr>"

definition references_to :: "string \<Rightarrow> on_delete \<Rightarrow> mapped_col \<Rightarrow> mapped_col" where
  "references_to t d c = c\<lparr>m_fk := Some (None, t, d)\<rparr>"

definition with_index :: "mapped_col \<Rightarrow> mapped_col" where
  "with_index c = c\<lparr>m_index := True\<rparr>"

definition with_unique :: "mapped_col \<Rightarrow> mapped_col" where
  "with_unique c = c\<lparr>m_unique := True\<rparr>"

definition with_status :: "string \<Rightarrow> mapped_col \<Rightarrow> mapped_col" where
  "with_status s c = c\<lparr>m_default := Some (ClientText s), m_server_default := Some (ServerText s)\<rparr>"

definition with_false :: "mapped_col \<Rightarrow> mapped_col" where
  "with_false c = c\<lparr>m_default := Some (ClientBool False), m_server_default := Some (ServerText ''false'')\<rparr>"

definition relates :: "string \<Rightarrow> arity \<Rightarrow> string \<Rightarrow> string \<Rightarrow> relation" where
  "relates a n t b = \<lparr>r_attr = a, r_arity = n, r_target = t, r_back_populates = Some b, r_delete_orphan = False,
     r_foreign_keys = None, r_uselist = None\<rparr>"

definition owns :: "string \<Rightarrow> arity \<Rightarrow> string \<Rightarrow> string \<Rightarrow> relation" where
  "owns a n t b = \<lparr>r_attr = a, r_arity = n, r_target = t, r_back_populates = Some b, r_delete_orphan = True,
     r_foreign_keys = None, r_uselist = None\<rparr>"

definition one_way :: "string \<Rightarrow> arity \<Rightarrow> string \<Rightarrow> relation" where
  "one_way a n t = \<lparr>r_attr = a, r_arity = n, r_target = t, r_back_populates = None, r_delete_orphan = False,
     r_foreign_keys = None, r_uselist = None\<rparr>"

definition on_column :: "string \<Rightarrow> string \<Rightarrow> relation \<Rightarrow> relation" where
  "on_column cls c r = r\<lparr>r_foreign_keys := Some (cls, c)\<rparr>"

section \<open>\<open>BaseTableModel\<close> and the status classes\<close>

definition uuid_key :: mapped_col where
  "uuid_key = (mcol ''id'' (Mapped PyUUID) UUID)\<lparr>m_primary := True, m_default := Some ClientUuid4\<rparr>"

definition created_at :: mapped_col where
  "created_at = (mcol ''created_at'' (Mapped PyDatetime) TimestampTZ)\<lparr>m_server_default := Some ServerNow\<rparr>"

definition base_columns :: "mapped_col list" where
  "base_columns = [uuid_key, created_at,
     (mcol ''updated_at'' (Mapped PyDatetime) TimestampTZ)\<lparr>m_server_default := Some ServerNow, m_onupdate_now := True\<rparr>]"

definition user_roles :: "string list" where
  "user_roles = [''admin'', ''organizer'', ''candidate'']"

definition contest_statuses :: "string list" where
  "contest_statuses = [''draft'', ''active'', ''closed'']"

definition candidate_statuses :: "string list" where
  "candidate_statuses = [''pending_approval'', ''approved'', ''disqualified'']"

definition subaccount_statuses :: "string list" where
  "subaccount_statuses = [''pending'', ''verified'']"

definition transaction_statuses :: "string list" where
  "transaction_statuses = [''pending'', ''success'', ''failed'']"

definition settlement_statuses :: "string list" where
  "settlement_statuses = [''held'', ''released'', ''reversed'']"

section \<open>The models\<close>

definition organization_model :: model where
  "organization_model = \<lparr>md_class = ''Organization'', md_table = ''organizations'', md_base = True,
     md_checks = [(''ck_organizations_platform_fee_percent_range'', percent_range ''platform_fee_percent'')],
     md_uniques = [], md_indexes = [],
     md_columns =
       [mcol ''name'' (Mapped PyStr) (Varchar 255),
        mcol_opt ''contact_email'' (MappedOptional PyStr) (Varchar 320),
        mcol_opt ''contact_phone'' (MappedOptional PyStr) (Varchar 20),
        mcol_opt ''platform_fee_percent'' (MappedOptional PyDecimal) (Numeric 5 2),
        (mcol_opt ''created_by_user_id'' (MappedOptional PyUUID) UUID)
          \<lparr>m_fk := Some (Some ''fk_organizations_created_by_user_id_users'', ''users'', SetNull)\<rparr>],
     md_relations = [on_column ''User'' ''organization_id'' (relates ''users'' ToList ''User'' ''organization''),
       owns ''contests'' ToList ''Contest'' ''organization'']\<rparr>"

definition user_model :: model where
  "user_model = \<lparr>md_class = ''User'', md_table = ''users'', md_base = True,
     md_checks = [(''ck_users_role'', text_in ''role'' [''admin'', ''organizer'', ''candidate''])],
     md_uniques = [], md_indexes = [],
     md_columns =
       [with_unique (with_index (mcol ''email'' (Mapped PyStr) (Varchar 320))),
        mcol ''password_hash'' (Mapped PyStr) (Varchar 255),
        mcol ''role'' (Mapped PyStr) (Varchar 32),
        with_index (references_to ''organizations'' SetNull (mcol_opt ''organization_id'' (MappedOptional PyUUID) UUID))],
     md_relations = [on_column ''User'' ''organization_id'' (relates ''organization'' ToOptional ''Organization'' ''users''),
       on_column ''Candidate'' ''user_id'' (relates ''candidates'' ToList ''Candidate'' ''user'')]\<rparr>"

definition contest_model :: model where
  "contest_model = \<lparr>md_class = ''Contest'', md_table = ''contests'', md_base = True,
     md_checks = [(''ck_contests_status'', text_in ''status'' [''draft'', ''active'', ''closed'']),
       (''ck_contests_window'', CmpCol GT ''ends_at'' ''starts_at''),
       (''ck_contests_platform_fee_percent_range'', percent_range ''platform_fee_percent'')],
     md_uniques = [],
     md_indexes = [plain_index ''ix_contests_organization_status'' [''organization_id'', ''status'']],
     md_columns =
       [with_index (references_to ''organizations'' Cascade (mcol ''organization_id'' (Mapped PyUUID) UUID)),
        mcol ''name'' (Mapped PyStr) (Varchar 255),
        with_status ''draft'' (mcol ''status'' (Mapped PyStr) (Varchar 32)),
        with_false (mcol ''requires_matric_number'' (Mapped PyBool) BooleanT),
        with_false (mcol ''caps_votes_per_identity'' (Mapped PyBool) BooleanT),
        mcol_opt ''platform_fee_percent'' (MappedOptional PyDecimal) (Numeric 5 2),
        mcol ''starts_at'' (Mapped PyDatetime) TimestampTZ,
        mcol ''ends_at'' (Mapped PyDatetime) TimestampTZ],
     md_relations = [relates ''organization'' ToOne ''Organization'' ''contests'',
       owns ''categories'' ToList ''Category'' ''contest'',
       owns ''vote_packages'' ToList ''VotePackage'' ''contest'']\<rparr>"

definition category_model :: model where
  "category_model = \<lparr>md_class = ''Category'', md_table = ''categories'', md_base = True, md_checks = [],
     md_uniques = [(Some ''uq_categories_contest_name'', [''contest_id'', ''name''])], md_indexes = [],
     md_columns =
       [with_index (references_to ''contests'' Cascade (mcol ''contest_id'' (Mapped PyUUID) UUID)),
        mcol ''name'' (Mapped PyStr) (Varchar 255)],
     md_relations = [relates ''contest'' ToOne ''Contest'' ''categories'',
       owns ''candidates'' ToList ''Candidate'' ''category'']\<rparr>"

definition candidate_model :: model where
  "candidate_model = \<lparr>md_class = ''Candidate'', md_table = ''candidates'', md_base = True,
     md_checks = [(''ck_candidates_status'', text_in ''status'' [''pending_approval'', ''approved'', ''disqualified'']),
       (''ck_candidates_disqualified_has_reason'',
        OrC (Cmp NE ''status'' (VText (lit ''disqualified''))) (IsNotNull ''disqualification_reason''))],
     md_uniques = [],
     md_indexes = [plain_index ''ix_candidates_category_status'' [''category_id'', ''status'']],
     md_columns =
       [with_index (references_to ''categories'' Cascade (mcol ''category_id'' (Mapped PyUUID) UUID)),
        with_index (references_to ''users'' SetNull (mcol_opt ''user_id'' (MappedOptional PyUUID) UUID)),
        mcol ''name'' (Mapped PyStr) (Varchar 255),
        with_unique (with_index (mcol ''slug'' (Mapped PyStr) (Varchar 255))),
        mcol_opt ''photo_url'' (MappedOptional PyStr) TextT, mcol_opt ''bio'' (MappedOptional PyStr) TextT,
        mcol_opt ''matric_number'' (MappedOptional PyStr) (Varchar 64),
        mcol_opt ''poster_url'' (MappedOptional PyStr) TextT,
        with_status ''pending_approval'' (mcol ''status'' (Mapped PyStr) (Varchar 32)),
        mcol_opt ''disqualification_reason'' (MappedOptional PyStr) TextT],
     md_relations = [relates ''category'' ToOne ''Category'' ''candidates'',
       on_column ''Candidate'' ''user_id'' (relates ''user'' ToOptional ''User'' ''candidates''),
       (owns ''subaccount'' ToOptional ''Subaccount'' ''candidate'')\<lparr>r_uselist := Some False\<rparr>,
       relates ''transactions'' ToList ''Transaction'' ''candidate'',
       relates ''votes'' ToList ''Vote'' ''candidate'',
       relates ''settlements'' ToList ''Settlement'' ''candidate'']\<rparr>"

definition vote_package_model :: model where
  "vote_package_model = \<lparr>md_class = ''VotePackage'', md_table = ''vote_packages'', md_base = True,
     md_checks = [(''ck_vote_packages_amount_positive'', Cmp GT ''amount_kobo'' (VInt 0)),
       (''ck_vote_packages_votes_positive'', Cmp GT ''vote_count'' (VInt 0))],
     md_uniques = [], md_indexes = [],
     md_columns =
       [with_index (references_to ''contests'' Cascade (mcol ''contest_id'' (Mapped PyUUID) UUID)),
        mcol ''amount_kobo'' (Mapped PyInt) BigInt, mcol ''vote_count'' (Mapped PyInt) IntegerT,
        mcol ''label'' (Mapped PyStr) (Varchar 64)],
     md_relations = [relates ''contest'' ToOne ''Contest'' ''vote_packages'',
       relates ''transactions'' ToList ''Transaction'' ''vote_package'']\<rparr>"

definition subaccount_model :: model where
  "subaccount_model = \<lparr>md_class = ''Subaccount'', md_table = ''subaccounts'', md_base = True,
     md_checks = [(''ck_subaccounts_status'', text_in ''status'' [''pending'', ''verified'']),
       (''ck_subaccounts_verified_has_code'',
        OrC (Cmp NE ''status'' (VText (lit ''verified''))) (IsNotNull ''subaccount_code'')),
       (''ck_subaccounts_percentage_charge_range'', percent_range ''percentage_charge'')],
     md_uniques = [], md_indexes = [],
     md_columns =
       [with_unique (references_to ''candidates'' Cascade (mcol ''candidate_id'' (Mapped PyUUID) UUID)),
        mcol ''bank_code'' (Mapped PyStr) (Varchar 16),
        mcol ''account_number_encrypted'' (Mapped PyBytes) Bytea,
        mcol_opt ''account_name'' (MappedOptional PyStr) (Varchar 255),
        with_unique (mcol_opt ''subaccount_code'' (MappedOptional PyStr) (Varchar 64)),
        mcol_opt ''percentage_charge'' (MappedOptional PyDecimal) (Numeric 5 2),
        with_status ''manual'' (mcol ''settlement_schedule'' (Mapped PyStr) (Varchar 16)),
        with_status ''pending'' (mcol ''status'' (Mapped PyStr) (Varchar 32))],
     md_relations = [relates ''candidate'' ToOne ''Candidate'' ''subaccount'']\<rparr>"

definition transaction_model :: model where
  "transaction_model = \<lparr>md_class = ''Transaction'', md_table = ''transactions'', md_base = True,
     md_checks = [(''ck_transactions_status'', text_in ''status'' [''pending'', ''success'', ''failed'']),
       (''ck_transactions_amount_positive'', Cmp GT ''amount_kobo'' (VInt 0)),
       (''ck_transactions_success_is_confirmed'',
        OrC (Cmp NE ''status'' (VText (lit ''success''))) (IsNotNull ''confirmed_at'')),
       (''ck_transactions_cap_needs_matric_number'',
        OrC (NotC (BoolCol ''enforce_identity_cap'')) (IsNotNull ''voter_matric_number''))],
     md_uniques = [],
     md_indexes =
       [\<lparr>ix_name = ''uq_transactions_identity_cap'', ix_cols = [''contest_id'', ''voter_matric_number''],
          ix_unique = True,
          ix_where = Some (AndC (BoolCol ''enforce_identity_cap'') (text_in ''status'' [''pending'', ''success'']))\<rparr>,
        plain_index ''ix_transactions_candidate_status'' [''candidate_id'', ''status''],
        plain_index ''ix_transactions_contest_status'' [''contest_id'', ''status'']],
     md_columns =
       [with_index (references_to ''candidates'' Restrict (mcol ''candidate_id'' (Mapped PyUUID) UUID)),
        with_index (references_to ''vote_packages'' Restrict (mcol ''vote_package_id'' (Mapped PyUUID) UUID)),
        with_index (references_to ''contests'' Restrict (mcol ''contest_id'' (Mapped PyUUID) UUID)),
        with_unique (with_index (mcol ''paystack_reference'' (Mapped PyStr) (Varchar 100))),
        mcol ''amount_kobo'' (Mapped PyInt) BigInt,
        with_status ''pending'' (mcol ''status'' (Mapped PyStr) (Varchar 32)),
        mcol_opt ''voter_matric_number'' (MappedOptional PyStr) (Varchar 64),
        mcol_opt ''voter_phone'' (MappedOptional PyStr) (Varchar 20),
        with_false (mcol ''enforce_identity_cap'' (Mapped PyBool) BooleanT),
        mcol_opt ''confirmed_at'' (MappedOptional PyDatetime) TimestampTZ],
     md_relations = [relates ''candidate'' ToOne ''Candidate'' ''transactions'',
       relates ''vote_package'' ToOne ''VotePackage'' ''transactions'', one_way ''contest'' ToOne ''Contest'',
       relates ''votes'' ToList ''Vote'' ''transaction'']\<rparr>"

definition vote_model :: model where
  "vote_model = \<lparr>md_class = ''Vote'', md_table = ''votes'', md_base = False, md_checks = [],
     md_uniques = [],
     md_indexes = [plain_index ''ix_votes_candidate_created'' [''candidate_id'', ''created_at'']],
     md_columns =
       [uuid_key,
        with_index (references_to ''transactions'' Restrict (mcol ''transaction_id'' (Mapped PyUUID) UUID)),
        references_to ''candidates'' Restrict (mcol ''candidate_id'' (Mapped PyUUID) UUID), created_at],
     md_relations = [relates ''transaction'' ToOne ''Transaction'' ''votes'',
       relates ''candidate'' ToOne ''Candidate'' ''votes'']\<rparr>"

definition settlement_model :: model where
  "settlement_model = \<lparr>md_class = ''Settlement'', md_table = ''settlements'', md_base = True,
     md_checks = [(''ck_settlements_status'', text_in ''status'' [''held'', ''released'', ''reversed'']),
       (''ck_settlements_amount_non_negative'', Cmp GE ''amount_kobo'' (VInt 0)),
       (''ck_settlements_period'', CmpCol GE ''period_end'' ''period_start''),
       (''ck_settlements_action_is_timestamped'',
        OrC (Cmp EQ ''status'' (VText (lit ''held''))) (IsNotNull ''actioned_at''))],
     md_uniques = [],
     md_indexes = [plain_index ''ix_settlements_candidate_status'' [''candidate_id'', ''status'']],
     md_columns =
       [with_index (references_to ''candidates'' Restrict (mcol ''candidate_id'' (Mapped PyUUID) UUID)),
        mcol ''period_start'' (Mapped PyDatetime) TimestampTZ,
        mcol ''period_end'' (Mapped PyDatetime) TimestampTZ, mcol ''amount_kobo'' (Mapped PyInt) BigInt,
        with_status ''held'' (mcol ''status'' (Mapped PyStr) (Varchar 32)),
        references_to ''users'' SetNull (mcol_opt ''actioned_by_user_id'' (MappedOptional PyUUID) UUID),
        mcol_opt ''actioned_at'' (MappedOptional PyDatetime) TimestampTZ],
     md_relations = [relates ''candidate'' ToOne ''Candidate'' ''settlements'',
       on_column ''Settlement'' ''actioned_by_user_id'' (one_way ''actioned_by'' ToOptional ''User'')]\<rparr>"

definition registry :: "model list" where
  "registry = [organization_model, user_model, contest_model, category_model, candidate_model,
     vote_package_model, subaccount_model, transaction_model, vote_model, settlement_model]"

section \<open>The metadata that the declarative layer builds\<close>

definition all_columns :: "model \<Rightarrow> mapped_col list" where
  "all_columns m = (if md_base m then base_columns else []) @ md_columns m"

text \<open>PostgreSQL reads a quoted default with the column's type: \<open>'false'\<close> is a boolean there.\<close>

definition server_value :: "sql_type \<Rightarrow> server_default \<Rightarrow> sql_default" where
  "server_value ty d = (case d of ServerNow \<Rightarrow> DefaultNow
     | ServerText s \<Rightarrow> DefaultLit (if ty = BooleanT then VBool (s = ''true'') else VText (lit s)))"

definition table_column :: "mapped_col \<Rightarrow> column" where
  "table_column c = \<lparr>cname = m_name c, ctype = m_type c, cnullable = m_nullable c,
     cdefault = map_option (server_value (m_type c)) (m_server_default c)\<rparr>"

definition column_fk :: "mapped_col \<Rightarrow> foreign_key list" where
  "column_fk c = (case m_fk c of None \<Rightarrow> []
     | Some (n, t, d) \<Rightarrow> [\<lparr>fk_name = n, fk_col = m_name c, fk_target = t, fk_target_col = ''id'', fk_on_delete = d\<rparr>])"

text \<open>\<open>index=True\<close> makes the index \<open>ix_<table>_<column>\<close>, unique when \<open>unique=True\<close> is there too; \<open>unique=True\<close>
  alone makes a unique constraint.\<close>

definition column_index :: "string \<Rightarrow> mapped_col \<Rightarrow> index list" where
  "column_index t c = (if m_index c
     then [\<lparr>ix_name = ''ix_'' @ t @ ''_'' @ m_name c, ix_cols = [m_name c], ix_unique = m_unique c, ix_where = None\<rparr>]
     else [])"

definition column_unique :: "mapped_col \<Rightarrow> (string option \<times> string list) list" where
  "column_unique c = (if m_unique c \<and> \<not> m_index c then [(None, [m_name c])] else [])"

definition metadata_table :: "model \<Rightarrow> table" where
  "metadata_table m = \<lparr>tname = md_table m,
     tcolumns = map table_column (all_columns m),
     tchecks = md_checks m,
     tforeign_keys = concat (map column_fk (all_columns m)),
     tprimary = map m_name (filter m_primary (all_columns m)),
     tuniques = md_uniques m @ concat (map column_unique (all_columns m)),
     tindexes = md_indexes m @ concat (map (column_index (md_table m)) (all_columns m))\<rparr>"

definition metadata :: schema where
  "metadata = \<lparr>s_tables = map metadata_table registry, s_functions = [], s_triggers = []\<rparr>"

text \<open>The value the ORM puts into a column that an insert leaves out, where it has a scalar default.\<close>

definition client_value :: "client_default \<Rightarrow> sval option" where
  "client_value d = (case d of ClientText s \<Rightarrow> Some (VText (lit s)) | ClientBool b \<Rightarrow> Some (VBool b)
     | ClientUuid4 \<Rightarrow> None)"

end
