(* ===== verification/Engine.thy ===== *)
theory Engine
  imports Schema
begin

text \<open>
  What a database with a given schema does with \<open>INSERT\<close>, \<open>UPDATE\<close>, \<open>DELETE\<close> and \<open>TRUNCATE\<close>. The
  schema is the program here; this theory is the meaning of the SQL it is written in. A statement
  computes its effect (defaults, coercion to the column types, triggers, \<open>ON DELETE\<close> actions) and
  is accepted only if the result satisfies every constraint the schema declares; a statement that
  fails leaves the database as it was. Uniqueness and foreign keys are judged on the result of the
  statement, which admits at least the statements that a check row by row would.
\<close>

type_synonym db = "string \<Rightarrow> row list"

definition empty_db :: db where
  "empty_db = (\<lambda>_. [])"

section \<open>Constraints\<close>

text \<open>A row: every column holds a value of its type, required columns hold one, no check is false.\<close>

definition row_ok :: "table \<Rightarrow> row \<Rightarrow> bool" where
  "row_ok t r \<longleftrightarrow>
     list_all (\<lambda>c. has_type (ctype c) (r (cname c)) \<and> (cnullable c \<or> r (cname c) \<noteq> Null)) (tcolumns t)
     \<and> list_all (\<lambda>(_, c). eval c r \<noteq> FF) (tchecks t)"

text \<open>The first constraint a row breaks, in the order PostgreSQL reports them.\<close>

definition row_error :: "table \<Rightarrow> row \<Rightarrow> sql_error option" where
  "row_error t r =
     (case List.find (\<lambda>c. \<not> has_type (ctype c) (r (cname c))) (tcolumns t) of
        Some c \<Rightarrow> Some (DatatypeMismatch (cname c))
      | None \<Rightarrow>
          (case List.find (\<lambda>c. \<not> cnullable c \<and> r (cname c) = Null) (tcolumns t) of
             Some c \<Rightarrow> Some (NotNullViolation (tname t) (cname c))
           | None \<Rightarrow> (case List.find (\<lambda>(_, c). eval c r = FF) (tchecks t) of
                         Some (n, _) \<Rightarrow> Some (CheckViolation n)
                       | None \<Rightarrow> None)))"

text \<open>The unique keys of a table: primary key, unique constraints, unique indexes with their predicate.\<close>

definition unique_keys :: "table \<Rightarrow> (string list \<times> cond option) list" where
  "unique_keys t = (tprimary t, None) # map (\<lambda>u. (snd u, None)) (tuniques t)
     @ map (\<lambda>i. (ix_cols i, ix_where i)) (filter ix_unique (tindexes t))"

text \<open>A row is in a unique index when the predicate is true and no key column is \<open>NULL\<close>.\<close>

definition indexed :: "string list \<times> cond option \<Rightarrow> row \<Rightarrow> bool" where
  "indexed k r \<longleftrightarrow> (case snd k of None \<Rightarrow> True | Some p \<Rightarrow> eval p r = TT) \<and> list_all (\<lambda>c. r c \<noteq> Null) (fst k)"

definition key_of :: "string list \<times> cond option \<Rightarrow> row \<Rightarrow> sval list" where
  "key_of k r = map r (fst k)"

definition unique_ok :: "string list \<times> cond option \<Rightarrow> row list \<Rightarrow> bool" where
  "unique_ok k rs \<longleftrightarrow> distinct (map (key_of k) (filter (indexed k) rs))"

definition fk_ok :: "db \<Rightarrow> foreign_key \<Rightarrow> row \<Rightarrow> bool" where
  "fk_ok db fk r \<longleftrightarrow> r (fk_col fk) = Null
     \<or> list_ex (\<lambda>p. p (fk_target_col fk) = r (fk_col fk)) (db (fk_target fk))"

definition table_ok :: "db \<Rightarrow> table \<Rightarrow> bool" where
  "table_ok db t \<longleftrightarrow> list_all (row_ok t) (db (tname t))
     \<and> list_all (\<lambda>k. unique_ok k (db (tname t))) (unique_keys t)
     \<and> list_all (\<lambda>fk. list_all (fk_ok db fk) (db (tname t))) (tforeign_keys t)"

definition db_ok :: "schema \<Rightarrow> db \<Rightarrow> bool" where
  "db_ok sch db \<longleftrightarrow> list_all (table_ok db) (s_tables sch)"

text \<open>The first violated constraint of a table, and of the database.\<close>

definition table_error :: "db \<Rightarrow> table \<Rightarrow> sql_error option" where
  "table_error db t =
     (case List.find (\<lambda>r. row_error t r \<noteq> None) (db (tname t)) of
        Some r \<Rightarrow> row_error t r
      | None \<Rightarrow>
          (case List.find (\<lambda>k. \<not> unique_ok k (db (tname t))) (unique_keys t) of
             Some k \<Rightarrow> Some (UniqueViolation (tname t) (fst k))
           | None \<Rightarrow>
               (case List.find (\<lambda>fk. \<not> list_all (fk_ok db fk) (db (tname t))) (tforeign_keys t) of
                  Some fk \<Rightarrow> Some (ForeignKeyViolation (tname t) (fk_col fk))
                | None \<Rightarrow> None)))"

definition db_error :: "schema \<Rightarrow> db \<Rightarrow> sql_error option" where
  "db_error sch db = (case List.find (\<lambda>t. table_error db t \<noteq> None) (s_tables sch) of
     Some t \<Rightarrow> table_error db t | None \<Rightarrow> None)"

lemma find_case_None:
  assumes "\<And>x. P x \<Longrightarrow> f x \<noteq> None"
  shows "(case List.find P xs of None \<Rightarrow> y | Some x \<Rightarrow> f x) = None \<longleftrightarrow> (\<forall>x \<in> set xs. \<not> P x) \<and> y = None"
  using assms by (induction xs) auto

lemma row_error_None: "row_error t r = None \<longleftrightarrow> row_ok t r"
  by (simp add: row_error_def find_case_None case_prod_beta) (auto simp: row_ok_def list_all_iff)

lemma table_error_None: "table_error db t = None \<longleftrightarrow> table_ok db t"
  by (simp add: table_error_def find_case_None) (auto simp: table_ok_def row_error_None list_all_iff)

lemma db_error_None: "db_error sch db = None \<longleftrightarrow> db_ok sch db"
  by (simp add: db_error_def find_case_None) (auto simp: db_ok_def table_error_None list_all_iff)

section \<open>Rows of a statement\<close>

definition default_value :: "int \<Rightarrow> sql_default option \<Rightarrow> sval" where
  "default_value now d = (case d of None \<Rightarrow> Null | Some DefaultNow \<Rightarrow> VTime now | Some (DefaultLit v) \<Rightarrow> v)"

text \<open>Values for some columns, coerced to the column types, stored over a row.\<close>

definition assign :: "table \<Rightarrow> (string \<times> sval) list \<Rightarrow> row \<Rightarrow> (sql_error, row) result" where
  "assign t vals r =
     res_fold (\<lambda>(c, v) u.
        case List.find (\<lambda>k. cname k = c) (tcolumns t) of
          None \<Rightarrow> Inl (UndefinedColumn (tname t) c)
        | Some k \<Rightarrow> res_bind (coerce c (ctype k) v) (\<lambda>v'. Inr (u(c := v'))))
       vals r"

definition default_row :: "table \<Rightarrow> int \<Rightarrow> row" where
  "default_row t now = (\<lambda>c. case List.find (\<lambda>k. cname k = c) (tcolumns t) of
     None \<Rightarrow> Null | Some k \<Rightarrow> default_value now (cdefault k))"

section \<open>Triggers\<close>

definition has_trigger :: "schema \<Rightarrow> string \<Rightarrow> tg_event \<Rightarrow> tg_level \<Rightarrow> bool" where
  "has_trigger sch n ev lv \<longleftrightarrow>
     list_ex (\<lambda>tg. tg_table tg = n \<and> ev \<in> set (tg_events tg) \<and> tg_level tg = lv) (s_triggers sch)"

text \<open>All triggers of this schema raise. Row triggers fire only when the statement touches a row.\<close>

definition fire_row :: "schema \<Rightarrow> string \<Rightarrow> tg_event \<Rightarrow> row list \<Rightarrow> (sql_error, unit) result" where
  "fire_row sch n ev rs = res_guard (rs = [] \<or> \<not> has_trigger sch n ev EachRow) (TriggerRaised n)"

section \<open>Deletion and its \<open>ON DELETE\<close> actions\<close>

text \<open>The foreign keys that point at a table, each with the table it belongs to.\<close>

definition referencing :: "schema \<Rightarrow> string \<Rightarrow> (string \<times> foreign_key) list" where
  "referencing sch n = concat (map (\<lambda>t. map (Pair (tname t)) (filter (\<lambda>fk. fk_target fk = n) (tforeign_keys t)))
     (s_tables sch))"

definition points_to :: "foreign_key \<Rightarrow> row list \<Rightarrow> row \<Rightarrow> bool" where
  "points_to fk gone r \<longleftrightarrow> r (fk_col fk) \<noteq> Null \<and> list_ex (\<lambda>p. p (fk_target_col fk) = r (fk_col fk)) gone"

text \<open>What one foreign key does when the rows \<open>gone\<close> of its target go; \<open>del\<close> deletes the rows of a child.\<close>

definition fk_action ::
  "(string \<Rightarrow> (row \<Rightarrow> bool) \<Rightarrow> db \<Rightarrow> (sql_error, db) result) \<Rightarrow> schema \<Rightarrow> row list \<Rightarrow>
    string \<times> foreign_key \<Rightarrow> db \<Rightarrow> (sql_error, db) result" where
  "fk_action del sch gone cf db =
     (let child = fst cf; fk = snd cf; hit = filter (points_to fk gone) (db child) in
      case fk_on_delete fk of
        Restrict \<Rightarrow> if hit = [] then Inr db else Inl (RestrictViolation child (fk_col fk))
      | SetNull \<Rightarrow>
          res_bind (fire_row sch child OnUpdate hit) (\<lambda>_.
            Inr (db(child := map (\<lambda>r. if points_to fk gone r then r(fk_col fk := Null) else r) (db child))))
      | Cascade \<Rightarrow> del child (points_to fk gone) db)"

text \<open>
  Deleting the rows of \<open>n\<close> that satisfy \<open>P\<close>: their row triggers fire, they go, and each foreign key
  that points at them acts on the rows that hold it. The first argument bounds the depth of the
  cascade; \<open>Ledger\<close> shows that the depth of \<open>cascade_depth\<close> is enough for the schema of this program.
\<close>

primrec delete_rows :: "nat \<Rightarrow> schema \<Rightarrow> string \<Rightarrow> (row \<Rightarrow> bool) \<Rightarrow> db \<Rightarrow> (sql_error, db) result" where
  "delete_rows 0 sch n P db = Inl CascadeTooDeep"
| "delete_rows (Suc k) sch n P db =
     res_bind (fire_row sch n OnDelete (filter P (db n))) (\<lambda>_.
       if filter P (db n) = [] then Inr db
       else res_fold (fk_action (delete_rows k sch) sch (filter P (db n))) (referencing sch n)
              (db(n := filter (\<lambda>r. \<not> P r) (db n))))"

section \<open>Truncation\<close>

text \<open>\<open>TRUNCATE ... CASCADE\<close> takes every table that points at a truncated one, whatever its \<open>ON DELETE\<close>.\<close>

primrec truncate_set :: "nat \<Rightarrow> schema \<Rightarrow> string list \<Rightarrow> string list" where
  "truncate_set 0 sch ns = ns"
| "truncate_set (Suc k) sch ns =
     truncate_set k sch (remdups (ns @ concat (map (\<lambda>n. map fst (referencing sch n)) ns)))"

definition truncate :: "schema \<Rightarrow> string \<Rightarrow> bool \<Rightarrow> db \<Rightarrow> (sql_error, db) result" where
  "truncate sch n cascade db =
     (let ns = (if cascade then truncate_set (length (s_tables sch)) sch [n] else [n]) in
      if \<not> cascade \<and> list_ex (\<lambda>(c, _). c \<noteq> n) (referencing sch n) then Inl (TruncateReferenced n)
      else if list_ex (\<lambda>m. has_trigger sch m OnTruncate EachStatement) ns then Inl (TriggerRaised n)
      else Inr (\<lambda>m. if m \<in> set ns then [] else db m))"

section \<open>Statements\<close>

text \<open>Conditions and assignments of \<open>UPDATE\<close> and \<open>DELETE\<close> may be any function of the row.\<close>

datatype stmt =
    Insert string "(string \<times> sval) list"
  | Update string "row \<Rightarrow> bool" "row \<Rightarrow> (string \<times> sval) list"
  | Delete string "row \<Rightarrow> bool"
  | Truncate string bool

definition cascade_depth :: "schema \<Rightarrow> nat" where
  "cascade_depth sch = length (s_tables sch)"

fun apply_stmt :: "schema \<Rightarrow> int \<Rightarrow> stmt \<Rightarrow> db \<Rightarrow> (sql_error, db) result" where
  "apply_stmt sch now (Insert n vals) db =
     (case find_table sch n of None \<Rightarrow> Inl (UndefinedTable n)
      | Some t \<Rightarrow> res_bind (assign t vals (default_row t now)) (\<lambda>r. Inr (db(n := db n @ [r]))))"
| "apply_stmt sch now (Update n P f) db =
     (case find_table sch n of None \<Rightarrow> Inl (UndefinedTable n)
      | Some t \<Rightarrow>
          res_bind (fire_row sch n OnUpdate (filter P (db n))) (\<lambda>_.
          res_bind (res_map (\<lambda>r. if P r then assign t (f r) r else Inr r) (db n)) (\<lambda>rs.
            Inr (db(n := rs)))))"
| "apply_stmt sch now (Delete n P) db =
     (case find_table sch n of None \<Rightarrow> Inl (UndefinedTable n)
      | Some _ \<Rightarrow> delete_rows (cascade_depth sch) sch n P db)"
| "apply_stmt sch now (Truncate n cascade) db =
     (case find_table sch n of None \<Rightarrow> Inl (UndefinedTable n)
      | Some _ \<Rightarrow> truncate sch n cascade db)"

definition exec :: "schema \<Rightarrow> int \<Rightarrow> stmt \<Rightarrow> db \<Rightarrow> (sql_error, db) result" where
  "exec sch now s db = res_bind (apply_stmt sch now s db) (\<lambda>db'.
     case db_error sch db' of None \<Rightarrow> Inr db' | Some e \<Rightarrow> Inl e)"

text \<open>A history is a list of statements with their times; one that fails changes nothing.\<close>

definition db_step :: "schema \<Rightarrow> db \<Rightarrow> int \<times> stmt \<Rightarrow> db option" where
  "db_step sch db e = Some (case exec sch (fst e) (snd e) db of Inl _ \<Rightarrow> db | Inr db' \<Rightarrow> db')"

definition history :: "schema \<Rightarrow> db \<Rightarrow> (int \<times> stmt) list \<Rightarrow> db" where
  "history sch db es = the (run (db_step sch) db es)"

end
