(* ===== verification/EngineInv.thy ===== *)
theory EngineInv
  imports Engine
begin

text \<open>
  What the engine keeps, for any schema: a statement that is accepted leaves a database in which
  every constraint holds; an insertion is accepted exactly when the new row fits the rows that are
  there; a table with row and statement triggers only grows; a table none of whose foreign keys
  cascades keeps its rows when rows of other tables are deleted; and the depth given to a deletion
  does not matter once it exceeds the length of every cascade.
\<close>

text \<open>No constraint reports the depth of a cascade.\<close>

lemma db_error_not_deep: "db_error sch db \<noteq> Some CascadeTooDeep"
proof -
  have row: "row_error t r \<noteq> Some CascadeTooDeep" for t r
    by (auto simp: row_error_def split: option.splits)
  have "table_error db t \<noteq> Some CascadeTooDeep" for t
    using row by (auto simp: table_error_def split: option.splits)
  then show ?thesis by (auto simp: db_error_def split: option.splits)
qed

section \<open>Accepted statements\<close>

lemma exec_Inr: "exec sch now s db = Inr db' \<longleftrightarrow> apply_stmt sch now s db = Inr db' \<and> db_ok sch db'"
  by (auto simp: exec_def db_error_None[symmetric] split: option.splits)

lemma db_step_accepted:
  "db_step sch db e = Some db' \<longleftrightarrow>
     (case exec sch (fst e) (snd e) db of Inl _ \<Rightarrow> db' = db | Inr d \<Rightarrow> db' = d)"
  by (auto simp: db_step_def split: sum.splits)

interpretation db_machine: step_invariant "db_step sch" "db_ok sch" for sch
  by unfold_locales (auto simp: db_step_accepted exec_Inr split: sum.splits)

lemma run_db_step: "\<exists>db'. run (db_step sch) db es = Some db'"
  by (induction es arbitrary: db) (auto simp: db_step_def)

lemma run_history: "run (db_step sch) db es = Some (history sch db es)"
  using run_db_step[of sch db es] by (auto simp: history_def)

lemma history_Nil [simp]: "history sch db [] = db"
  by (simp add: history_def)

lemma history_Cons: "history sch db (e # es) = history sch (case exec sch (fst e) (snd e) db of Inl _ \<Rightarrow> db | Inr d \<Rightarrow> d) es"
  by (simp add: history_def db_step_def)

lemma history_append: "history sch db (es @ fs) = history sch (history sch db es) fs"
  using run_history[of sch db "es @ fs"] by (simp add: run_append run_history)

lemma history_ok: "db_ok sch db \<Longrightarrow> db_ok sch (history sch db es)"
  by (rule db_machine.run_inv[OF _ run_history])

lemma empty_db_ok: "db_ok sch empty_db"
  by (auto simp: db_ok_def table_ok_def empty_db_def unique_ok_def list_all_iff)

lemma reachable_ok: "db_ok sch (history sch empty_db es)"
  by (rule history_ok[OF empty_db_ok])

section \<open>Reading a database in which every constraint holds\<close>

lemma db_okD: "db_ok sch db \<Longrightarrow> t \<in> set (s_tables sch) \<Longrightarrow> table_ok db t"
  by (simp add: db_ok_def list_all_iff)

lemma table_ok_row: "table_ok db t \<Longrightarrow> r \<in> set (db (tname t)) \<Longrightarrow> row_ok t r"
  by (simp add: table_ok_def list_all_iff)

lemma table_ok_unique: "table_ok db t \<Longrightarrow> k \<in> set (unique_keys t) \<Longrightarrow> unique_ok k (db (tname t))"
  by (simp add: table_ok_def list_all_iff)

lemma table_ok_fk:
  "table_ok db t \<Longrightarrow> fk \<in> set (tforeign_keys t) \<Longrightarrow> r \<in> set (db (tname t)) \<Longrightarrow> fk_ok db fk r"
  by (simp add: table_ok_def list_all_iff)

lemma row_ok_column: "row_ok t r \<Longrightarrow> c \<in> set (tcolumns t) \<Longrightarrow> has_type (ctype c) (r (cname c))"
  by (simp add: row_ok_def list_all_iff)

lemma row_ok_required:
  "row_ok t r \<Longrightarrow> c \<in> set (tcolumns t) \<Longrightarrow> \<not> cnullable c \<Longrightarrow> r (cname c) \<noteq> Null"
  by (auto simp: row_ok_def list_all_iff)

lemma row_ok_check: "row_ok t r \<Longrightarrow> (n, c) \<in> set (tchecks t) \<Longrightarrow> eval c r \<noteq> FF"
  by (auto simp: row_ok_def list_all_iff)

text \<open>Rows of a unique key: two different positions hold different keys.\<close>

lemma unique_ok_snoc:
  "unique_ok k (rs @ [r]) \<longleftrightarrow> unique_ok k rs \<and>
     (indexed k r \<longrightarrow> (\<forall>u \<in> set rs. indexed k u \<longrightarrow> key_of k u \<noteq> key_of k r))"
  by (auto simp: unique_ok_def image_iff)

lemma unique_ok_count:
  assumes "unique_ok k rs" and "\<And>r. Q r \<Longrightarrow> indexed k r \<and> key_of k r = ks"
  shows "length (filter Q rs) \<le> 1"
  using assms(1)
proof (induction rs rule: rev_induct)
  case Nil
  then show ?case by simp
next
  case (snoc r rs)
  then have IH: "length (filter Q rs) \<le> 1" by (simp add: unique_ok_snoc)
  show ?case
  proof (cases "Q r")
    case True
    then have "\<forall>u \<in> set rs. \<not> Q u" using snoc.prems assms(2) by (metis unique_ok_snoc)
    then have "filter Q rs = []" by simp
    then show ?thesis using True by simp
  next
    case False
    then show ?thesis using IH by simp
  qed
qed

section \<open>Insertion\<close>

text \<open>What an insertion needs of the new row: its own constraints, new keys, existing targets.\<close>

definition row_fits :: "db \<Rightarrow> table \<Rightarrow> row \<Rightarrow> bool" where
  "row_fits db t r \<longleftrightarrow> row_ok t r
     \<and> list_all (\<lambda>k. indexed k r \<longrightarrow>
         list_all (\<lambda>u. indexed k u \<longrightarrow> key_of k u \<noteq> key_of k r) (db (tname t))) (unique_keys t)
     \<and> list_all (\<lambda>fk. fk_ok (db(tname t := db (tname t) @ [r])) fk r) (tforeign_keys t)"

lemma fk_ok_grow:
  "fk_ok db fk r \<Longrightarrow> fk_ok (db(n := db n @ rs)) fk r"
  by (auto simp: fk_ok_def list_ex_iff)

lemma table_ok_insert:
  assumes "table_ok db t"
  shows "table_ok (db(tname t := db (tname t) @ [r])) t \<longleftrightarrow> row_fits db t r"
proof -
  have "list_all (\<lambda>fk. list_all (fk_ok (db(tname t := db (tname t) @ [r])) fk) (db (tname t))) (tforeign_keys t)"
    using assms by (auto simp: table_ok_def list_all_iff intro: fk_ok_grow)
  then show ?thesis
    using assms by (auto simp: table_ok_def row_fits_def list_all_iff unique_ok_snoc)
qed

lemma table_ok_insert_other:
  "table_ok db t \<Longrightarrow> n \<noteq> tname t \<Longrightarrow> table_ok (db(n := db n @ [r])) t"
  by (auto simp: table_ok_def list_all_iff intro: fk_ok_grow)

text \<open>Table names identify tables.\<close>

definition names_distinct :: "schema \<Rightarrow> bool" where
  "names_distinct sch \<longleftrightarrow> distinct (map tname (s_tables sch))"

lemma find_table_Some:
  assumes "names_distinct sch"
  shows "find_table sch n = Some t \<longleftrightarrow> t \<in> set (s_tables sch) \<and> tname t = n"
proof
  assume "find_table sch n = Some t"
  then show "t \<in> set (s_tables sch) \<and> tname t = n"
    by (auto simp: find_table_def find_Some_iff)
next
  assume t: "t \<in> set (s_tables sch) \<and> tname t = n"
  then obtain u where u: "find_table sch n = Some u"
    by (cases "find_table sch n") (auto simp: find_table_def find_None_iff)
  then have "u \<in> set (s_tables sch)" "tname u = n"
    by (auto simp: find_table_def find_Some_iff)
  then have "u = t" using t assms by (auto simp: names_distinct_def distinct_map inj_on_def)
  then show "find_table sch n = Some t" using u by simp
qed

lemma table_name_unique:
  "names_distinct sch \<Longrightarrow> t \<in> set (s_tables sch) \<Longrightarrow> u \<in> set (s_tables sch) \<Longrightarrow> tname u = tname t \<Longrightarrow> u = t"
  by (auto simp: names_distinct_def distinct_map inj_on_def)

lemma db_ok_insert:
  assumes "names_distinct sch" "find_table sch n = Some t" "db_ok sch db"
  shows "db_ok sch (db(n := db n @ [r])) \<longleftrightarrow> row_fits db t r"
proof -
  have t: "t \<in> set (s_tables sch)" "tname t = n"
    using assms(1,2) by (auto simp: find_table_Some)
  show ?thesis
  proof
    assume "db_ok sch (db(n := db n @ [r]))"
    then show "row_fits db t r"
      using table_ok_insert[OF db_okD[OF assms(3) t(1)]] db_okD t by metis
  next
    assume fits: "row_fits db t r"
    have "table_ok (db(n := db n @ [r])) u" if u: "u \<in> set (s_tables sch)" for u
    proof (cases "u = t")
      case True
      then show ?thesis using table_ok_insert[OF db_okD[OF assms(3) t(1)]] fits t(2) by simp
    next
      case False
      then have "n \<noteq> tname u" using table_name_unique[OF assms(1) t(1) u] t(2) by auto
      then show ?thesis by (rule table_ok_insert_other[OF db_okD[OF assms(3) u]])
    qed
    then show "db_ok sch (db(n := db n @ [r]))" by (simp add: db_ok_def list_all_iff)
  qed
qed

lemma insert_accepted_iff:
  assumes "names_distinct sch" "find_table sch n = Some t" "db_ok sch db"
    and "assign t vals (default_row t now) = Inr r"
  shows "exec sch now (Insert n vals) db = Inr db' \<longleftrightarrow> row_fits db t r \<and> db' = db(n := db n @ [r])"
  using assms by (auto simp: exec_Inr db_ok_insert)

lemma insert_bad_values:
  assumes "find_table sch n = Some t" "assign t vals (default_row t now) = Inl e"
  shows "exec sch now (Insert n vals) db = Inl e"
  using assms by (simp add: exec_def)

text \<open>An assignment to distinct columns: each holds its value coerced, the others are as before.\<close>

lemma assign_Cons:
  "assign t ((c, v) # vals) r =
     res_bind (case List.find (\<lambda>k. cname k = c) (tcolumns t) of
          None \<Rightarrow> Inl (UndefinedColumn (tname t) c)
        | Some k \<Rightarrow> res_bind (coerce c (ctype k) v) (\<lambda>v'. Inr (r(c := v'))))
     (assign t vals)"
  unfolding assign_def by simp

lemma assign_Nil: "assign t [] r = Inr r"
  by (simp add: assign_def)

lemma assign_other: "assign t vals r = Inr r' \<Longrightarrow> c \<notin> fst ` set vals \<Longrightarrow> r' c = r c"
  by (induction vals arbitrary: r) (auto simp: assign_Nil assign_Cons split: option.splits)

lemma assign_value:
  assumes "assign t vals r = Inr r'" "distinct (map fst vals)" "(c, v) \<in> set vals"
  shows "\<exists>k. List.find (\<lambda>k. cname k = c) (tcolumns t) = Some k \<and> coerce c (ctype k) v = Inr (r' c)"
  using assms
proof (induction vals arbitrary: r)
  case Nil
  then show ?case by simp
next
  case (Cons a vals)
  obtain d w where a: "a = (d, w)" by (cases a)
  obtain k w' where k: "List.find (\<lambda>k. cname k = d) (tcolumns t) = Some k" "coerce d (ctype k) w = Inr w'"
    "assign t vals (r(d := w')) = Inr r'"
    using Cons.prems(1) by (auto simp: a assign_Cons split: option.splits)
  show ?case
  proof (cases "(c, v) \<in> set vals")
    case True
    then show ?thesis using Cons.IH[OF k(3)] Cons.prems(2) by simp
  next
    case False
    then have cv: "c = d" "v = w" "c \<notin> fst ` set vals" using Cons.prems(2,3) by (auto simp: a)
    then have "r' c = w'" using assign_other[OF k(3)] by simp
    then show ?thesis using k cv by simp
  qed
qed

section \<open>Deletion and truncation\<close>

lemma referencing_iff:
  "(c, fk) \<in> set (referencing sch n) \<longleftrightarrow>
     (\<exists>t \<in> set (s_tables sch). tname t = c \<and> fk \<in> set (tforeign_keys t) \<and> fk_target fk = n)"
  by (auto simp: referencing_def)

lemma delete_rows_pos:
  "0 < k \<Longrightarrow> delete_rows k sch n P db =
     res_bind (fire_row sch n OnDelete (filter P (db n))) (\<lambda>_.
       if filter P (db n) = [] then Inr db
       else res_fold (fk_action (delete_rows (k - 1) sch) sch (filter P (db n))) (referencing sch n)
              (db(n := filter (\<lambda>r. \<not> P r) (db n))))"
  by (cases k) simp_all

text \<open>A property of databases that survives the removal of rows and every action survives a deletion.\<close>

lemma delete_rows_induct:
  assumes "delete_rows k sch n P db = Inr db'" and "I db" and "allowed n"
    and remove: "\<And>m Q d. I d \<Longrightarrow> allowed m \<Longrightarrow> fire_row sch m OnDelete (filter Q (d m)) = Inr () \<Longrightarrow>
        I (d(m := filter (\<lambda>r. \<not> Q r) (d m)))"
    and null: "\<And>m c fk Q d. I d \<Longrightarrow> (c, fk) \<in> set (referencing sch m) \<Longrightarrow> fk_on_delete fk = SetNull \<Longrightarrow>
        fire_row sch c OnUpdate (filter Q (d c)) = Inr () \<Longrightarrow>
        I (d(c := map (\<lambda>r. if Q r then r(fk_col fk := Null) else r) (d c)))"
    and cascade: "\<And>m c fk. (c, fk) \<in> set (referencing sch m) \<Longrightarrow> fk_on_delete fk = Cascade \<Longrightarrow> allowed c"
  shows "I db'"
  using assms(1-3)
proof (induction k arbitrary: n P db db')
  case 0
  then show ?case by simp
next
  case (Suc k)
  have step: "I v" if "x \<in> set (referencing sch n)" "I u" "fk_action (delete_rows k sch) sch gone x u = Inr v" for x u v gone
  proof -
    obtain c fk where x: "x = (c, fk)" by (cases x)
    show ?thesis
    proof (cases "fk_on_delete fk")
      case Cascade
      then show ?thesis
        using that Suc.IH cascade by (auto simp: x fk_action_def Let_def)
    next
      case SetNull
      then show ?thesis using that null by (auto simp: x fk_action_def Let_def)
    next
      case Restrict
      then show ?thesis using that by (auto simp: x fk_action_def Let_def split: if_splits)
    qed
  qed
  show ?case
  proof (cases "filter P (db n) = []")
    case True
    then show ?thesis using Suc.prems by auto
  next
    case False
    have fire: "fire_row sch n OnDelete (filter P (db n)) = Inr ()"
      and fold: "res_fold (fk_action (delete_rows k sch) sch (filter P (db n))) (referencing sch n)
              (db(n := filter (\<lambda>r. \<not> P r) (db n))) = Inr db'"
      using Suc.prems(1) False by auto
    show ?thesis
      by (rule res_fold_invariant[OF fold]) (blast intro: remove Suc.prems fire step)+
  qed
qed

text \<open>A table whose row triggers refuse \<open>UPDATE\<close> and \<open>DELETE\<close> is not touched by any deletion.\<close>

definition immutable_rows :: "schema \<Rightarrow> string \<Rightarrow> bool" where
  "immutable_rows sch n \<longleftrightarrow> has_trigger sch n OnUpdate EachRow \<and> has_trigger sch n OnDelete EachRow"

lemma fire_row_ok: "fire_row sch n ev rs = Inr u \<longleftrightarrow> rs = [] \<or> \<not> has_trigger sch n ev EachRow"
  by (simp add: fire_row_def)

lemma map_if_none: "filter Q xs = [] \<Longrightarrow> map (\<lambda>x. if Q x then f x else x) xs = xs"
  by (induction xs) (auto split: if_splits)

lemma filter_not_none: "filter Q xs = [] \<Longrightarrow> filter (\<lambda>x. \<not> Q x) xs = xs"
  by (induction xs) (auto split: if_splits)

lemma delete_immutable:
  assumes "immutable_rows sch m" and "delete_rows k sch n P db = Inr db'"
  shows "db' m = db m"
  using assms(2)
  by (rule delete_rows_induct[where I = "\<lambda>d. d m = db m" and allowed = "\<lambda>_. True"])
    (use assms(1) in \<open>auto simp: immutable_rows_def fire_row_ok map_if_none filter_not_none\<close>)

text \<open>A table none of whose foreign keys cascades keeps its rows, up to the columns set to \<open>NULL\<close>.\<close>

definition same_off :: "string set \<Rightarrow> row list \<Rightarrow> row list \<Rightarrow> bool" where
  "same_off S rs rs' \<longleftrightarrow> list_all2 (\<lambda>r r'. \<forall>c. c \<in> S \<and> r' c = Null \<or> r' c = r c) rs rs'"

definition keeps_rows :: "schema \<Rightarrow> string \<Rightarrow> bool" where
  "keeps_rows sch n \<longleftrightarrow> list_all (\<lambda>t. tname t = n \<longrightarrow>
     list_all (\<lambda>fk. fk_on_delete fk \<noteq> Cascade) (tforeign_keys t)) (s_tables sch)"

definition null_columns :: "schema \<Rightarrow> string \<Rightarrow> string set" where
  "null_columns sch n = set (map fk_col (filter (\<lambda>fk. fk_on_delete fk = SetNull)
     (concat (map tforeign_keys (filter (\<lambda>t. tname t = n) (s_tables sch))))))"

lemma same_off_refl: "same_off S rs rs"
  by (simp add: same_off_def list_all2_refl)

lemma same_off_empty [simp]: "same_off {} rs rs' \<longleftrightarrow> rs' = rs"
proof
  assume "same_off {} rs rs'"
  then have "list_all2 (=) rs rs'" by (auto simp: same_off_def fun_eq_iff elim: list_all2_mono)
  then show "rs' = rs" by (simp add: list.rel_eq)
qed (simp add: same_off_refl)

lemma same_off_null:
  assumes "same_off S rs rs'" "c \<in> S"
  shows "same_off S rs (map (\<lambda>r. if Q r then r(c := Null) else r) rs')"
  using assms unfolding same_off_def by (auto simp: list_all2_conv_all_nth)

lemma delete_keeps_rows:
  assumes "keeps_rows sch m" and "n \<noteq> m" and del: "delete_rows k sch n P db = Inr db'"
  shows "same_off (null_columns sch m) (db m) (db' m)"
proof (rule delete_rows_induct[OF del, where I = "\<lambda>d. same_off (null_columns sch m) (db m) (d m)"
      and allowed = "\<lambda>a. a \<noteq> m"])
  show "same_off (null_columns sch m) (db m) (db m)" by (rule same_off_refl)
  show "n \<noteq> m" by fact
next
  fix a Q d
  assume "same_off (null_columns sch m) (db m) (d m)" "a \<noteq> m"
  then show "same_off (null_columns sch m) (db m) ((d(a := filter (\<lambda>r. \<not> Q r) (d a))) m)" by simp
next
  fix a c fk Q d
  assume I: "same_off (null_columns sch m) (db m) (d m)" and "(c, fk) \<in> set (referencing sch a)"
    "fk_on_delete fk = SetNull"
  then have "c = m \<Longrightarrow> fk_col fk \<in> null_columns sch m"
    by (auto simp: referencing_iff null_columns_def)
  then show "same_off (null_columns sch m) (db m)
      ((d(c := map (\<lambda>r. if Q r then r(fk_col fk := Null) else r) (d c))) m)"
    using I same_off_null by auto
next
  fix a c fk
  assume "(c, fk) \<in> set (referencing sch a)" "fk_on_delete fk = Cascade"
  then show "c \<noteq> m" using assms(1) by (auto simp: referencing_iff keeps_rows_def list_all_iff)
qed

text \<open>A truncation with \<open>CASCADE\<close> reaches a table along a chain of foreign keys of decreasing distance.\<close>

lemma truncate_set_base: "n \<in> set ns \<Longrightarrow> n \<in> set (truncate_set k sch ns)"
  by (induction k arbitrary: ns) auto

lemma truncate_set_reaches:
  fixes dst :: "string \<Rightarrow> nat option"
  assumes "\<And>n j. dst n = Some (Suc j) \<Longrightarrow> \<exists>cf \<in> set (referencing sch n). dst (fst cf) = Some j"
    and "\<And>n. dst n = Some 0 \<Longrightarrow> n = m"
    and "n \<in> set ns" "dst n = Some j" "j \<le> k"
  shows "m \<in> set (truncate_set k sch ns)"
  using assms(3-)
proof (induction k arbitrary: ns n j)
  case 0
  then show ?case using assms(2) by auto
next
  case (Suc k)
  show ?case
  proof (cases j)
    case 0
    then show ?thesis using Suc.prems assms(2) truncate_set_base by blast
  next
    case (Suc i)
    then obtain cf where cf: "cf \<in> set (referencing sch n)" "dst (fst cf) = Some i"
      using Suc.prems assms(1) by blast
    then have "fst cf \<in> set (remdups (ns @ concat (map (\<lambda>n. map fst (referencing sch n)) ns)))"
      using Suc.prems(1) by auto
    then show ?thesis using Suc.IH cf(2) Suc.prems(3) Suc by simp
  qed
qed

lemma truncate_set_leaf: "referencing sch n = [] \<Longrightarrow> truncate_set k sch [n] = [n]"
  by (induction k) auto

lemma truncate_guarded:
  assumes "has_trigger sch m OnTruncate EachStatement" "truncate sch n c db = Inr db'"
  shows "db' m = db m"
  using assms by (auto simp: truncate_def Let_def list_ex_iff split: if_splits)

section \<open>Tables that only grow\<close>

definition append_only :: "schema \<Rightarrow> string \<Rightarrow> bool" where
  "append_only sch n \<longleftrightarrow> immutable_rows sch n \<and> has_trigger sch n OnTruncate EachStatement"

definition grows :: "string \<Rightarrow> db \<Rightarrow> db \<Rightarrow> bool" where
  "grows n d d' \<longleftrightarrow> (\<exists>new. d' n = d n @ new)"

lemma res_map_untouched: "filter P xs = [] \<Longrightarrow> res_map (\<lambda>x. if P x then f x else Inr x) xs = Inr xs"
  by (induction xs) (auto split: if_splits)

lemma apply_append_only:
  assumes "append_only sch m" "apply_stmt sch now s db = Inr db'"
  shows "grows m db db'"
proof (cases s)
  case (Insert n vals)
  then show ?thesis using assms(2) by (auto simp: grows_def split: option.splits)
next
  case (Update n P f)
  show ?thesis
  proof (cases "n = m")
    case True
    then have "filter P (db m) = []"
      using assms Update by (auto simp: append_only_def immutable_rows_def fire_row_ok split: option.splits)
    then show ?thesis using assms(2) Update True
      by (auto simp: grows_def res_map_untouched split: option.splits)
  next
    case False
    then show ?thesis using assms(2) Update by (auto simp: grows_def split: option.splits)
  qed
next
  case (Delete n P)
  then have "db' m = db m" using assms delete_immutable by (auto simp: append_only_def split: option.splits)
  then show ?thesis by (simp add: grows_def)
next
  case (Truncate n c)
  then have "db' m = db m" using assms truncate_guarded by (auto simp: append_only_def split: option.splits)
  then show ?thesis by (simp add: grows_def)
qed

lemma db_step_append_only:
  "append_only sch m \<Longrightarrow> db_step sch db e = Some db' \<Longrightarrow> grows m db db'"
  by (auto simp: db_step_accepted exec_Inr split: sum.splits dest: apply_append_only)
    (simp add: grows_def)

lemma grows_refl: "grows n d d"
  by (simp add: grows_def)

lemma grows_trans: "grows n d e \<Longrightarrow> grows n e f \<Longrightarrow> grows n d f"
  by (auto simp: grows_def)

section \<open>The depth of a cascade\<close>

text \<open>A rank that falls along every cascading foreign key bounds the depth of every deletion.\<close>

definition ranked :: "schema \<Rightarrow> (string \<Rightarrow> nat) \<Rightarrow> bool" where
  "ranked sch rank \<longleftrightarrow> list_all (\<lambda>t. list_all (\<lambda>fk. fk_on_delete fk = Cascade \<longrightarrow>
     rank (tname t) < rank (fk_target fk)) (tforeign_keys t)) (s_tables sch)"

lemma ranked_cascade:
  "ranked sch rank \<Longrightarrow> cf \<in> set (referencing sch n) \<Longrightarrow> fk_on_delete (snd cf) = Cascade \<Longrightarrow> rank (fst cf) < rank n"
  by (cases cf) (auto simp: ranked_def referencing_iff list_all_iff)

lemma fk_action_cong:
  "(fk_on_delete (snd cf) = Cascade \<Longrightarrow> del (fst cf) = del' (fst cf)) \<Longrightarrow>
     fk_action del sch gone cf db = fk_action del' sch gone cf db"
  by (auto simp: fk_action_def Let_def split: on_delete.splits)

lemma delete_rows_depth:
  assumes "ranked sch rank" and "rank n < k"
  shows "delete_rows (k + j) sch n P db = delete_rows k sch n P db"
  using assms(2)
proof (induction k arbitrary: n P db)
  case 0
  then show ?case by simp
next
  case (Suc k)
  have "res_fold (fk_action (delete_rows (k + j) sch) sch gone) (referencing sch n) d
      = res_fold (fk_action (delete_rows k sch) sch gone) (referencing sch n) d" for gone d
  proof (rule res_fold_cong, rule fk_action_cong)
    fix cf
    assume "cf \<in> set (referencing sch n)" "fk_on_delete (snd cf) = Cascade"
    then have "rank (fst cf) < rank n" by (rule ranked_cascade[OF assms(1)])
    then have "rank (fst cf) < k" using Suc.prems by simp
    then show "delete_rows (k + j) sch (fst cf) = delete_rows k sch (fst cf)"
      using Suc.IH by (auto simp: fun_eq_iff)
  qed
  then show ?case by simp
qed

lemma delete_rows_not_too_deep:
  assumes "ranked sch rank" and "rank n < k"
  shows "delete_rows k sch n P db \<noteq> Inl CascadeTooDeep"
  using assms(2)
proof (induction k arbitrary: n P db)
  case 0
  then show ?case by simp
next
  case (Suc k)
  show ?case
  proof
    assume "delete_rows (Suc k) sch n P db = Inl CascadeTooDeep"
    then obtain d gone where
      "res_fold (fk_action (delete_rows k sch) sch gone) (referencing sch n) d = Inl CascadeTooDeep"
      by (auto simp: res_bind_eq_Inl fire_row_def split: if_splits)
    then obtain cf u where cf: "cf \<in> set (referencing sch n)"
      and act: "fk_action (delete_rows k sch) sch gone cf u = Inl CascadeTooDeep"
      by (auto dest: res_fold_Inl)
    then have "fk_on_delete (snd cf) = Cascade"
      by (auto simp: fk_action_def Let_def fire_row_def res_bind_eq_Inl split: on_delete.splits if_splits)
    then have "delete_rows k sch (fst cf) (points_to (snd cf) gone) u = Inl CascadeTooDeep"
      using act by (simp add: fk_action_def Let_def)
    moreover have "rank (fst cf) < rank n"
      using cf \<open>fk_on_delete (snd cf) = Cascade\<close> by (rule ranked_cascade[OF assms(1)])
    ultimately show False using Suc by simp
  qed
qed

end
