(* ===== verification/Migrated.thy ===== *)
theory Migrated
  imports Migration
begin

text \<open>
  The schema of the program is what \<open>upgrade\<close> makes of an empty database. This theory runs the
  script, and \<open>downgrade\<close> after it.
\<close>

definition balotly_schema :: schema where
  "balotly_schema = (case migrate upgrade_script empty_schema of Inl _ \<Rightarrow> empty_schema | Inr sch \<Rightarrow> sch)"

lemma upgrade_expected: "migrate upgrade_script empty_schema = Inr expected_schema"
  by code_simp

lemma downgrade_expected: "migrate downgrade_script expected_schema = Inr empty_schema"
  by code_simp

lemma balotly_schema_eq: "balotly_schema = expected_schema"
  by (simp add: balotly_schema_def upgrade_expected)

lemma upgrade_result: "migrate upgrade_script empty_schema = Inr balotly_schema"
  by (simp add: balotly_schema_eq upgrade_expected)

lemma downgrade_result: "migrate downgrade_script balotly_schema = Inr empty_schema"
  by (simp add: balotly_schema_eq downgrade_expected)

end
