(* ===== verification/OrmProps.thy ===== *)
theory OrmProps
  imports Orm EngineInv Migrated
begin

text \<open>
  The migration and the models against each other: the upgrade builds a schema from nothing and the
  downgrade takes it away again; every table of the schema is, up to order, the table that the
  models declare, so the two accept the same databases; and the defaults of the models agree with
  those of the database. \<open>Mapper\<close> is about their relationships.
\<close>

section \<open>Tables that differ only in the order of their parts\<close>

definition same_items :: "'a list \<Rightarrow> 'a list \<Rightarrow> bool" where
  "same_items xs ys \<longleftrightarrow> length xs = length ys \<and> list_all (\<lambda>x. x \<in> set ys) xs \<and> list_all (\<lambda>y. y \<in> set xs) ys"

lemma same_items_set: "same_items xs ys \<Longrightarrow> set xs = set ys"
  by (auto simp: same_items_def list_all_iff)

lemma same_items_list_all: "same_items xs ys \<Longrightarrow> list_all P xs \<longleftrightarrow> list_all P ys"
  by (simp add: list_all_iff same_items_set)

definition same_table :: "table \<Rightarrow> table \<Rightarrow> bool" where
  "same_table t u \<longleftrightarrow> tname t = tname u \<and> same_items (tcolumns t) (tcolumns u)
     \<and> same_items (tchecks t) (tchecks u) \<and> same_items (tforeign_keys t) (tforeign_keys u)
     \<and> tprimary t = tprimary u \<and> same_items (tuniques t) (tuniques u)
     \<and> same_items (tindexes t) (tindexes u)"

lemma same_table_unique_keys: "same_table t u \<Longrightarrow> set (unique_keys t) = set (unique_keys u)"
  by (auto simp: same_table_def unique_keys_def dest!: same_items_set)

lemma same_table_ok:
  assumes "same_table t u"
  shows "table_ok db t \<longleftrightarrow> table_ok db u"
proof -
  have "row_ok t = row_ok u"
    using assms by (simp add: fun_eq_iff row_ok_def same_table_def same_items_list_all[of "tcolumns t" "tcolumns u"]
        same_items_list_all[of "tchecks t" "tchecks u"])
  moreover have "list_all P (unique_keys t) \<longleftrightarrow> list_all P (unique_keys u)" for P
    using same_table_unique_keys[OF assms] by (simp add: list_all_iff)
  moreover have "list_all P (tforeign_keys t) \<longleftrightarrow> list_all P (tforeign_keys u)" for P
    using assms by (simp add: same_table_def same_items_list_all)
  moreover have "tname t = tname u" using assms by (simp add: same_table_def)
  ultimately show ?thesis by (simp add: table_ok_def)
qed

lemma same_tables_ok:
  "list_all2 same_table ts us \<Longrightarrow> list_all (table_ok db) ts \<longleftrightarrow> list_all (table_ok db) us"
  by (induction rule: list_all2_induct) (auto simp: same_table_ok)

section \<open>Each model against its migrated table\<close>

lemma models_match_tables:
  "same_table (metadata_table organization_model) organizations_table"
  "same_table (metadata_table user_model) users_table"
  "same_table (metadata_table contest_model) contests_table"
  "same_table (metadata_table category_model) categories_table"
  "same_table (metadata_table candidate_model) candidates_table"
  "same_table (metadata_table vote_package_model) vote_packages_table"
  "same_table (metadata_table subaccount_model) subaccounts_table"
  "same_table (metadata_table transaction_model) transactions_table"
  "same_table (metadata_table vote_model) votes_table"
  "same_table (metadata_table settlement_model) settlements_table"
  by code_simp+

lemma metadata_matches: "list_all2 same_table (s_tables metadata) (s_tables balotly_schema)"
  by (simp add: metadata_def balotly_schema_eq expected_schema_def registry_def models_match_tables)

section \<open>Agreement of the models with themselves\<close>

text \<open>A client default stores what the server default does, and a value of the column's type.\<close>

definition defaults_agree :: "mapped_col \<Rightarrow> bool" where
  "defaults_agree c = (case (m_default c, map_option (server_value (m_type c)) (m_server_default c)) of
     (Some d, Some (DefaultLit v)) \<Rightarrow> client_value d = Some v \<and> has_type (m_type c) v
   | (Some d, Some DefaultNow) \<Rightarrow> False
   | _ \<Rightarrow> True)"

section \<open>Properties\<close>

text \<open>\<open>upgrade\<close> runs from the empty schema without an error (each statement finds the tables,
  columns and functions it needs, in its order) and builds the ten tables, and \<open>downgrade\<close> after it
  runs without an error and leaves nothing behind, although two tables refer to each other.\<close>

theorem upgrade_then_downgrade:
  "migrate upgrade_script empty_schema = Inr balotly_schema
     \<and> migrate (upgrade_script @ downgrade_script) empty_schema = Inr empty_schema"
  by (simp add: migrate_append upgrade_result downgrade_result)

text \<open>C8: The migration builds exactly what the models declare: table by table the same columns with
  their types, nullability and server defaults, the same checks, keys, foreign keys with their delete
  actions, and the same indexes. So a database satisfies the constraints of \<open>Base.metadata\<close> if and only
  if it satisfies those of the migrated schema.\<close>

theorem migration_matches_models:
  "\<exists>sch. migrate upgrade_script empty_schema = Inr sch
     \<and> list_all2 same_table (s_tables metadata) (s_tables sch)
     \<and> (\<forall>db. db_ok metadata db = db_ok sch db)"
  using upgrade_result metadata_matches same_tables_ok by (auto simp: db_ok_def)

text \<open>Where a column has both a client default and a server default, the two store the same value,
  which is of the column's type; so a row written by raw SQL and one written by the ORM start alike.
  And the checks on the status columns and on \<open>role\<close> admit exactly the values of the \<open>ALL\<close> tuples.\<close>

theorem defaults_and_statuses_agree:
  "list_all (\<lambda>m. list_all defaults_agree (all_columns m)) registry
     \<and> (''ck_users_role'', text_in ''role'' user_roles) \<in> set (tchecks users_table)
     \<and> (''ck_contests_status'', text_in ''status'' contest_statuses) \<in> set (tchecks contests_table)
     \<and> (''ck_candidates_status'', text_in ''status'' candidate_statuses) \<in> set (tchecks candidates_table)
     \<and> (''ck_subaccounts_status'', text_in ''status'' subaccount_statuses) \<in> set (tchecks subaccounts_table)
     \<and> (''ck_transactions_status'', text_in ''status'' transaction_statuses) \<in> set (tchecks transactions_table)
     \<and> (''ck_settlements_status'', text_in ''status'' settlement_statuses) \<in> set (tchecks settlements_table)"
  by code_simp

end
