(* ===== verification/Ledger.thy ===== *)
theory Ledger
  imports EngineInv Migrated
begin

text \<open>
  The engine on the schema of this program: which of its tables only grow, keep their rows or can be
  truncated, its unique keys, and what the constraints say of the rows of \<open>transactions\<close> and
  \<open>votes\<close>. The properties of the ledger, in \<open>LedgerProps\<close>, are short consequences.
\<close>

named_theorems ledger \<open>computed facts of the migrated schema\<close>

section \<open>Computed facts\<close>

lemma balotly_names [ledger]: "names_distinct balotly_schema"
  unfolding balotly_schema_eq by code_simp

lemma balotly_votes_append_only [ledger]: "append_only balotly_schema ''votes''"
  unfolding balotly_schema_eq by code_simp

lemma balotly_keeps_transactions [ledger]: "keeps_rows balotly_schema ''transactions''"
  unfolding balotly_schema_eq by code_simp

lemma balotly_keeps_settlements [ledger]: "keeps_rows balotly_schema ''settlements''"
  unfolding balotly_schema_eq by code_simp

text \<open>Organizations are the deepest: contests, categories, candidates, subaccounts hang below them.\<close>

definition cascade_rank :: "string \<Rightarrow> nat" where
  "cascade_rank n = (if n = ''organizations'' then 4 else if n = ''contests'' then 3
     else if n = ''categories'' then 2 else if n = ''candidates'' then 1 else 0)"

lemma balotly_ranked [ledger]: "ranked balotly_schema cascade_rank"
  unfolding balotly_schema_eq by code_simp

lemma cascade_rank_less: "cascade_rank n < 5"
  by (simp add: cascade_rank_def)

lemma balotly_depth [ledger]: "cascade_depth balotly_schema = 10"
  unfolding balotly_schema_eq by code_simp

lemma balotly_tables [ledger]:
  "s_tables balotly_schema = [organizations_table, users_table, contests_table, categories_table,
       candidates_table, vote_packages_table, subaccounts_table, transactions_table, votes_table,
       settlements_table]"
  by (simp add: balotly_schema_eq expected_schema_def)

lemma balotly_tname [simp]:
  "tname organizations_table = ''organizations''" "tname users_table = ''users''"
  "tname contests_table = ''contests''" "tname categories_table = ''categories''"
  "tname candidates_table = ''candidates''" "tname vote_packages_table = ''vote_packages''"
  "tname subaccounts_table = ''subaccounts''" "tname transactions_table = ''transactions''"
  "tname votes_table = ''votes''" "tname settlements_table = ''settlements''"
  by (simp_all add: organizations_table_def organizations_ddl_def users_table_def users_ddl_def
      contests_table_def contests_ddl_def categories_table_def categories_ddl_def
      candidates_table_def candidates_ddl_def vote_packages_table_def vote_packages_ddl_def
      transactions_table_def transactions_ddl_def votes_table_def votes_ddl_def
      settlements_table_def settlements_ddl_def subaccounts_table_def subaccounts_ddl_def)

lemma balotly_find_table [ledger]:
  "find_table balotly_schema ''transactions'' = Some transactions_table"
  "find_table balotly_schema ''votes'' = Some votes_table"
  "find_table balotly_schema ''settlements'' = Some settlements_table"
  "find_table balotly_schema ''subaccounts'' = Some subaccounts_table"
  "find_table balotly_schema ''candidates'' = Some candidates_table"
  "find_table balotly_schema ''users'' = Some users_table"
  by (simp_all add: find_table_def balotly_tables)

lemma transactions_null_columns [ledger]: "null_columns balotly_schema ''transactions'' = {}"
  by (simp add: null_columns_def balotly_tables transactions_table_def transactions_ddl_def fkey_def)

lemma settlements_null_columns [ledger]:
  "null_columns balotly_schema ''settlements'' = {''actioned_by_user_id''}"
  by (simp add: null_columns_def balotly_tables settlements_table_def settlements_ddl_def fkey_def)

section \<open>Keys of the ledger\<close>

definition reference_key :: "string list \<times> cond option" where
  "reference_key = ([''paystack_reference''], None)"

definition cap_key :: "string list \<times> cond option" where
  "cap_key = (ix_cols identity_cap_index, ix_where identity_cap_index)"

lemma transactions_keys [ledger]:
  "unique_keys transactions_table = [([''id''], None), reference_key, cap_key]"
  by (simp add: unique_keys_def transactions_table_def transactions_ddl_def reference_key_def cap_key_def
      unique_index_def plain_index_def identity_cap_index_def)

lemma account_keys:
  "([''email''], None) \<in> set (unique_keys users_table)"
  "([''slug''], None) \<in> set (unique_keys candidates_table)"
  "([''candidate_id''], None) \<in> set (unique_keys subaccounts_table)"
  by (simp_all add: unique_keys_def users_table_def users_ddl_def candidates_table_def candidates_ddl_def
      subaccounts_table_def subaccounts_ddl_def unique_index_def plain_index_def)

text \<open>The rows of \<open>transactions\<close> that hold their contest's identity cap.\<close>

definition holds_cap :: "row \<Rightarrow> bool" where
  "holds_cap r \<longleftrightarrow> r ''enforce_identity_cap'' = VBool True
     \<and> r ''status'' \<in> {VText (lit ''pending''), VText (lit ''success'')}"

lemma cap_predicate: "eval (the (snd cap_key)) r = TT \<longleftrightarrow> holds_cap r"
  by (auto simp: cap_key_def identity_cap_index_def holds_cap_def text_in_def split: sval.splits)

lemma transactions_checks:
  "tchecks transactions_table =
     [(''ck_transactions_status'', text_in ''status'' [''pending'', ''success'', ''failed'']),
       (''ck_transactions_amount_positive'', Cmp GT ''amount_kobo'' (VInt 0)),
       (''ck_transactions_success_is_confirmed'',
        OrC (Cmp NE ''status'' (VText (lit ''success''))) (IsNotNull ''confirmed_at'')),
       (''ck_transactions_cap_needs_matric_number'',
        OrC (NotC (BoolCol ''enforce_identity_cap'')) (IsNotNull ''voter_matric_number''))]"
  by (simp add: transactions_table_def transactions_ddl_def)

lemma transactions_columns:
  "tcolumns transactions_table = tcolumns transactions_ddl"
  by (simp add: transactions_table_def)

lemma transaction_not_null:
  assumes "row_ok transactions_table r"
  shows "r ''id'' \<noteq> Null" "r ''candidate_id'' \<noteq> Null" "r ''vote_package_id'' \<noteq> Null"
    "r ''contest_id'' \<noteq> Null" "r ''paystack_reference'' \<noteq> Null" "r ''amount_kobo'' \<noteq> Null"
    "r ''status'' \<noteq> Null" "r ''enforce_identity_cap'' \<noteq> Null"
  using assms by (simp_all add: row_ok_def transactions_columns transactions_ddl_def col_def
      col_null_def col_default_def)

lemma transaction_types:
  assumes "row_ok transactions_table r"
  shows "has_type BigInt (r ''amount_kobo'')" "has_type (Varchar 32) (r ''status'')"
    "has_type BooleanT (r ''enforce_identity_cap'')" "has_type (Varchar 100) (r ''paystack_reference'')"
  using assms by (simp_all add: row_ok_def transactions_columns transactions_ddl_def col_def
      col_null_def col_default_def)

text \<open>A capped row has a matric number, so the cap's index never loses it to a \<open>NULL\<close>.\<close>

lemma transaction_capped_matric:
  assumes "row_ok transactions_table r" "r ''enforce_identity_cap'' = VBool True"
  shows "r ''voter_matric_number'' \<noteq> Null"
  using row_ok_check[OF assms(1), of "''ck_transactions_cap_needs_matric_number''"] assms(2)
  by (simp add: transactions_checks)

lemma transaction_amount:
  assumes "row_ok transactions_table r"
  shows "\<exists>k. r ''amount_kobo'' = VInt k \<and> 0 < k \<and> k < 2 ^ 63"
  using row_ok_check[OF assms, of "''ck_transactions_amount_positive''"] transaction_types(1)[OF assms]
    transaction_not_null[OF assms]
  by (simp add: transactions_checks compare_FF has_type_def split: sval.splits)

lemma transaction_status:
  assumes "row_ok transactions_table r"
  shows "r ''status'' \<in> {VText (lit ''pending''), VText (lit ''success''), VText (lit ''failed'')}"
  using row_ok_check[OF assms, of "''ck_transactions_status''"] transaction_not_null[OF assms]
  by (simp add: transactions_checks text_in_def)

lemma transaction_confirmed:
  assumes "row_ok transactions_table r" "r ''status'' = VText (lit ''success'')"
  shows "r ''confirmed_at'' \<noteq> Null"
  using row_ok_check[OF assms(1), of "''ck_transactions_success_is_confirmed''"] assms(2)
  by (simp add: transactions_checks compare_FF)

lemma transaction_indexed:
  assumes "row_ok transactions_table r"
  shows "indexed ([''id''], None) r" "indexed reference_key r" "indexed cap_key r \<longleftrightarrow> holds_cap r"
proof -
  show "indexed ([''id''], None) r" "indexed reference_key r"
    using transaction_not_null[OF assms] by (simp_all add: indexed_def reference_key_def)
  obtain p where p: "snd cap_key = Some p" by (simp add: cap_key_def identity_cap_index_def)
  then have "indexed cap_key r \<longleftrightarrow> holds_cap r \<and> list_all (\<lambda>c. r c \<noteq> Null) (fst cap_key)"
    using cap_predicate[of r] by (simp add: indexed_def)
  moreover have "holds_cap r \<longrightarrow> list_all (\<lambda>c. r c \<noteq> Null) (fst cap_key)"
    using transaction_not_null[OF assms] transaction_capped_matric[OF assms]
    by (auto simp: cap_key_def identity_cap_index_def holds_cap_def)
  ultimately show "indexed cap_key r \<longleftrightarrow> holds_cap r" by blast
qed

lemma cap_key_of: "key_of cap_key r = [r ''contest_id'', r ''voter_matric_number'']"
  by (simp add: key_of_def cap_key_def identity_cap_index_def)

lemma reference_key_of: "key_of reference_key r = [r ''paystack_reference'']"
  by (simp add: key_of_def reference_key_def)

section \<open>Rows of the ledger in a database in which every constraint holds\<close>

lemma ledger_table_ok:
  assumes "db_ok balotly_schema db"
  shows "table_ok db transactions_table" "table_ok db votes_table" "table_ok db settlements_table"
    "table_ok db candidates_table" "table_ok db subaccounts_table" "table_ok db users_table"
  using assms by (auto intro: db_okD simp: balotly_tables)

lemma transaction_row_ok:
  "db_ok balotly_schema db \<Longrightarrow> r \<in> set (db ''transactions'') \<Longrightarrow> row_ok transactions_table r"
  using table_ok_row[OF ledger_table_ok(1)] by simp

lemma unique_columns_count:
  assumes "db_ok balotly_schema db" "t \<in> set (s_tables balotly_schema)" "(cs, None) \<in> set (unique_keys t)"
    and "\<forall>v \<in> set vs. v \<noteq> Null"
  shows "length (filter (\<lambda>r. map r cs = vs) (db (tname t))) \<le> 1"
  by (rule unique_ok_count[where ks = vs, OF table_ok_unique[OF db_okD[OF assms(1,2)] assms(3)]])
    (use assms(4) in \<open>auto simp: indexed_def key_of_def list_all_iff\<close>)

lemma vote_fk:
  assumes "db_ok balotly_schema db" "v \<in> set (db ''votes'')"
  shows "\<exists>t \<in> set (db ''transactions''). t ''id'' = v ''transaction_id''"
    "\<exists>c \<in> set (db ''candidates''). c ''id'' = v ''candidate_id''"
proof -
  have "row_ok votes_table v" using table_ok_row[OF ledger_table_ok(2)[OF assms(1)]] assms(2) by simp
  then have "v ''transaction_id'' \<noteq> Null" "v ''candidate_id'' \<noteq> Null"
    by (simp_all add: row_ok_def votes_table_def votes_ddl_def col_def)
  moreover have "fk_ok db (fkey ''transaction_id'' ''transactions'' Restrict) v"
    "fk_ok db (fkey ''candidate_id'' ''candidates'' Restrict) v"
    using table_ok_fk[OF ledger_table_ok(2)[OF assms(1)]] assms(2)
    by (simp_all add: votes_table_def votes_ddl_def)
  ultimately show "\<exists>t \<in> set (db ''transactions''). t ''id'' = v ''transaction_id''"
    "\<exists>c \<in> set (db ''candidates''). c ''id'' = v ''candidate_id''"
    by (auto simp: fk_ok_def fkey_def list_ex_iff)
qed

lemma transaction_fk:
  assumes "db_ok balotly_schema db" "r \<in> set (db ''transactions'')"
  shows "\<exists>c \<in> set (db ''candidates''). c ''id'' = r ''candidate_id''"
    "\<exists>p \<in> set (db ''vote_packages''). p ''id'' = r ''vote_package_id''"
    "\<exists>c \<in> set (db ''contests''). c ''id'' = r ''contest_id''"
proof -
  have nn: "r ''candidate_id'' \<noteq> Null" "r ''vote_package_id'' \<noteq> Null" "r ''contest_id'' \<noteq> Null"
    using transaction_not_null[OF transaction_row_ok[OF assms]] by simp_all
  have "fk_ok db (fkey ''candidate_id'' ''candidates'' Restrict) r"
    "fk_ok db (fkey ''vote_package_id'' ''vote_packages'' Restrict) r"
    "fk_ok db (fkey ''contest_id'' ''contests'' Restrict) r"
    using table_ok_fk[OF ledger_table_ok(1)[OF assms(1)]] assms(2)
    by (simp_all add: transactions_table_def transactions_ddl_def)
  then show "\<exists>c \<in> set (db ''candidates''). c ''id'' = r ''candidate_id''"
    "\<exists>p \<in> set (db ''vote_packages''). p ''id'' = r ''vote_package_id''"
    "\<exists>c \<in> set (db ''contests''). c ''id'' = r ''contest_id''"
    using nn by (auto simp: fk_ok_def fkey_def list_ex_iff)
qed

text \<open>When a new transaction fits, in the terms of its columns.\<close>

lemma transactions_fks:
  "tforeign_keys transactions_table = [fkey ''candidate_id'' ''candidates'' Restrict,
       fkey ''vote_package_id'' ''vote_packages'' Restrict, fkey ''contest_id'' ''contests'' Restrict]"
  by (simp add: transactions_table_def transactions_ddl_def)

lemma fk_ok_present:
  "r c \<noteq> Null \<Longrightarrow> n \<noteq> t \<Longrightarrow>
     fk_ok (db(n := rs)) (fkey c t d) r \<longleftrightarrow> (\<exists>p \<in> set (db t). p ''id'' = r c)"
  by (auto simp: fk_ok_def fkey_def list_ex_iff)

lemma transaction_fits_iff:
  assumes "db_ok balotly_schema db"
  shows "row_fits db transactions_table r \<longleftrightarrow> row_ok transactions_table r
     \<and> (\<forall>u \<in> set (db ''transactions''). u ''id'' \<noteq> r ''id''
          \<and> u ''paystack_reference'' \<noteq> r ''paystack_reference''
          \<and> \<not> (holds_cap u \<and> holds_cap r \<and> u ''contest_id'' = r ''contest_id''
                \<and> u ''voter_matric_number'' = r ''voter_matric_number''))
     \<and> (\<exists>c \<in> set (db ''candidates''). c ''id'' = r ''candidate_id'')
     \<and> (\<exists>p \<in> set (db ''vote_packages''). p ''id'' = r ''vote_package_id'')
     \<and> (\<exists>c \<in> set (db ''contests''). c ''id'' = r ''contest_id'')"
proof (cases "row_ok transactions_table r")
  case True
  note ix = transaction_indexed[OF True]
    and ixs = transaction_indexed[OF transaction_row_ok[OF assms]]
  have keys: "list_all (\<lambda>k. indexed k r \<longrightarrow>
         list_all (\<lambda>u. indexed k u \<longrightarrow> key_of k u \<noteq> key_of k r) (db ''transactions'')) (unique_keys transactions_table)
     \<longleftrightarrow> (\<forall>u \<in> set (db ''transactions''). u ''id'' \<noteq> r ''id''
          \<and> u ''paystack_reference'' \<noteq> r ''paystack_reference''
          \<and> \<not> (holds_cap u \<and> holds_cap r \<and> u ''contest_id'' = r ''contest_id''
                \<and> u ''voter_matric_number'' = r ''voter_matric_number''))"
    using ix ixs by (auto simp: transactions_keys list_all_iff cap_key_of reference_key_of key_of_def [of "([''id''], None)"])
  have fks: "list_all (\<lambda>fk. fk_ok (db(''transactions'' := db ''transactions'' @ [r])) fk r) (tforeign_keys transactions_table)
     \<longleftrightarrow> (\<exists>c \<in> set (db ''candidates''). c ''id'' = r ''candidate_id'')
     \<and> (\<exists>p \<in> set (db ''vote_packages''). p ''id'' = r ''vote_package_id'')
     \<and> (\<exists>c \<in> set (db ''contests''). c ''id'' = r ''contest_id'')"
    using transaction_not_null[OF True] by (simp add: transactions_fks fk_ok_present)
  show ?thesis using True keys fks by (simp add: row_fits_def)
next
  case False
  then show ?thesis by (simp add: row_fits_def)
qed

text \<open>A reference that is stored fits its column, so it is stored again as it is.\<close>

lemma same_reference:
  assumes "assign transactions_table vals (default_row transactions_table now) = Inr u"
    and "row_ok transactions_table r"
    and "(''paystack_reference'', r ''paystack_reference'') \<in> set vals" and "distinct (map fst vals)"
  shows "u ''paystack_reference'' = r ''paystack_reference''"
proof -
  have col: "List.find (\<lambda>k. cname k = ''paystack_reference'') (tcolumns transactions_table)
      = Some (col ''paystack_reference'' (Varchar 100))"
    by (simp add: transactions_columns transactions_ddl_def col_def col_null_def col_default_def)
  have "coerce ''paystack_reference'' (Varchar 100) (r ''paystack_reference'') = Inr (u ''paystack_reference'')"
    using assign_value[OF assms(1,4,3)] col by (auto simp: col_def)
  then show ?thesis using coerce_id[OF transaction_types(4)[OF assms(2)]] by simp
qed

section \<open>Interfaces\<close>

interpretation votes_log: step_monotone "db_step balotly_schema" "grows ''votes''"
  by unfold_locales (auto intro: grows_refl grows_trans db_step_append_only balotly_votes_append_only)

section \<open>Truncation\<close>

text \<open>How many foreign keys a table is away from \<open>votes\<close>; two tables are not referenced at all.\<close>

definition votes_distance :: "string \<Rightarrow> nat option" where
  "votes_distance = map_of [(''votes'', 0), (''transactions'', 1), (''candidates'', 1), (''categories'', 2),
     (''vote_packages'', 2), (''contests'', 2), (''users'', 2), (''organizations'', 3)]"

lemma votes_distance_step:
  assumes "votes_distance n = Some (Suc j)"
  shows "\<exists>cf \<in> set (referencing balotly_schema n). votes_distance (fst cf) = Some j"
proof -
  have fks: "(''votes'', fkey ''transaction_id'' ''transactions'' Restrict) \<in> set (referencing balotly_schema ''transactions'')"
    "(''votes'', fkey ''candidate_id'' ''candidates'' Restrict) \<in> set (referencing balotly_schema ''candidates'')"
    "(''candidates'', fkey ''category_id'' ''categories'' Cascade) \<in> set (referencing balotly_schema ''categories'')"
    "(''transactions'', fkey ''vote_package_id'' ''vote_packages'' Restrict) \<in> set (referencing balotly_schema ''vote_packages'')"
    "(''transactions'', fkey ''contest_id'' ''contests'' Restrict) \<in> set (referencing balotly_schema ''contests'')"
    "(''candidates'', fkey ''user_id'' ''users'' SetNull) \<in> set (referencing balotly_schema ''users'')"
    "(''contests'', fkey ''organization_id'' ''organizations'' Cascade) \<in> set (referencing balotly_schema ''organizations'')"
    by (simp_all add: referencing_iff balotly_tables votes_table_def votes_ddl_def
        transactions_table_def transactions_ddl_def candidates_table_def candidates_ddl_def
        contests_table_def contests_ddl_def fkey_def)
  show ?thesis
    using assms by (auto simp: votes_distance_def split: if_splits intro!: bexI[OF _ fks(1)] bexI[OF _ fks(2)]
        bexI[OF _ fks(3)] bexI[OF _ fks(4)] bexI[OF _ fks(5)] bexI[OF _ fks(6)] bexI[OF _ fks(7)])
qed

lemma balotly_truncate_set:
  assumes "votes_distance n \<noteq> None"
  shows "''votes'' \<in> set (truncate_set 10 balotly_schema [n])"
proof -
  obtain j where j: "votes_distance n = Some j" using assms by auto
  then have "j \<le> 10" by (auto simp: votes_distance_def split: if_splits)
  with j show ?thesis
    by (intro truncate_set_reaches[where dst = votes_distance and n = n, OF votes_distance_step])
      (auto simp: votes_distance_def split: if_splits)
qed

lemma balotly_leaves:
  "referencing balotly_schema ''subaccounts'' = []" "referencing balotly_schema ''settlements'' = []"
  by (simp_all add: referencing_def balotly_tables organizations_table_def organizations_ddl_def
      users_table_def users_ddl_def contests_table_def contests_ddl_def categories_table_def
      categories_ddl_def candidates_table_def candidates_ddl_def vote_packages_table_def
      vote_packages_ddl_def subaccounts_table_def subaccounts_ddl_def transactions_table_def
      transactions_ddl_def votes_table_def votes_ddl_def settlements_table_def settlements_ddl_def
      fkey_def organizations_creator_fk_def)

lemma votes_unreferenced: "referencing balotly_schema ''votes'' = []"
  by (simp add: referencing_def balotly_tables organizations_table_def organizations_ddl_def
      users_table_def users_ddl_def contests_table_def contests_ddl_def categories_table_def
      categories_ddl_def candidates_table_def candidates_ddl_def vote_packages_table_def
      vote_packages_ddl_def subaccounts_table_def subaccounts_ddl_def transactions_table_def
      transactions_ddl_def votes_table_def votes_ddl_def settlements_table_def settlements_ddl_def
      fkey_def organizations_creator_fk_def)

lemma balotly_truncate_trigger:
  "has_trigger balotly_schema m OnTruncate EachStatement \<longleftrightarrow> m = ''votes''"
  by (auto simp: has_trigger_def balotly_schema_eq expected_schema_def votes_append_only_def votes_no_truncate_def)

lemma balotly_known_table:
  "find_table balotly_schema n \<noteq> None \<longleftrightarrow> votes_distance n \<noteq> None \<or> n = ''subaccounts'' \<or> n = ''settlements''"
  by (auto simp: find_table_def balotly_tables votes_distance_def split: if_splits)

lemma truncate_reaching_votes:
  assumes "votes_distance n \<noteq> None"
  shows "\<exists>e. truncate balotly_schema n c db = Inl e"
proof (cases c)
  case True
  then show ?thesis
    using balotly_truncate_set[OF assms] balotly_depth
    by (auto simp: truncate_def Let_def balotly_truncate_trigger list_ex_iff cascade_depth_def)
next
  case False
  show ?thesis
  proof (cases "votes_distance n")
    case None
    then show ?thesis using assms by simp
  next
    case (Some j)
    show ?thesis
    proof (cases j)
      case 0
      then have "n = ''votes''" using Some by (auto simp: votes_distance_def split: if_splits)
      then show ?thesis using False by (auto simp: truncate_def Let_def balotly_truncate_trigger)
    next
      case (Suc i)
      then obtain cf where "cf \<in> set (referencing balotly_schema n)" "votes_distance (fst cf) = Some i"
        using votes_distance_step Some by blast
      moreover from this have "fst cf \<noteq> n" using Some Suc by auto
      ultimately have "list_ex (\<lambda>(c, _). c \<noteq> n) (referencing balotly_schema n)"
        by (auto simp: list_ex_iff intro!: bexI[of _ cf])
      then show ?thesis using False by (simp add: truncate_def Let_def)
    qed
  qed
qed

lemma truncate_leaf:
  assumes "n = ''subaccounts'' \<or> n = ''settlements''"
  shows "truncate balotly_schema n c db = Inr (db(n := []))"
  using assms by (auto simp: truncate_def Let_def truncate_set_leaf balotly_leaves balotly_truncate_trigger)

lemma truncate_votes: "truncate balotly_schema ''votes'' c db = Inl (TriggerRaised ''votes'')"
  by (auto simp: truncate_def Let_def truncate_set_leaf votes_unreferenced balotly_truncate_trigger)

text \<open>Emptying a table that nothing refers to breaks no constraint.\<close>

lemma clear_leaf_ok:
  assumes "db_ok sch db" "referencing sch n = []"
  shows "db_ok sch (db(n := []))"
proof -
  have "table_ok (db(n := [])) t" if t: "t \<in> set (s_tables sch)" for t
  proof -
    have "fk_target fk \<noteq> n" if "fk \<in> set (tforeign_keys t)" for fk
      using assms(2) t that referencing_iff[of "tname t" fk sch n] by auto
    then have "fk_ok (db(n := [])) fk r \<longleftrightarrow> fk_ok db fk r" if "fk \<in> set (tforeign_keys t)" for fk r
      using that by (simp add: fk_ok_def)
    then show ?thesis
      using db_okD[OF assms(1) t] by (auto simp: table_ok_def list_all_iff unique_ok_def)
  qed
  then show ?thesis by (simp add: db_ok_def list_all_iff)
qed

section \<open>What a statement on one table leaves of another\<close>

fun target :: "stmt \<Rightarrow> string" where
  "target (Insert n _) = n"
| "target (Update n _ _) = n"
| "target (Delete n _) = n"
| "target (Truncate n _) = n"

text \<open>A table that keeps its rows: statements on other tables only set references to \<open>NULL\<close>.\<close>

lemma apply_keeps_rows:
  assumes "keeps_rows balotly_schema m" "target s \<noteq> m" "apply_stmt balotly_schema now s db = Inr db'"
  shows "same_off (null_columns balotly_schema m) (db m) (db' m)"
proof (cases s)
  case (Insert n vals)
  then show ?thesis using assms by (auto simp: same_off_refl split: option.splits)
next
  case (Update n P f)
  then show ?thesis using assms by (auto simp: same_off_refl split: option.splits)
next
  case (Delete n P)
  then show ?thesis using assms delete_keeps_rows by (auto split: option.splits)
next
  case (Truncate n c)
  then have known: "find_table balotly_schema n \<noteq> None" and tr: "truncate balotly_schema n c db = Inr db'"
    using assms(3) by (auto split: option.splits)
  have "votes_distance n = None" using truncate_reaching_votes[of n c db] tr by (cases "votes_distance n") auto
  then have "n = ''subaccounts'' \<or> n = ''settlements''" using known unfolding balotly_known_table by simp
  then show ?thesis using tr truncate_leaf assms(2) Truncate by (auto simp: same_off_refl)
qed

lemma exec_keeps_rows:
  "keeps_rows balotly_schema m \<Longrightarrow> target s \<noteq> m \<Longrightarrow> exec balotly_schema now s db = Inr db' \<Longrightarrow>
     same_off (null_columns balotly_schema m) (db m) (db' m)"
  by (auto simp: exec_Inr intro: apply_keeps_rows)

end
