(* ===== verification/LedgerProps.thy ===== *)
theory LedgerProps
  imports Ledger
begin

text \<open>
  The properties of the ledger: what the constraints, unique indexes, triggers and foreign keys of
  the migrated schema guarantee in every database that SQL statements can reach from the empty one,
  whatever those statements are and whichever of them fail. The concrete history at the start is the
  input of the witnesses.
\<close>

section \<open>A concrete history\<close>

definition demo_history :: "(int \<times> stmt) list" where
  "demo_history =
     [(0, Insert ''organizations'' [(''id'', VUuid 1), (''name'', VText (lit ''Uni''))]),
      (1, Insert ''contests'' [(''id'', VUuid 2), (''organization_id'', VUuid 1), (''name'', VText (lit ''SUG'')),
            (''starts_at'', VTime 0), (''ends_at'', VTime 9)]),
      (2, Insert ''categories'' [(''id'', VUuid 3), (''contest_id'', VUuid 2), (''name'', VText (lit ''P''))]),
      (3, Insert ''candidates'' [(''id'', VUuid 4), (''category_id'', VUuid 3), (''name'', VText (lit ''A'')),
            (''slug'', VText (lit ''a''))]),
      (4, Insert ''candidates'' [(''id'', VUuid 5), (''category_id'', VUuid 3), (''name'', VText (lit ''B'')),
            (''slug'', VText (lit ''b''))]),
      (5, Insert ''vote_packages'' [(''id'', VUuid 6), (''contest_id'', VUuid 2), (''amount_kobo'', VInt 100),
            (''vote_count'', VInt 1), (''label'', VText (lit ''1''))]),
      (6, Insert ''transactions'' [(''id'', VUuid 7), (''candidate_id'', VUuid 4), (''vote_package_id'', VUuid 6),
            (''contest_id'', VUuid 2), (''paystack_reference'', VText (lit ''r'')), (''amount_kobo'', VInt 100),
            (''voter_matric_number'', VText (lit ''m'')), (''enforce_identity_cap'', VBool True)]),
      (7, Insert ''votes'' [(''id'', VUuid 8), (''transaction_id'', VUuid 7), (''candidate_id'', VUuid 5)])]"

definition demo_db :: db where
  "demo_db = history balotly_schema empty_db demo_history"

text \<open>One evaluation of the history; what it leaves in the tables that the examples look at.\<close>

definition demo_view :: "db \<Rightarrow> sval list list \<times> sval list list \<times> sval list list \<times> sval list list" where
  "demo_view d =
     (map (\<lambda>v. map v [''id'', ''transaction_id'', ''candidate_id'']) (d ''votes''),
      map (\<lambda>t. map t [''id'', ''candidate_id'', ''vote_package_id'', ''contest_id'', ''paystack_reference'',
        ''status'', ''voter_matric_number'', ''enforce_identity_cap'']) (d ''transactions''),
      map (\<lambda>t. map t [''id'']) (d ''candidates''), map (\<lambda>t. map t [''id'']) (d ''subaccounts''))"

lemma demo_evaluated:
  "demo_view demo_db =
     ([[VUuid 8, VUuid 7, VUuid 5]],
      [[VUuid 7, VUuid 4, VUuid 6, VUuid 2, VText (lit ''r''), VText (lit ''pending''), VText (lit ''m''), VBool True]],
      [[VUuid 4], [VUuid 5]], [])"
  unfolding demo_db_def balotly_schema_eq by code_simp

lemma demo_votes: "\<exists>v. demo_db ''votes'' = [v] \<and> v ''transaction_id'' = VUuid 7 \<and> v ''candidate_id'' = VUuid 5"
  using demo_evaluated by (auto simp: demo_view_def)

lemma demo_transactions:
  "\<exists>t. demo_db ''transactions'' = [t] \<and> t ''id'' = VUuid 7 \<and> t ''candidate_id'' = VUuid 4
     \<and> t ''paystack_reference'' = VText (lit ''r'') \<and> t ''status'' = VText (lit ''pending'')
     \<and> t ''contest_id'' = VUuid 2 \<and> t ''voter_matric_number'' = VText (lit ''m'')
     \<and> t ''enforce_identity_cap'' = VBool True"
  using demo_evaluated by (auto simp: demo_view_def)

section \<open>The vote log\<close>

text \<open>C1: The vote log is append-only: whatever statements run, in whatever order, with whatever
  conditions and values, the rows of \<open>votes\<close> that were there are still there, in place and
  unchanged, and only new rows follow them. No cascade and no truncation of another table is an
  exception.\<close>

theorem votes_only_grow:
  "\<exists>new. history balotly_schema db es ''votes'' = db ''votes'' @ new"
  using votes_log.run_le[OF run_history] by (simp add: grows_def)

text \<open>A statement that would change the vote log is refused by the triggers: an \<open>UPDATE\<close> or
  \<open>DELETE\<close> whose condition some vote satisfies, and every \<open>TRUNCATE\<close>, raise.\<close>

theorem votes_mutation_raises:
  assumes "v \<in> set (db ''votes'')" and "P v"
  shows "exec balotly_schema now (Update ''votes'' P f) db = Inl (TriggerRaised ''votes'')
     \<and> exec balotly_schema now (Delete ''votes'' P) db = Inl (TriggerRaised ''votes'')
     \<and> exec balotly_schema now (Truncate ''votes'' c) db = Inl (TriggerRaised ''votes'')"
proof -
  have "filter P (db ''votes'') \<noteq> []" using assms by (auto simp: filter_empty_conv)
  then have "fire_row balotly_schema ''votes'' ev (filter P (db ''votes'')) = Inl (TriggerRaised ''votes'')"
    if "ev = OnUpdate \<or> ev = OnDelete" for ev
    using that balotly_votes_append_only by (auto simp: fire_row_def append_only_def immutable_rows_def)
  then show ?thesis
    by (simp add: exec_def balotly_find_table balotly_depth delete_rows_pos truncate_votes)
qed

theorem votes_mutation_raises_witness:
  "exec balotly_schema 0 (Update ''votes'' (\<lambda>_. True) (\<lambda>_. [])) demo_db = Inl (TriggerRaised ''votes'')"
proof -
  obtain v where "v \<in> set (demo_db ''votes'')" using demo_votes by auto
  then show ?thesis using votes_mutation_raises[of v demo_db "\<lambda>_. True" 0 "\<lambda>_. []" True] by simp
qed

text \<open>What \<open>TRUNCATE\<close> can do in a reachable database: it empties \<open>subaccounts\<close> or \<open>settlements\<close>
  and nothing else; on every other table, with or without \<open>CASCADE\<close>, it is refused, because the
  cascade always reaches \<open>votes\<close>.\<close>

theorem truncate_accepted_iff:
  "exec balotly_schema now (Truncate n c) (history balotly_schema empty_db es) = Inr db' \<longleftrightarrow>
     (n = ''subaccounts'' \<or> n = ''settlements'') \<and> db' = (history balotly_schema empty_db es)(n := [])"
  (is "?L \<longleftrightarrow> ?R")
proof
  assume ?L
  then have known: "find_table balotly_schema n \<noteq> None"
    and tr: "truncate balotly_schema n c (history balotly_schema empty_db es) = Inr db'"
    by (auto simp: exec_Inr split: option.splits)
  then have "votes_distance n = None"
    using truncate_reaching_votes[of n c "history balotly_schema empty_db es"]
    by (cases "votes_distance n") auto
  then have "n = ''subaccounts'' \<or> n = ''settlements''" using known unfolding balotly_known_table by simp
  then show ?R using tr truncate_leaf by simp
next
  assume R: ?R
  have "find_table balotly_schema n \<noteq> None" using R unfolding balotly_known_table by blast
  moreover have "db_ok balotly_schema db'" using R by (auto intro: clear_leaf_ok reachable_ok balotly_leaves)
  ultimately show ?L using R truncate_leaf by (auto simp: exec_Inr)
qed

text \<open>C5: Every vote stays backed: once a vote is in the log, then in every later database its row is
  there, a transaction has the identifier it names, that transaction's candidate, package and contest
  exist, and so does the candidate the vote names.\<close>

theorem votes_stay_backed:
  assumes "v \<in> set (history balotly_schema empty_db es ''votes'')"
    and "db = history balotly_schema empty_db (es @ fs)"
  shows "v \<in> set (db ''votes'')
     \<and> (\<exists>t \<in> set (db ''transactions''). t ''id'' = v ''transaction_id''
         \<and> (\<exists>c \<in> set (db ''candidates''). c ''id'' = t ''candidate_id'')
         \<and> (\<exists>p \<in> set (db ''vote_packages''). p ''id'' = t ''vote_package_id'')
         \<and> (\<exists>c \<in> set (db ''contests''). c ''id'' = t ''contest_id''))
     \<and> (\<exists>c \<in> set (db ''candidates''). c ''id'' = v ''candidate_id'')"
proof -
  have ok: "db_ok balotly_schema db" by (simp add: assms(2) reachable_ok)
  have v: "v \<in> set (db ''votes'')"
    using votes_log.run_le[OF run_history, of "history balotly_schema empty_db es" fs] assms
    by (auto simp: grows_def history_append)
  then show ?thesis using vote_fk[OF ok v] transaction_fk[OF ok] by blast
qed

theorem votes_stay_backed_witness:
  "\<exists>v \<in> set (demo_db ''votes''). \<exists>t \<in> set (demo_db ''transactions''). t ''id'' = v ''transaction_id''"
proof -
  obtain v where v: "v \<in> set (demo_db ''votes'')" using demo_votes by auto
  have "v \<in> set (history balotly_schema empty_db demo_history ''votes'')" using v by (simp add: demo_db_def)
  then show ?thesis using v votes_stay_backed[of v demo_history demo_db "[]"] by (auto simp: demo_db_def)
qed

text \<open>The database does not tie a vote to a confirmed payment, nor to the candidate that was paid
  for: a history that ends with one vote, whose transaction is still \<open>pending\<close> and belongs to another
  candidate, is accepted statement by statement. That votes are reconstructable from confirmed
  transactions alone is thus a duty of the code that inserts them.\<close>

theorem unpaid_vote_is_accepted:
  "\<exists>es v t. history balotly_schema empty_db es ''votes'' = [v]
     \<and> history balotly_schema empty_db es ''transactions'' = [t]
     \<and> v ''transaction_id'' = t ''id'' \<and> t ''status'' = VText (lit ''pending'')
     \<and> v ''candidate_id'' \<noteq> t ''candidate_id''"
proof -
  obtain v where "demo_db ''votes'' = [v]" "v ''transaction_id'' = VUuid 7" "v ''candidate_id'' = VUuid 5"
    using demo_votes by auto
  moreover obtain t where "demo_db ''transactions'' = [t]" "t ''id'' = VUuid 7" "t ''candidate_id'' = VUuid 4"
    "t ''status'' = VText (lit ''pending'')" using demo_transactions by auto
  ultimately show ?thesis
    by (intro exI[of _ demo_history] exI[of _ v] exI[of _ t]) (simp add: demo_db_def)
qed

section \<open>Payments\<close>

text \<open>C4: A payment cannot be recorded under two rows: once some transaction carries a \<open>paystack_reference\<close>, every
  insertion of a transaction that gives the same reference fails, whatever its other columns, and the
  database stays as it is. (An update of the row that was made at checkout is no insertion.)\<close>

theorem stored_reference_refused:
  assumes "r \<in> set (history balotly_schema empty_db es ''transactions'')"
    and "(''paystack_reference'', r ''paystack_reference'') \<in> set vals" and "distinct (map fst vals)"
  shows "(\<exists>e. exec balotly_schema now (Insert ''transactions'' vals) (history balotly_schema empty_db es) = Inl e)
     \<and> history balotly_schema empty_db (es @ [(now, Insert ''transactions'' vals)]) = history balotly_schema empty_db es"
proof -
  let ?db = "history balotly_schema empty_db es"
  have ok: "db_ok balotly_schema ?db" by (rule reachable_ok)
  have refused: "exec balotly_schema now (Insert ''transactions'' vals) ?db \<noteq> Inr db'" for db'
  proof
    assume acc: "exec balotly_schema now (Insert ''transactions'' vals) ?db = Inr db'"
    then obtain u where u: "assign transactions_table vals (default_row transactions_table now) = Inr u"
      by (auto simp: exec_Inr balotly_find_table)
    then have fits: "row_fits ?db transactions_table u"
      using acc insert_accepted_iff[OF balotly_names balotly_find_table(1) ok u] by simp
    have "u ''paystack_reference'' = r ''paystack_reference''"
      using same_reference[OF u transaction_row_ok[OF ok assms(1)] assms(2,3)] .
    moreover have "\<forall>v \<in> set (?db ''transactions''). v ''paystack_reference'' \<noteq> u ''paystack_reference''"
      using fits by (simp add: transaction_fits_iff[OF ok])
    ultimately show False using assms(1) by metis
  qed
  then obtain e where e: "exec balotly_schema now (Insert ''transactions'' vals) ?db = Inl e"
    by (cases "exec balotly_schema now (Insert ''transactions'' vals) ?db") auto
  then show ?thesis by (simp add: history_append history_Cons)
qed

theorem stored_reference_refused_witness:
  "\<exists>e. exec balotly_schema 9 (Insert ''transactions'' [(''paystack_reference'', VText (lit ''r''))]) demo_db = Inl e"
proof -
  obtain t where t: "t \<in> set (demo_db ''transactions'')" "t ''paystack_reference'' = VText (lit ''r'')"
    using demo_transactions by auto
  have "t \<in> set (history balotly_schema empty_db demo_history ''transactions'')" using t by (simp add: demo_db_def)
  then show ?thesis
    using stored_reference_refused[of t demo_history "[(''paystack_reference'', VText (lit ''r''))]" 9] t(2)
    by (simp add: demo_db_def)
qed

text \<open>At most one transaction carries a given reference, in every reachable database.\<close>

theorem reference_unique:
  "length (filter (\<lambda>r. r ''paystack_reference'' = VText ref)
     (history balotly_schema empty_db es ''transactions'')) \<le> 1"
  using unique_columns_count[of _ transactions_table "[''paystack_reference'']" "[VText ref]", OF reachable_ok]
  by (simp add: balotly_tables transactions_keys reference_key_def)

text \<open>C3: One vote purchase per identity: for every contest and matric number, at most one
  transaction whose cap is enforced is \<open>pending\<close> or \<open>success\<close>. A capped transaction always has a
  matric number, so a \<open>NULL\<close> does not escape the index.\<close>

theorem identity_cap:
  "length (filter (\<lambda>r. holds_cap r \<and> r ''contest_id'' = c \<and> r ''voter_matric_number'' = m)
     (history balotly_schema empty_db es ''transactions'')) \<le> 1"
proof -
  let ?rs = "history balotly_schema empty_db es ''transactions''"
  let ?Q = "\<lambda>r. holds_cap r \<and> r ''contest_id'' = c \<and> r ''voter_matric_number'' = m"
  have ok: "db_ok balotly_schema (history balotly_schema empty_db es)" by (rule reachable_ok)
  have "unique_ok cap_key ?rs"
    using table_ok_unique[OF ledger_table_ok(1)[OF ok], of cap_key] by (simp add: transactions_keys)
  then have "length (filter (\<lambda>r. row_ok transactions_table r \<and> ?Q r) ?rs) \<le> 1"
    by (rule unique_ok_count[where ks = "[c, m]"]) (auto simp: transaction_indexed cap_key_of)
  moreover have "filter (\<lambda>r. row_ok transactions_table r \<and> ?Q r) ?rs = filter ?Q ?rs"
    by (rule filter_cong) (auto intro: transaction_row_ok[OF ok])
  ultimately show ?thesis by simp
qed

text \<open>C23: Exactly which payment attempts are recorded: a new transaction that satisfies its own
  checks is accepted if and only if its identifier and reference are new, its candidate, package and
  contest exist, and no transaction that holds the cap has its contest and matric number, unless the
  new one is not capped. In particular an attempt that failed does not keep a voter from another.\<close>

theorem transaction_accepted_iff:
  assumes "assign transactions_table vals (default_row transactions_table now) = Inr r"
    and "db = history balotly_schema empty_db es"
  shows "exec balotly_schema now (Insert ''transactions'' vals) db = Inr db' \<longleftrightarrow>
     db' = db(''transactions'' := db ''transactions'' @ [r]) \<and> row_ok transactions_table r
     \<and> (\<forall>u \<in> set (db ''transactions''). u ''id'' \<noteq> r ''id''
          \<and> u ''paystack_reference'' \<noteq> r ''paystack_reference''
          \<and> \<not> (holds_cap u \<and> holds_cap r \<and> u ''contest_id'' = r ''contest_id''
                \<and> u ''voter_matric_number'' = r ''voter_matric_number''))
     \<and> (\<exists>c \<in> set (db ''candidates''). c ''id'' = r ''candidate_id'')
     \<and> (\<exists>p \<in> set (db ''vote_packages''). p ''id'' = r ''vote_package_id'')
     \<and> (\<exists>c \<in> set (db ''contests''). c ''id'' = r ''contest_id'')"
proof -
  have ok: "db_ok balotly_schema db" by (simp add: assms(2) reachable_ok)
  show ?thesis
    using insert_accepted_iff[OF balotly_names balotly_find_table(1) ok assms(1)] transaction_fits_iff[OF ok]
    by blast
qed

text \<open>A second capped attempt of the same voter while the first is pending, in the concrete history.\<close>

definition demo_retry :: "(string \<times> sval) list" where
  "demo_retry = [(''id'', VUuid 9), (''candidate_id'', VUuid 5), (''vote_package_id'', VUuid 6),
     (''contest_id'', VUuid 2), (''paystack_reference'', VText (lit ''s'')), (''amount_kobo'', VInt 100),
     (''voter_matric_number'', VText (lit ''m'')), (''enforce_identity_cap'', VBool True)]"

lemma demo_retry_row:
  "\<exists>r. assign transactions_table demo_retry (default_row transactions_table 9) = Inr r
     \<and> holds_cap r \<and> r ''contest_id'' = VUuid 2 \<and> r ''voter_matric_number'' = VText (lit ''m'')"
proof -
  have "(case assign transactions_table demo_retry (default_row transactions_table 9) of Inl _ \<Rightarrow> False
     | Inr r \<Rightarrow> holds_cap r \<and> r ''contest_id'' = VUuid 2 \<and> r ''voter_matric_number'' = VText (lit ''m''))"
    by code_simp
  then show ?thesis by (auto split: sum.splits)
qed

theorem transaction_accepted_iff_witness:
  "\<forall>db'. exec balotly_schema 9 (Insert ''transactions'' demo_retry) demo_db \<noteq> Inr db'"
proof
  fix db'
  obtain r where r: "assign transactions_table demo_retry (default_row transactions_table 9) = Inr r"
    "holds_cap r" "r ''contest_id'' = VUuid 2" "r ''voter_matric_number'' = VText (lit ''m'')"
    using demo_retry_row by blast
  obtain t where t: "demo_db ''transactions'' = [t]" "holds_cap t" "t ''contest_id'' = VUuid 2"
    "t ''voter_matric_number'' = VText (lit ''m'')"
    using demo_transactions by (auto simp: holds_cap_def)
  show "exec balotly_schema 9 (Insert ''transactions'' demo_retry) demo_db \<noteq> Inr db'"
    using transaction_accepted_iff[OF r(1), of demo_db demo_history db'] r t by (simp add: demo_db_def)
qed

text \<open>Every recorded transaction is well formed: its amount is a positive number of kobo that fits
  64 bits, its status is one of the three of \<open>TransactionStatus\<close>, a success has a confirmation time,
  and a capped one has a matric number.\<close>

theorem transaction_rows_valid:
  assumes "r \<in> set (history balotly_schema empty_db es ''transactions'')"
  shows "(\<exists>k. r ''amount_kobo'' = VInt k \<and> 0 < k \<and> k < 2 ^ 63)
     \<and> r ''status'' \<in> {VText (lit ''pending''), VText (lit ''success''), VText (lit ''failed'')}
     \<and> (r ''status'' = VText (lit ''success'') \<longrightarrow> r ''confirmed_at'' \<noteq> Null)
     \<and> (r ''enforce_identity_cap'' = VBool True \<longrightarrow> r ''voter_matric_number'' \<noteq> Null)"
proof -
  have ok: "row_ok transactions_table r" by (rule transaction_row_ok[OF reachable_ok assms])
  show ?thesis
    using transaction_amount[OF ok] transaction_status[OF ok] transaction_confirmed[OF ok]
      transaction_capped_matric[OF ok] by blast
qed

theorem transaction_rows_valid_witness:
  "\<exists>t \<in> set (demo_db ''transactions''). \<exists>k. t ''amount_kobo'' = VInt k \<and> 0 < k"
proof -
  obtain t where t: "t \<in> set (demo_db ''transactions'')" using demo_transactions by auto
  then have "t \<in> set (history balotly_schema empty_db demo_history ''transactions'')" by (simp add: demo_db_def)
  then show ?thesis using transaction_rows_valid[of t demo_history] t by blast
qed

section \<open>Deletion\<close>

text \<open>Financial records survive: an accepted statement on any other table, a \<open>DELETE\<close> of an
  organization, contest, candidate, package or user and a \<open>TRUNCATE ... CASCADE\<close> included, leaves
  \<open>transactions\<close> exactly as it was, and one on a table other than \<open>settlements\<close> leaves every
  settlement there, at most with \<open>actioned_by_user_id\<close> set to \<open>NULL\<close>.\<close>

theorem money_survives:
  assumes "exec balotly_schema now s db = Inr db'"
  shows "(target s \<noteq> ''transactions'' \<longrightarrow> db' ''transactions'' = db ''transactions'')
     \<and> (target s \<noteq> ''settlements'' \<longrightarrow>
          same_off {''actioned_by_user_id''} (db ''settlements'') (db' ''settlements''))"
  using exec_keeps_rows[OF balotly_keeps_transactions _ assms]
    exec_keeps_rows[OF balotly_keeps_settlements _ assms]
  by (simp add: transactions_null_columns settlements_null_columns)

theorem money_survives_witness:
  "exec balotly_schema 9 (Truncate ''subaccounts'' True) demo_db = Inr (demo_db(''subaccounts'' := []))
     \<and> (demo_db(''subaccounts'' := [])) ''transactions'' = demo_db ''transactions''"
proof -
  have "exec balotly_schema 9 (Truncate ''subaccounts'' True) demo_db = Inr (demo_db(''subaccounts'' := []))"
    unfolding exec_Inr demo_db_def
    by (simp add: balotly_find_table truncate_leaf clear_leaf_ok reachable_ok balotly_leaves)
  then show ?thesis using money_survives[of 9 "Truncate ''subaccounts'' True" demo_db] by simp
qed

text \<open>A \<open>DELETE\<close> always ends with an answer of the database: five levels of cascade are enough for
  this schema, so the depth the engine gives to a deletion is never exhausted and does not change its
  result.\<close>

theorem cascade_is_bounded:
  "delete_rows (5 + k) balotly_schema n P db = delete_rows 5 balotly_schema n P db
     \<and> exec balotly_schema now (Delete n P) db \<noteq> Inl CascadeTooDeep"
proof
  show "delete_rows (5 + k) balotly_schema n P db = delete_rows 5 balotly_schema n P db"
    by (rule delete_rows_depth[OF balotly_ranked cascade_rank_less])
  have "cascade_rank n < 10" using cascade_rank_less[of n] by simp
  then have "delete_rows 10 balotly_schema n P db \<noteq> Inl CascadeTooDeep"
    by (rule delete_rows_not_too_deep[OF balotly_ranked])
  then show "exec balotly_schema now (Delete n P) db \<noteq> Inl CascadeTooDeep"
    by (auto simp: exec_def balotly_depth res_bind_eq_Inl db_error_not_deep split: option.splits)
qed

section \<open>Accounts\<close>

text \<open>In every reachable database an email belongs to at most one user, a slug to at most one
  candidate, and a candidate has at most one subaccount.\<close>

theorem accounts_unique:
  "length (filter (\<lambda>u. u ''email'' = VText e) (history balotly_schema empty_db es ''users'')) \<le> 1
     \<and> length (filter (\<lambda>c. c ''slug'' = VText s) (history balotly_schema empty_db es ''candidates'')) \<le> 1
     \<and> length (filter (\<lambda>a. a ''candidate_id'' = VUuid i) (history balotly_schema empty_db es ''subaccounts'')) \<le> 1"
  using unique_columns_count[of _ users_table "[''email'']" "[VText e]", OF reachable_ok]
    unique_columns_count[of _ candidates_table "[''slug'']" "[VText s]", OF reachable_ok]
    unique_columns_count[of _ subaccounts_table "[''candidate_id'']" "[VUuid i]", OF reachable_ok]
  by (simp add: balotly_tables account_keys)

end
