(* ===== verification/Mapper.thy ===== *)
theory Mapper
  imports OrmProps LedgerProps
begin

text \<open>
  The mapped attributes at work. SQLAlchemy's mapper finds for each \<open>relationship()\<close> the one foreign key
  that joins its two tables (\<open>foreign_keys=\<close> decides where there are two), and from the side it is on
  whether the attribute is one object or a collection; loading an attribute reads a column or follows
  the join. The annotations \<open>Mapped[...]\<close> promise what is read: this theory shows that the database keeps
  that promise, and that the two sides of a relationship follow the same foreign key.
\<close>

section \<open>Mapper configuration\<close>

datatype join = ManyToOne foreign_key | OneToMany foreign_key

datatype mapper_error = UnknownClass | NoForeignKeys | AmbiguousForeignKeys

definition find_model :: "string \<Rightarrow> model option" where
  "find_model c = List.find (\<lambda>m. md_class m = c) registry"

definition model_fks :: "model \<Rightarrow> foreign_key list" where
  "model_fks m = concat (map column_fk (all_columns m))"

definition admits :: "relation \<Rightarrow> model \<Rightarrow> foreign_key \<Rightarrow> bool" where
  "admits r owner fk = (case r_foreign_keys r of None \<Rightarrow> True
     | Some (cls, c) \<Rightarrow> md_class owner = cls \<and> fk_col fk = c)"

definition possible_joins :: "model \<Rightarrow> model \<Rightarrow> relation \<Rightarrow> join list" where
  "possible_joins m t r =
     map ManyToOne (filter (\<lambda>fk. fk_target fk = md_table t \<and> admits r m fk) (model_fks m))
     @ map OneToMany (filter (\<lambda>fk. fk_target fk = md_table m \<and> admits r t fk) (model_fks t))"

definition join_of :: "model \<Rightarrow> relation \<Rightarrow> (mapper_error, join) result" where
  "join_of m r = (case find_model (r_target r) of None \<Rightarrow> Inl UnknownClass
     | Some t \<Rightarrow> (case possible_joins m t r of [] \<Rightarrow> Inl NoForeignKeys | [j] \<Rightarrow> Inr j | _ \<Rightarrow> Inl AmbiguousForeignKeys))"

text \<open>\<open>uselist\<close>: as given; else from the annotation, and for a list from the direction.\<close>

definition gives_list :: "relation \<Rightarrow> join \<Rightarrow> bool" where
  "gives_list r j = (case r_uselist r of Some b \<Rightarrow> b
     | None \<Rightarrow> r_arity r = ToList \<and> (case j of ManyToOne _ \<Rightarrow> False | OneToMany _ \<Rightarrow> True))"

section \<open>Loading\<close>

text \<open>The rows that an attribute of the object of row \<open>x\<close> refers to. \<open>OneOfSeveral\<close> is the first of several
  rows where one was expected; SQLAlchemy warns of them.\<close>

definition join_rows :: "db \<Rightarrow> string \<Rightarrow> string \<Rightarrow> join \<Rightarrow> row \<Rightarrow> row list" where
  "join_rows db mt tt j x = (case j of
     ManyToOne fk \<Rightarrow> filter (\<lambda>y. x (fk_col fk) \<noteq> Null \<and> y (fk_target_col fk) = x (fk_col fk)) (db tt)
   | OneToMany fk \<Rightarrow> filter (\<lambda>y. y (fk_col fk) \<noteq> Null \<and> x (fk_target_col fk) = y (fk_col fk)) (db tt))"

datatype loaded = One "row option" | OneOfSeveral row | Many "row list"

definition load :: "db \<Rightarrow> model \<Rightarrow> relation \<Rightarrow> row \<Rightarrow> (mapper_error, loaded) result" where
  "load db m r x =
     (case find_model (r_target r) of None \<Rightarrow> Inl UnknownClass
      | Some t \<Rightarrow> res_bind (join_of m r) (\<lambda>j.
          let ys = join_rows db (md_table m) (md_table t) j x in
          if gives_list r j then Inr (Many ys)
          else case ys of [] \<Rightarrow> Inr (One None) | [y] \<Rightarrow> Inr (One (Some y)) | y # _ \<Rightarrow> Inr (OneOfSeveral y)))"

text \<open>The Python type that a column type's result processor gives, and that of a stored value.\<close>

fun py_type_of :: "sval \<Rightarrow> py_type option" where
  "py_type_of Null = None"
| "py_type_of (VUuid _) = Some PyUUID"
| "py_type_of (VText _) = Some PyStr"
| "py_type_of (VInt _) = Some PyInt"
| "py_type_of (VNum _) = Some PyDecimal"
| "py_type_of (VBool _) = Some PyBool"
| "py_type_of (VTime _) = Some PyDatetime"
| "py_type_of (VBytes _) = Some PyBytes"

text \<open>What the annotations promise of a value and of a loaded relationship.\<close>

fun promised :: "annotation \<Rightarrow> sval \<Rightarrow> bool" where
  "promised (Mapped p) v \<longleftrightarrow> py_type_of v = Some p"
| "promised (MappedOptional p) v \<longleftrightarrow> v = Null \<or> py_type_of v = Some p"

fun promised_load :: "arity \<Rightarrow> loaded \<Rightarrow> bool" where
  "promised_load ToOne (One (Some _)) = True"
| "promised_load ToOptional (One _) = True"
| "promised_load ToList (Many _) = True"
| "promised_load _ _ = False"

section \<open>What the declarations must satisfy\<close>

fun python_type :: "sql_type \<Rightarrow> py_type" where
  "python_type UUID = PyUUID"
| "python_type (Varchar _) = PyStr"
| "python_type TextT = PyStr"
| "python_type (Numeric _ _) = PyDecimal"
| "python_type IntegerT = PyInt"
| "python_type BigInt = PyInt"
| "python_type BooleanT = PyBool"
| "python_type TimestampTZ = PyDatetime"
| "python_type Bytea = PyBytes"

lemma has_type_python: "has_type ty v \<Longrightarrow> v = Null \<or> py_type_of v = Some (python_type ty)"
  by (cases ty; cases v) (auto simp: has_type_def)

definition column_sound :: "mapped_col \<Rightarrow> bool" where
  "column_sound c = (m_annotation c = (if m_nullable c then MappedOptional else Mapped) (python_type (m_type c)))"

lemma column_sound_promised:
  assumes "column_sound c" "has_type (m_type c) v" "m_nullable c \<or> v \<noteq> Null"
  shows "promised (m_annotation c) v"
  using assms has_type_python[OF assms(2)] by (auto simp: column_sound_def)

text \<open>A scalar attribute follows its own foreign key to a unique column, or one that is unique in the
  other table; one that is not optional needs a column that is not nullable.\<close>

definition unique_col :: "model \<Rightarrow> string \<Rightarrow> bool" where
  "unique_col m c = (([c], None) \<in> set (unique_keys (metadata_table m)))"

definition required_col :: "model \<Rightarrow> string \<Rightarrow> bool" where
  "required_col m c = list_ex (\<lambda>k. m_name k = c \<and> \<not> m_nullable k) (all_columns m)"

definition relation_sound :: "model \<Rightarrow> relation \<Rightarrow> bool" where
  "relation_sound m r = (case find_model (r_target r) of None \<Rightarrow> False | Some t \<Rightarrow>
     (case join_of m r of Inl _ \<Rightarrow> False
      | Inr (ManyToOne fk) \<Rightarrow> unique_col t (fk_target_col fk) \<and> r_arity r \<noteq> ToList \<and> r_uselist r = None
          \<and> (r_arity r = ToOptional \<or> required_col m (fk_col fk))
      | Inr (OneToMany fk) \<Rightarrow> (if r_arity r = ToList then r_uselist r = None
          else r_arity r = ToOptional \<and> r_uselist r \<noteq> Some True \<and> unique_col t (fk_col fk))))"

section \<open>The declarations of this program\<close>

named_theorems declared \<open>the classes, their tables, foreign keys and relationships\<close>

lemmas model_defs = organization_model_def user_model_def contest_model_def category_model_def
  candidate_model_def vote_package_model_def subaccount_model_def transaction_model_def vote_model_def
  settlement_model_def

lemmas mcol_defs = mcol_def mcol_opt_def references_to_def with_index_def with_unique_def with_status_def
  with_false_def base_columns_def uuid_key_def created_at_def

lemmas relation_defs = relates_def owns_def one_way_def on_column_def

lemma class_names [declared]:
  "md_class organization_model = ''Organization''" "md_class user_model = ''User''"
  "md_class contest_model = ''Contest''" "md_class category_model = ''Category''"
  "md_class candidate_model = ''Candidate''" "md_class vote_package_model = ''VotePackage''"
  "md_class subaccount_model = ''Subaccount''" "md_class transaction_model = ''Transaction''"
  "md_class vote_model = ''Vote''" "md_class settlement_model = ''Settlement''"
  by (simp_all add: model_defs)

lemma classes_found [declared]:
  "find_model ''Organization'' = Some organization_model" "find_model ''User'' = Some user_model"
  "find_model ''Contest'' = Some contest_model" "find_model ''Category'' = Some category_model"
  "find_model ''Candidate'' = Some candidate_model" "find_model ''VotePackage'' = Some vote_package_model"
  "find_model ''Subaccount'' = Some subaccount_model" "find_model ''Transaction'' = Some transaction_model"
  "find_model ''Vote'' = Some vote_model" "find_model ''Settlement'' = Some settlement_model"
  by (simp_all add: find_model_def registry_def class_names)

lemma table_names [declared]:
  "md_table organization_model = ''organizations''" "md_table user_model = ''users''"
  "md_table contest_model = ''contests''" "md_table category_model = ''categories''"
  "md_table candidate_model = ''candidates''" "md_table vote_package_model = ''vote_packages''"
  "md_table subaccount_model = ''subaccounts''" "md_table transaction_model = ''transactions''"
  "md_table vote_model = ''votes''" "md_table settlement_model = ''settlements''"
  by (simp_all add: model_defs)

lemma columns_sound: "m \<in> set registry \<Longrightarrow> list_all column_sound (all_columns m)"
  by (auto simp: registry_def all_columns_def column_sound_def model_defs mcol_defs)

lemma foreign_keys_of [declared]:
  "model_fks organization_model = [organizations_creator_fk]"
  "model_fks user_model = [fkey ''organization_id'' ''organizations'' SetNull]"
  "model_fks contest_model = [fkey ''organization_id'' ''organizations'' Cascade]"
  "model_fks category_model = [fkey ''contest_id'' ''contests'' Cascade]"
  "model_fks candidate_model = [fkey ''category_id'' ''categories'' Cascade, fkey ''user_id'' ''users'' SetNull]"
  "model_fks vote_package_model = [fkey ''contest_id'' ''contests'' Cascade]"
  "model_fks subaccount_model = [fkey ''candidate_id'' ''candidates'' Cascade]"
  "model_fks transaction_model = [fkey ''candidate_id'' ''candidates'' Restrict,
     fkey ''vote_package_id'' ''vote_packages'' Restrict, fkey ''contest_id'' ''contests'' Restrict]"
  "model_fks vote_model = [fkey ''transaction_id'' ''transactions'' Restrict, fkey ''candidate_id'' ''candidates'' Restrict]"
  "model_fks settlement_model = [fkey ''candidate_id'' ''candidates'' Restrict, fkey ''actioned_by_user_id'' ''users'' SetNull]"
  by (simp_all add: model_fks_def all_columns_def model_defs mcol_defs column_fk_def fkey_def organizations_creator_fk_def)

lemma fk_parts [declared]:
  "fk_target (fkey c t d) = t" "fk_col (fkey c t d) = c" "fk_target_col (fkey c t d) = ''id''"
  "fk_on_delete (fkey c t d) = d" "fk_target organizations_creator_fk = ''users''"
  "fk_col organizations_creator_fk = ''created_by_user_id''" "fk_target_col organizations_creator_fk = ''id''"
  "fk_on_delete organizations_creator_fk = SetNull"
  by (simp_all add: fkey_def organizations_creator_fk_def)

lemma relations_of [declared]:
  "md_relations organization_model = [on_column ''User'' ''organization_id'' (relates ''users'' ToList ''User'' ''organization''),
     owns ''contests'' ToList ''Contest'' ''organization'']"
  "md_relations user_model = [on_column ''User'' ''organization_id'' (relates ''organization'' ToOptional ''Organization'' ''users''),
     on_column ''Candidate'' ''user_id'' (relates ''candidates'' ToList ''Candidate'' ''user'')]"
  "md_relations contest_model = [relates ''organization'' ToOne ''Organization'' ''contests'',
     owns ''categories'' ToList ''Category'' ''contest'', owns ''vote_packages'' ToList ''VotePackage'' ''contest'']"
  "md_relations category_model = [relates ''contest'' ToOne ''Contest'' ''categories'', owns ''candidates'' ToList ''Candidate'' ''category'']"
  "md_relations candidate_model = [relates ''category'' ToOne ''Category'' ''candidates'',
     on_column ''Candidate'' ''user_id'' (relates ''user'' ToOptional ''User'' ''candidates''),
     (owns ''subaccount'' ToOptional ''Subaccount'' ''candidate'')\<lparr>r_uselist := Some False\<rparr>,
     relates ''transactions'' ToList ''Transaction'' ''candidate'', relates ''votes'' ToList ''Vote'' ''candidate'',
     relates ''settlements'' ToList ''Settlement'' ''candidate'']"
  "md_relations vote_package_model = [relates ''contest'' ToOne ''Contest'' ''vote_packages'',
     relates ''transactions'' ToList ''Transaction'' ''vote_package'']"
  "md_relations subaccount_model = [relates ''candidate'' ToOne ''Candidate'' ''subaccount'']"
  "md_relations transaction_model = [relates ''candidate'' ToOne ''Candidate'' ''transactions'',
     relates ''vote_package'' ToOne ''VotePackage'' ''transactions'', one_way ''contest'' ToOne ''Contest'',
     relates ''votes'' ToList ''Vote'' ''transaction'']"
  "md_relations vote_model = [relates ''transaction'' ToOne ''Transaction'' ''votes'', relates ''candidate'' ToOne ''Candidate'' ''votes'']"
  "md_relations settlement_model = [relates ''candidate'' ToOne ''Candidate'' ''settlements'',
     on_column ''Settlement'' ''actioned_by_user_id'' (one_way ''actioned_by'' ToOptional ''User'')]"
  by (simp_all add: model_defs)

lemma identifiers_unique [declared]: "m \<in> set registry \<Longrightarrow> unique_col m ''id''"
  by (auto simp: registry_def unique_col_def unique_keys_def metadata_table_def all_columns_def model_defs mcol_defs)

lemma subaccount_unique [declared]: "unique_col subaccount_model ''candidate_id''"
  by (simp add: unique_col_def unique_keys_def metadata_table_def all_columns_def model_defs mcol_defs column_unique_def)

lemma required_columns [declared]:
  "required_col contest_model ''organization_id''" "required_col category_model ''contest_id''"
  "required_col candidate_model ''category_id''" "required_col vote_package_model ''contest_id''"
  "required_col subaccount_model ''candidate_id''" "required_col transaction_model ''candidate_id''"
  "required_col transaction_model ''vote_package_id''" "required_col transaction_model ''contest_id''"
  "required_col vote_model ''transaction_id''" "required_col vote_model ''candidate_id''"
  "required_col settlement_model ''candidate_id''"
  by (simp_all add: required_col_def all_columns_def model_defs mcol_defs)

lemma in_registry [declared]:
  "organization_model \<in> set registry" "user_model \<in> set registry" "contest_model \<in> set registry"
  "category_model \<in> set registry" "candidate_model \<in> set registry" "vote_package_model \<in> set registry"
  "subaccount_model \<in> set registry" "transaction_model \<in> set registry" "vote_model \<in> set registry"
  "settlement_model \<in> set registry"
  by (simp_all add: registry_def)

lemma registry_cases:
  "m \<in> set registry \<Longrightarrow> m = organization_model \<or> m = user_model \<or> m = contest_model \<or> m = category_model
     \<or> m = candidate_model \<or> m = vote_package_model \<or> m = subaccount_model \<or> m = transaction_model
     \<or> m = vote_model \<or> m = settlement_model"
  by (simp add: registry_def)

lemma relations_sound: "m \<in> set registry \<Longrightarrow> r \<in> set (md_relations m) \<Longrightarrow> relation_sound m r"
  by (drule registry_cases, elim disjE)
    (auto simp: declared relation_defs relation_sound_def join_of_def possible_joins_def admits_def)

section \<open>What a database gives\<close>

lemma metadata_ok: "db_ok metadata db \<longleftrightarrow> db_ok balotly_schema db"
  using same_tables_ok[OF metadata_matches] by (simp add: db_ok_def)

lemma metadata_table_parts:
  "tname (metadata_table m) = md_table m" "tcolumns (metadata_table m) = map table_column (all_columns m)"
  "tforeign_keys (metadata_table m) = model_fks m"
  by (simp_all add: metadata_table_def model_fks_def)

lemma model_table_ok:
  assumes "db_ok balotly_schema db" "m \<in> set registry"
  shows "table_ok db (metadata_table m)"
proof (rule db_okD)
  show "db_ok metadata db" using assms(1) by (simp add: metadata_ok)
  show "metadata_table m \<in> set (s_tables metadata)" using assms(2) by (simp add: metadata_def)
qed

lemma stored_column:
  assumes "db_ok balotly_schema db" "m \<in> set registry" "x \<in> set (db (md_table m))" "c \<in> set (all_columns m)"
  shows "promised (m_annotation c) (x (m_name c))"
proof -
  have row: "row_ok (metadata_table m) x"
    using table_ok_row[OF model_table_ok[OF assms(1,2)]] assms(3) by (simp add: metadata_table_parts)
  have "table_column c \<in> set (tcolumns (metadata_table m))" using assms(4) by (simp add: metadata_table_parts)
  from row_ok_column[OF row this] row_ok_required[OF row this]
  have "has_type (m_type c) (x (m_name c))" "m_nullable c \<or> x (m_name c) \<noteq> Null" by (auto simp: table_column_def)
  then show ?thesis using columns_sound[OF assms(2)] assms(4) by (simp add: column_sound_promised list_all_iff)
qed

lemma required_column:
  assumes "db_ok balotly_schema db" "m \<in> set registry" "x \<in> set (db (md_table m))" "required_col m c"
  shows "x c \<noteq> Null"
proof -
  obtain k where k: "k \<in> set (all_columns m)" "m_name k = c" "\<not> m_nullable k"
    using assms(4) by (auto simp: required_col_def list_ex_iff)
  have "column_sound k" using columns_sound[OF assms(2)] k(1) by (simp add: list_all_iff)
  then show ?thesis using stored_column[OF assms(1-3) k(1)] k(2,3) by (auto simp: column_sound_def)
qed

lemma unique_column_rows:
  assumes "db_ok balotly_schema db" "t \<in> set registry" "unique_col t c"
  shows "length (filter (\<lambda>y. y c \<noteq> Null \<and> y c = v) (db (md_table t))) \<le> 1"
proof -
  have "unique_ok ([c], None) (db (md_table t))"
    using table_ok_unique[OF model_table_ok[OF assms(1,2)]] assms(3) by (simp add: unique_col_def metadata_table_parts)
  then show ?thesis by (rule unique_ok_count[where ks = "[v]"]) (auto simp: indexed_def key_of_def)
qed

lemma find_model_registry: "find_model c = Some t \<Longrightarrow> t \<in> set registry \<and> md_class t = c"
  by (auto simp: find_model_def find_Some_iff)

lemma possible_joins_fk:
  "ManyToOne fk \<in> set (possible_joins m t r) \<Longrightarrow> fk \<in> set (model_fks m) \<and> fk_target fk = md_table t"
  "OneToMany fk \<in> set (possible_joins m t r) \<Longrightarrow> fk \<in> set (model_fks t) \<and> fk_target fk = md_table m"
  by (auto simp: possible_joins_def)

lemma join_of_possible:
  assumes "join_of m r = Inr j" "find_model (r_target r) = Some t"
  shows "possible_joins m t r = [j]"
  using assms by (auto simp: join_of_def split: list.splits)

text \<open>A required column finds its target, because the foreign key holds.\<close>

lemma target_exists:
  assumes "db_ok balotly_schema db" "m \<in> set registry" "x \<in> set (db (md_table m))"
    and "fk \<in> set (model_fks m)" "x (fk_col fk) \<noteq> Null"
  shows "\<exists>y \<in> set (db (fk_target fk)). y (fk_target_col fk) = x (fk_col fk)"
proof -
  have "fk_ok db fk x"
    using table_ok_fk[OF model_table_ok[OF assms(1,2)]] assms(3,4) by (simp add: metadata_table_parts)
  then show ?thesis using assms(5) by (auto simp: fk_ok_def list_ex_iff)
qed

lemma loads_promised:
  assumes ok: "db_ok balotly_schema db" and m: "m \<in> set registry" and x: "x \<in> set (db (md_table m))"
    and r: "r \<in> set (md_relations m)"
  shows "\<exists>v. load db m r x = Inr v \<and> promised_load (r_arity r) v"
proof -
  obtain t j where t: "find_model (r_target r) = Some t" and j: "join_of m r = Inr j"
    using relations_sound[OF m r] by (auto simp: relation_sound_def split: option.splits sum.splits)
  note sound = relations_sound[OF m r, unfolded relation_sound_def t j, simplified]
  have tr: "t \<in> set registry" using find_model_registry[OF t] by simp
  show ?thesis
  proof (cases j)
    case (ManyToOne fk)
    let ?ys = "join_rows db (md_table m) (md_table t) j x"
    have fk: "fk \<in> set (model_fks m)" "fk_target fk = md_table t"
      using possible_joins_fk(1)[of fk m t r] join_of_possible[OF j t] ManyToOne by auto
    have "length (filter (\<lambda>y. y (fk_target_col fk) \<noteq> Null \<and> y (fk_target_col fk) = x (fk_col fk)) (db (md_table t))) \<le> 1"
      using unique_column_rows[OF ok tr] sound ManyToOne by simp
    then have "length ?ys \<le> 1"
      by (rule order_trans[rotated]) (auto simp: join_rows_def ManyToOne intro!: length_filter_mono)
    moreover have "?ys \<noteq> []" if "r_arity r = ToOne"
      using target_exists[OF ok m x fk(1)] required_column[OF ok m x] sound that ManyToOne fk(2)
      by (force simp: join_rows_def filter_empty_conv)
    ultimately show ?thesis using sound ManyToOne t j length_le_one[of ?ys]
      by (cases "r_arity r") (auto simp: load_def gives_list_def Let_def)
  next
    case (OneToMany fk)
    let ?ys = "join_rows db (md_table m) (md_table t) j x"
    have "length ?ys \<le> 1" if "r_arity r \<noteq> ToList"
      using unique_column_rows[OF ok tr, of "fk_col fk" "x (fk_target_col fk)"] sound OneToMany that
      by (auto simp: join_rows_def conj_commute eq_commute)
    then show ?thesis using sound OneToMany t j length_le_one[of ?ys]
      by (cases "r_arity r") (auto simp: load_def gives_list_def Let_def split: if_splits option.splits)
  qed
qed

section \<open>Both sides of a relationship\<close>

fun flip_join :: "join \<Rightarrow> join" where
  "flip_join (ManyToOne fk) = OneToMany fk"
| "flip_join (OneToMany fk) = ManyToOne fk"

definition find_relation :: "model \<Rightarrow> string \<Rightarrow> relation option" where
  "find_relation t b = List.find (\<lambda>q. r_attr q = b) (md_relations t)"

definition mirrored :: "model \<Rightarrow> relation \<Rightarrow> bool" where
  "mirrored m r = (case r_back_populates r of None \<Rightarrow> True
     | Some b \<Rightarrow> (case find_model (r_target r) of None \<Rightarrow> False
         | Some t \<Rightarrow> (case find_relation t b of None \<Rightarrow> False
             | Some q \<Rightarrow> r_target q = md_class m \<and> r_back_populates q = Some (r_attr r)
                 \<and> (case join_of m r of Inl _ \<Rightarrow> False | Inr j \<Rightarrow> join_of t q = Inr (flip_join j)))))"

text \<open>The ORM deletes exactly the objects that the database would cascade to.\<close>

definition owns_what_cascades :: "model \<Rightarrow> relation \<Rightarrow> bool" where
  "owns_what_cascades m r = (case join_of m r of Inl _ \<Rightarrow> False
     | Inr (OneToMany fk) \<Rightarrow> r_delete_orphan r = (fk_on_delete fk = Cascade)
     | Inr (ManyToOne fk) \<Rightarrow> \<not> r_delete_orphan r)"

lemma all_mirrored: "m \<in> set registry \<Longrightarrow> r \<in> set (md_relations m) \<Longrightarrow> mirrored m r \<and> owns_what_cascades m r"
  by (drule registry_cases, elim disjE)
    (auto simp: declared relation_defs mirrored_def owns_what_cascades_def find_relation_def join_of_def
      possible_joins_def admits_def)

lemma join_rows_flip:
  assumes "x \<in> set (db mt)" "y \<in> set (db tt)"
  shows "y \<in> set (join_rows db mt tt j x) \<longleftrightarrow> x \<in> set (join_rows db tt mt (flip_join j) y)"
  using assms by (cases j) (auto simp: join_rows_def)

fun loaded_rows :: "(mapper_error, loaded) result \<Rightarrow> row list" where
  "loaded_rows (Inr (One (Some y))) = [y]"
| "loaded_rows (Inr (OneOfSeveral y)) = [y]"
| "loaded_rows (Inr (Many ys)) = ys"
| "loaded_rows _ = []"

lemma loaded_join_rows:
  assumes "load db m r x = Inr v" "promised_load (r_arity r) v" "find_model (r_target r) = Some t" "join_of m r = Inr j"
  shows "loaded_rows (load db m r x) = join_rows db (md_table m) (md_table t) j x"
  using assms by (cases "r_arity r") (auto simp: load_def Let_def split: if_splits list.splits)

lemma find_relation_in: "find_relation t b = Some q \<Longrightarrow> q \<in> set (md_relations t)"
  by (auto simp: find_relation_def find_Some_iff)

lemma back_populated:
  assumes "m \<in> set registry" "r \<in> set (md_relations m)" "r_back_populates r = Some b"
  shows "\<exists>t q j. find_model (r_target r) = Some t \<and> find_relation t b = Some q \<and> find_model (r_target q) = Some m
     \<and> join_of m r = Inr j \<and> join_of t q = Inr (flip_join j)"
proof -
  obtain t q j where "find_model (r_target r) = Some t" "find_relation t b = Some q" "r_target q = md_class m"
      "join_of m r = Inr j" "join_of t q = Inr (flip_join j)"
    using all_mirrored[OF assms(1,2)] assms(3) by (auto simp: mirrored_def split: option.splits sum.splits)
  moreover have "find_model (md_class m) = Some m"
    using registry_cases[OF assms(1)] by (elim disjE) (simp_all add: declared)
  ultimately show ?thesis by auto
qed

section \<open>Properties\<close>

text \<open>C9: What is stored is what the annotations promise. Whatever statements have run, every column
  attribute of every stored object reads as a value of the Python type of its annotation, and as
  \<open>None\<close> only where the annotation is \<open>Optional\<close>; every relationship joins along exactly one foreign
  key and loads one existing object, at most one, or a list, as annotated. In particular a candidate
  never has two subaccounts.\<close>

theorem attributes_load_as_annotated:
  assumes "db = history balotly_schema empty_db es" and "m \<in> set registry" and "x \<in> set (db (md_table m))"
  shows "(\<forall>c \<in> set (all_columns m). promised (m_annotation c) (x (m_name c)))
     \<and> (\<forall>r \<in> set (md_relations m). \<exists>v. load db m r x = Inr v \<and> promised_load (r_arity r) v)"
proof -
  have "db_ok balotly_schema db" by (simp add: assms(1) reachable_ok)
  then show ?thesis using stored_column loads_promised assms(2,3) by blast
qed

theorem attributes_load_as_annotated_witness:
  "\<exists>x. demo_db ''votes'' = [x] \<and> promised (Mapped PyUUID) (x ''id'')
     \<and> (\<exists>v. load demo_db vote_model (relates ''transaction'' ToOne ''Transaction'' ''votes'') x = Inr v
          \<and> promised_load ToOne v)"
proof -
  obtain x where x: "demo_db ''votes'' = [x]" using demo_votes by blast
  have "uuid_key \<in> set (all_columns vote_model)"
    "relates ''transaction'' ToOne ''Transaction'' ''votes'' \<in> set (md_relations vote_model)"
    by (simp_all add: all_columns_def vote_model_def)
  then show ?thesis
    using attributes_load_as_annotated[OF demo_db_def in_registry(9), of x] x
    by (fastforce simp: table_names uuid_key_def mcol_def relates_def)
qed

text \<open>C10: The object graph is consistent: for a relationship with \<open>back_populates\<close>, an object is among
  those that one side loads if and only if the other side of that object loads the first, in every
  database that statements can reach. Both sides follow the same foreign key.\<close>

theorem both_sides_agree:
  assumes "db = history balotly_schema empty_db es" and "m \<in> set registry" and "r \<in> set (md_relations m)"
    and "r_back_populates r = Some b" and "x \<in> set (db (md_table m))"
  shows "\<exists>t q. find_model (r_target r) = Some t \<and> find_relation t b = Some q
     \<and> (\<forall>y \<in> set (db (md_table t)).
          (y \<in> set (loaded_rows (load db m r x))) = (x \<in> set (loaded_rows (load db t q y))))"
proof -
  have ok: "db_ok balotly_schema db" by (simp add: assms(1) reachable_ok)
  obtain t q j where t: "find_model (r_target r) = Some t" "join_of m r = Inr j"
    and q: "find_relation t b = Some q" "find_model (r_target q) = Some m" "join_of t q = Inr (flip_join j)"
    using back_populated[OF assms(2-4)] by blast
  have tr: "t \<in> set registry" "q \<in> set (md_relations t)"
    using find_model_registry[OF t(1)] find_relation_in[OF q(1)] by auto
  have "loaded_rows (load db m r x) = join_rows db (md_table m) (md_table t) j x"
    using loads_promised[OF ok assms(2,5,3)] loaded_join_rows[OF _ _ t] by blast
  moreover have "loaded_rows (load db t q y) = join_rows db (md_table t) (md_table m) (flip_join j) y"
    if "y \<in> set (db (md_table t))" for y
    using loads_promised[OF ok tr(1) that tr(2)] loaded_join_rows[OF _ _ q(2,3)] by blast
  ultimately have "\<forall>y \<in> set (db (md_table t)).
      (y \<in> set (loaded_rows (load db m r x))) = (x \<in> set (loaded_rows (load db t q y)))"
    using join_rows_flip[where db = db and j = j, OF assms(5)] by simp
  then show ?thesis using t(1) q(1) by blast
qed

theorem both_sides_agree_witness:
  "\<exists>x q. demo_db ''votes'' = [x] \<and> find_relation candidate_model ''votes'' = Some q
     \<and> (\<forall>y \<in> set (demo_db ''candidates''). (x \<in> set (loaded_rows (load demo_db candidate_model q y)))
          = (y \<in> set (loaded_rows (load demo_db vote_model (relates ''candidate'' ToOne ''Candidate'' ''votes'') x))))"
proof -
  obtain x where x: "demo_db ''votes'' = [x]" using demo_votes by blast
  let ?r = "relates ''candidate'' ToOne ''Candidate'' ''votes''"
  have "?r \<in> set (md_relations vote_model)" "r_back_populates ?r = Some ''votes''" "x \<in> set (demo_db (md_table vote_model))"
    "find_model (r_target ?r) = Some candidate_model" "md_table candidate_model = ''candidates''"
    by (simp_all add: vote_model_def relates_def declared x)
  then show ?thesis using both_sides_agree[OF demo_db_def in_registry(9), of ?r "''votes''" x] x by auto
qed

text \<open>The relationships are coherent: every \<open>back_populates\<close> names an attribute of the other class that
  points back along the same foreign key, and \<open>cascade="all, delete-orphan"\<close> stands on exactly the
  collections whose foreign key says \<open>ON DELETE CASCADE\<close>; the ORM never deletes what the database would keep.\<close>

theorem relationships_coherent:
  "list_all (\<lambda>m. list_all (\<lambda>r. mirrored m r \<and> owns_what_cascades m r) (md_relations m)) registry"
  using all_mirrored by (simp add: list_all_iff)

end
