(* ===== verification/Reprs.thy ===== *)
theory Reprs
  imports Mapper
begin

text \<open>
  The \<open>__repr__\<close> methods of the models: what a stored object shows of itself when it is printed, in a
  log line or in the text of an error. Each is an f-string: literal text with attributes in between,
  rendered by \<open>str\<close>. The contributing guide forbids logging a secret or an account number; this theory
  shows that no representation depends on one.
\<close>

section \<open>\<open>str\<close> of a stored value\<close>

definition hex_digit :: "nat \<Rightarrow> nat" where
  "hex_digit d = (if d < 10 then 48 + d else 87 + d)"

definition uuid_str :: "nat \<Rightarrow> pystr" where
  "uuid_str n = (let h = map (\<lambda>i. hex_digit (n div 16 ^ (31 - i) mod 16)) [0..<32] in
     take 8 h @ 45 # take 4 (drop 8 h) @ 45 # take 4 (drop 12 h) @ 45 # take 4 (drop 16 h) @ 45 # drop 20 h)"

text \<open>\<open>None\<close> stands for the types that no representation shows.\<close>

fun py_str :: "sval \<Rightarrow> pystr option" where
  "py_str Null = Some (lit ''None'')"
| "py_str (VText s) = Some s"
| "py_str (VInt i) = Some (int_str i)"
| "py_str (VUuid n) = Some (uuid_str n)"
| "py_str (VBool b) = Some (lit (if b then ''True'' else ''False''))"
| "py_str _ = None"

section \<open>f-strings\<close>

datatype part = Txt string | Attr string

primrec render :: "part list \<Rightarrow> row \<Rightarrow> pystr option" where
  "render [] x = Some []"
| "render (p # ps) x = (case (case p of Txt s \<Rightarrow> Some (lit s) | Attr a \<Rightarrow> py_str (x a)) of None \<Rightarrow> None
     | Some t \<Rightarrow> map_option (\<lambda>u. t @ u) (render ps x))"

definition attrs :: "part list \<Rightarrow> string list" where
  "attrs ps = concat (map (\<lambda>p. case p of Txt _ \<Rightarrow> [] | Attr a \<Rightarrow> [a]) ps)"

definition organization_repr :: "part list" where
  "organization_repr = [Txt ''<Organization '', Attr ''name'', Txt ''>'']"

definition user_repr :: "part list" where
  "user_repr = [Txt ''<User '', Attr ''email'', Txt '' '', Attr ''role'', Txt ''>'']"

definition contest_repr :: "part list" where
  "contest_repr = [Txt ''<Contest '', Attr ''name'', Txt '' '', Attr ''status'', Txt ''>'']"

definition category_repr :: "part list" where
  "category_repr = [Txt ''<Category '', Attr ''name'', Txt ''>'']"

definition candidate_repr :: "part list" where
  "candidate_repr = [Txt ''<Candidate '', Attr ''slug'', Txt '' '', Attr ''status'', Txt ''>'']"

definition vote_package_repr :: "part list" where
  "vote_package_repr = [Txt ''<VotePackage '', Attr ''label'', Txt '' '', Attr ''amount_kobo'', Txt ''k='', Attr ''vote_count'', Txt ''>'']"

definition subaccount_repr :: "part list" where
  "subaccount_repr = [Txt ''<Subaccount candidate='', Attr ''candidate_id'', Txt '' '', Attr ''status'', Txt ''>'']"

definition transaction_repr :: "part list" where
  "transaction_repr = [Txt ''<Transaction '', Attr ''paystack_reference'', Txt '' '', Attr ''status'', Txt ''>'']"

definition vote_repr :: "part list" where
  "vote_repr = [Txt ''<Vote candidate='', Attr ''candidate_id'', Txt '' tx='', Attr ''transaction_id'', Txt ''>'']"

definition settlement_repr :: "part list" where
  "settlement_repr = [Txt ''<Settlement candidate='', Attr ''candidate_id'', Txt '' '', Attr ''status'', Txt '' '',
     Attr ''amount_kobo'', Txt ''>'']"

definition repr_parts :: "(string \<times> part list) list" where
  "repr_parts = [(''Organization'', organization_repr), (''User'', user_repr), (''Contest'', contest_repr),
     (''Category'', category_repr), (''Candidate'', candidate_repr), (''VotePackage'', vote_package_repr),
     (''Subaccount'', subaccount_repr), (''Transaction'', transaction_repr), (''Vote'', vote_repr),
     (''Settlement'', settlement_repr)]"

definition repr_of :: "model \<Rightarrow> row \<Rightarrow> pystr option" where
  "repr_of m x = (case map_of repr_parts (md_class m) of None \<Rightarrow> None | Some ps \<Rightarrow> render ps x)"

section \<open>What must not be shown\<close>

text \<open>Credentials, bank details and what identifies a voter.\<close>

definition withheld :: "string list" where
  "withheld = [''password_hash'', ''account_number_encrypted'', ''bank_code'', ''account_name'', ''subaccount_code'',
     ''voter_matric_number'', ''voter_phone'', ''matric_number'', ''contact_email'', ''contact_phone'']"

definition same_public :: "row \<Rightarrow> row \<Rightarrow> bool" where
  "same_public x y \<longleftrightarrow> (\<forall>c. c \<notin> set withheld \<longrightarrow> x c = y c)"

lemma attrs_Cons: "attrs (Txt s # ps) = attrs ps" "attrs (Attr a # ps) = a # attrs ps" "attrs [] = []"
  by (simp_all add: attrs_def)

lemma render_cong: "(\<And>a. a \<in> set (attrs ps) \<Longrightarrow> x a = y a) \<Longrightarrow> render ps x = render ps y"
proof (induction ps)
  case (Cons p ps)
  then show ?case by (cases p) (simp_all add: attrs_Cons split: option.splits)
qed simp

lemma render_total: "(\<And>a. a \<in> set (attrs ps) \<Longrightarrow> py_str (x a) \<noteq> None) \<Longrightarrow> \<exists>t. render ps x = Some t"
proof (induction ps)
  case (Cons p ps)
  then obtain t where "render ps x = Some t" by (cases p) (auto simp: attrs_Cons)
  moreover have "\<exists>u. py_str (x a) = Some u" if "p = Attr a" for a
    using Cons.prems[of a] that by (auto simp: attrs_Cons)
  ultimately show ?case by (cases p) auto
qed simp

lemma render_snoc: "render (ps @ [Txt s]) x = map_option (\<lambda>t. t @ lit s) (render ps x)"
  by (induction ps) (auto simp: lit_simps option.map_comp comp_def split: option.splits)

text \<open>The attributes shown are columns of three types, all of them required and none withheld; the text
  around them is \<open><Class ...>\<close>.\<close>

definition shows_column :: "model \<Rightarrow> string \<Rightarrow> bool" where
  "shows_column m a = (list_ex (\<lambda>c. m_name c = a \<and> m_annotation c \<in> {Mapped PyStr, Mapped PyInt, Mapped PyUUID})
     (all_columns m) \<and> a \<notin> set withheld)"

lemmas repr_defs = organization_repr_def user_repr_def contest_repr_def category_repr_def candidate_repr_def
  vote_package_repr_def subaccount_repr_def transaction_repr_def vote_repr_def settlement_repr_def

lemma repr_shape:
  assumes "m \<in> set registry"
  shows "\<exists>ps s. map_of repr_parts (md_class m) = Some (Txt (''<'' @ md_class m @ '' '' @ s) # ps @ [Txt ''>''])
     \<and> (\<forall>a \<in> set (attrs ps). shows_column m a)"
  using registry_cases[OF assms]
  by (elim disjE) (simp_all add: repr_parts_def class_names repr_defs attrs_Cons shows_column_def withheld_def
      all_columns_def model_defs mcol_defs)

lemma shown_value:
  assumes "db_ok balotly_schema db" "m \<in> set registry" "x \<in> set (db (md_table m))" "shows_column m a"
  shows "py_str (x a) \<noteq> None"
proof -
  obtain c where "c \<in> set (all_columns m)" "m_name c = a" "m_annotation c \<in> {Mapped PyStr, Mapped PyInt, Mapped PyUUID}"
    using assms(4) by (auto simp: shows_column_def list_ex_iff)
  then have "py_type_of (x a) \<in> {Some PyStr, Some PyInt, Some PyUUID}" using stored_column[OF assms(1-3)] by fastforce
  then show ?thesis by (cases "x a") auto
qed

section \<open>Properties\<close>

text \<open>C36: Printing an object is safe. Whatever statements have run, \<open>repr\<close> of every stored object is defined,
  begins with its class in angle brackets and shows no \<open>None\<close>; and it gives away no credential, no bank
  detail and nothing that identifies a voter: two objects that differ only in such columns print alike.\<close>

theorem repr_reveals_nothing_withheld:
  assumes "db = history balotly_schema empty_db es" and "m \<in> set registry" and "x \<in> set (db (md_table m))"
    and "same_public x y"
  shows "repr_of m y = repr_of m x \<and> (\<exists>t. repr_of m x = Some (lit (''<'' @ md_class m @ '' '') @ t @ lit ''>''))"
proof -
  have ok: "db_ok balotly_schema db" by (simp add: assms(1) reachable_ok)
  obtain ps s where ps: "map_of repr_parts (md_class m) = Some (Txt (''<'' @ md_class m @ '' '' @ s) # ps @ [Txt ''>''])"
    and shown: "\<forall>a \<in> set (attrs ps). shows_column m a"
    using repr_shape[OF assms(2)] by blast
  have "render ps x = render ps y"
    using shown assms(4) by (intro render_cong) (auto simp: shows_column_def same_public_def)
  moreover have "\<exists>t. render ps x = Some t" by (rule render_total) (use shown shown_value[OF ok assms(2,3)] in blast)
  ultimately show ?thesis using ps by (auto simp: repr_of_def render_snoc lit_def)
qed

theorem repr_reveals_nothing_withheld_witness:
  "\<exists>x. demo_db ''transactions'' = [x]
     \<and> repr_of transaction_model (x(''voter_phone'' := VText (lit ''0800''))) = Some (lit ''<Transaction r pending>'')"
proof -
  obtain x where x: "demo_db ''transactions'' = [x]" "x ''paystack_reference'' = VText (lit ''r'')"
    "x ''status'' = VText (lit ''pending'')" using demo_transactions by blast
  have "same_public x (x(''voter_phone'' := VText (lit ''0800'')))" by (simp add: same_public_def withheld_def)
  moreover have "repr_of transaction_model x = Some (lit ''<Transaction r pending>'')"
    by (simp add: repr_of_def repr_parts_def transaction_repr_def class_names x(2,3) lit_simps)
  ultimately show ?thesis
    using repr_reveals_nothing_withheld[OF demo_db_def in_registry(8), of x] x by (auto simp: table_names)
qed

end
