(* ===== verification/OrmWrite.thy ===== *)
theory OrmWrite
  imports Mapper
begin

text \<open>
  Writing through the ORM: what SQLAlchemy makes of the values that the code gives. On an insertion an
  attribute that is \<open>None\<close> counts as not set; \<open>default=\<close> applies to the columns that are not set, a
  column with a default of the server alone is left to it, and any other column that is not set is sent
  as \<open>NULL\<close>. On an update every changed attribute is sent, \<open>None\<close> as \<open>NULL\<close>, and the columns with
  \<open>onupdate=func.now()\<close> are set. This theory compares that with the same statement in raw SQL.
\<close>

section \<open>The statements\<close>

text \<open>\<open>u\<close> is the identifier that \<open>uuid.uuid4\<close> draws.\<close>

definition default_of :: "nat \<Rightarrow> client_default \<Rightarrow> sval" where
  "default_of u d = (case client_value d of Some v \<Rightarrow> v | None \<Rightarrow> VUuid u)"

definition client_defaults :: "model \<Rightarrow> nat \<Rightarrow> (string \<times> sval) list" where
  "client_defaults m u = concat (map (\<lambda>c. case m_default c of None \<Rightarrow> [] | Some d \<Rightarrow> [(m_name c, default_of u d)])
     (all_columns m))"

definition missing :: "(string \<times> sval) list \<Rightarrow> (string \<times> sval) list \<Rightarrow> (string \<times> sval) list" where
  "missing vals ds = filter (\<lambda>d. fst d \<notin> fst ` set vals) ds"

text \<open>\<open>vals\<close> are the attributes of the object, one entry each.\<close>

definition not_none :: "(string \<times> sval) list \<Rightarrow> (string \<times> sval) list" where
  "not_none vals = filter (\<lambda>d. snd d \<noteq> Null) vals"

definition sent_as_null :: "model \<Rightarrow> (string \<times> sval) list" where
  "sent_as_null m = map (\<lambda>c. (m_name c, Null)) (filter (\<lambda>c. m_default c = None \<and> m_server_default c = None) (all_columns m))"

definition orm_values :: "model \<Rightarrow> nat \<Rightarrow> (string \<times> sval) list \<Rightarrow> (string \<times> sval) list" where
  "orm_values m u vals =
     not_none vals @ missing (not_none vals) (client_defaults m u) @ missing (not_none vals) (sent_as_null m)"

definition orm_insert :: "model \<Rightarrow> nat \<Rightarrow> (string \<times> sval) list \<Rightarrow> stmt" where
  "orm_insert m u vals = Insert (md_table m) (orm_values m u vals)"

definition touched :: "model \<Rightarrow> int \<Rightarrow> (string \<times> sval) list" where
  "touched m now = map (\<lambda>c. (m_name c, VTime now)) (filter m_onupdate_now (all_columns m))"

definition orm_update :: "model \<Rightarrow> int \<Rightarrow> (row \<Rightarrow> bool) \<Rightarrow> (row \<Rightarrow> (string \<times> sval) list) \<Rightarrow> stmt" where
  "orm_update m now P f = Update (md_table m) P (\<lambda>r. f r @ missing (f r) (touched m now))"

section \<open>Redundant assignments\<close>

lemma assign_append: "assign t (vals @ ws) r = res_bind (assign t vals r) (assign t ws)"
  unfolding assign_def by (rule res_fold_append)

text \<open>A value that the row holds already and that its column stores as it is.\<close>

definition holds_already :: "table \<Rightarrow> row \<Rightarrow> string \<times> sval \<Rightarrow> bool" where
  "holds_already t r d = (r (fst d) = snd d \<and>
     (case List.find (\<lambda>k. cname k = fst d) (tcolumns t) of None \<Rightarrow> False | Some k \<Rightarrow> has_type (ctype k) (snd d)))"

lemma assign_redundant: "list_all (holds_already t r) ds \<Longrightarrow> assign t ds r = Inr r"
proof (induction ds)
  case (Cons d ds)
  then obtain k where "List.find (\<lambda>k. cname k = fst d) (tcolumns t) = Some k" "has_type (ctype k) (snd d)" "r (fst d) = snd d"
    by (auto simp: holds_already_def split: option.splits)
  then show ?case using Cons by (cases d) (auto simp: assign_Cons coerce_id fun_upd_idem)
qed (simp add: assign_Nil)

lemma assign_then_redundant:
  assumes "list_all (holds_already t r) ds" and "fst ` set ds \<inter> fst ` set vals = {}"
  shows "assign t (vals @ ds) r = assign t vals r"
proof (cases "assign t vals r")
  case (Inr r')
  have "r' (fst d) = r (fst d)" if "d \<in> set ds" for d
    using assign_other[OF Inr, of "fst d"] assms(2) that by blast
  then have "list_all (holds_already t r') ds"
    using assms(1) by (simp add: list_all_iff holds_already_def)
  then show ?thesis by (simp add: assign_append Inr assign_redundant)
qed (simp add: assign_append)

section \<open>The tables of the models\<close>

lemma same_items_distinct:
  assumes "same_items xs ys" "distinct (map f xs)"
  shows "distinct (map f ys)"
proof -
  have "card (set (map f ys)) = card (set (map f xs))" using same_items_set[OF assms(1)] by simp
  also have "\<dots> = length (map f ys)" using distinct_card[OF assms(2)] assms(1) by (simp add: same_items_def)
  finally show ?thesis by (rule card_distinct)
qed

lemma find_distinct: "distinct (map f xs) \<Longrightarrow> x \<in> set xs \<Longrightarrow> List.find (\<lambda>k. f k = f x) xs = Some x"
  by (induction xs) (auto simp: image_iff)

lemma column_names_distinct: "m \<in> set registry \<Longrightarrow> distinct (map m_name (all_columns m))"
  by (drule registry_cases, elim disjE) (simp_all add: all_columns_def model_defs mcol_defs)

lemma model_table:
  assumes "m \<in> set registry"
  obtains t where "find_table balotly_schema (md_table m) = Some t" and "tname t = md_table m"
    and "\<And>c. c \<in> set (all_columns m) \<Longrightarrow> List.find (\<lambda>k. cname k = m_name c) (tcolumns t) = Some (table_column c)"
proof -
  have "metadata_table m \<in> set (s_tables metadata)" using assms by (simp add: metadata_def)
  then obtain t where t: "t \<in> set (s_tables balotly_schema)" and same: "same_table (metadata_table m) t"
    using metadata_matches by (metis list_all2_iff in_set_impl_in_set_zip1 case_prodD in_set_zipE)
  have name: "tname t = md_table m" using same by (simp add: same_table_def metadata_table_parts)
  have cols: "same_items (map table_column (all_columns m)) (tcolumns t)"
    using same by (simp add: same_table_def metadata_table_parts)
  have dist: "distinct (map cname (tcolumns t))"
    by (rule same_items_distinct[OF cols]) (use column_names_distinct[OF assms] in \<open>simp add: comp_def table_column_def\<close>)
  have "List.find (\<lambda>k. cname k = m_name c) (tcolumns t) = Some (table_column c)" if "c \<in> set (all_columns m)" for c
    using find_distinct[OF dist, of "table_column c"] same_items_set[OF cols] that by (auto simp: table_column_def)
  then show ?thesis using that t name find_table_Some[OF balotly_names] by blast
qed

text \<open>The client defaults: the identifier, and values that the server defaults store as well.\<close>

definition default_redundant :: "mapped_col \<Rightarrow> bool" where
  "default_redundant c = (case m_default c of None \<Rightarrow> True
     | Some d \<Rightarrow> (case client_value d of None \<Rightarrow> m_name c = ''id''
         | Some v \<Rightarrow> map_option (server_value (m_type c)) (m_server_default c) = Some (DefaultLit v) \<and> has_type (m_type c) v))"

lemma defaults_redundant: "m \<in> set registry \<Longrightarrow> list_all default_redundant (all_columns m)"
  by (drule registry_cases, elim disjE)
    (simp_all add: all_columns_def model_defs mcol_defs default_redundant_def client_value_def server_value_def
      has_type_def text_storable_def lit_simps)

lemma identifier_default:
  assumes "m \<in> set registry"
  obtains cs where "all_columns m = uuid_key # cs"
  using registry_cases[OF assms] by (elim disjE) (auto simp: all_columns_def model_defs base_columns_def)

lemma set_case_option: "p \<in> set (case x of None \<Rightarrow> [] | Some d \<Rightarrow> [g d]) \<longleftrightarrow> (\<exists>d. x = Some d \<and> p = g d)"
  by (cases x) auto

lemma client_defaults_iff:
  "p \<in> set (client_defaults m u) \<longleftrightarrow>
     (\<exists>k \<in> set (all_columns m). \<exists>d. m_default k = Some d \<and> p = (m_name k, default_of u d))"
  by (simp add: client_defaults_def set_case_option eq_commute[of "Some _"])

lemma client_default_held:
  assumes "m \<in> set registry" and "(c, v) \<in> set (client_defaults m u)" and "c \<noteq> ''id''"
    and "find_table balotly_schema (md_table m) = Some t"
  shows "holds_already t (default_row t now) (c, v)"
proof -
  obtain k d where k: "k \<in> set (all_columns m)" "m_default k = Some d" "c = m_name k" "v = default_of u d"
    using assms(2) by (auto simp: client_defaults_iff)
  have "default_redundant k" using defaults_redundant[OF assms(1)] k(1) by (simp add: list_all_iff)
  then have lit: "map_option (server_value (m_type k)) (m_server_default k) = Some (DefaultLit v)" "has_type (m_type k) v"
    using k assms(3) by (auto simp: default_redundant_def default_of_def split: option.splits)
  obtain t' where "find_table balotly_schema (md_table m) = Some t'"
    "List.find (\<lambda>j. cname j = m_name k) (tcolumns t') = Some (table_column k)"
    using model_table[OF assms(1)] k(1) by metis
  then have "List.find (\<lambda>j. cname j = c) (tcolumns t) = Some (table_column k)" using assms(4) k(3) by simp
  then show ?thesis using lit by (simp add: holds_already_def default_row_def default_value_def table_column_def)
qed

lemma client_defaults_id:
  assumes "m \<in> set registry"
  shows "\<exists>ds. client_defaults m u = (''id'', VUuid u) # ds \<and> (\<forall>d \<in> set ds. fst d \<noteq> ''id'')"
proof -
  obtain cs where cs: "all_columns m = uuid_key # cs" by (rule identifier_default[OF assms])
  let ?ds = "concat (map (\<lambda>c. case m_default c of None \<Rightarrow> [] | Some d \<Rightarrow> [(m_name c, default_of u d)]) cs)"
  have "client_defaults m u = (''id'', VUuid u) # ?ds"
    by (simp add: client_defaults_def cs uuid_key_def mcol_def default_of_def client_value_def)
  moreover have "\<forall>d \<in> set ?ds. fst d \<noteq> ''id''"
    using column_names_distinct[OF assms] by (auto simp: cs uuid_key_def mcol_def image_iff set_case_option)
  ultimately show ?thesis by blast
qed

text \<open>A column without any default holds \<open>NULL\<close> already.\<close>

lemma sent_as_null_held:
  assumes "m \<in> set registry" and "d \<in> set (sent_as_null m)" and t: "find_table balotly_schema (md_table m) = Some t"
  shows "holds_already t (default_row t now) d" and "fst d \<noteq> ''id''"
proof -
  obtain k where k: "k \<in> set (all_columns m)" "d = (m_name k, Null)" "m_default k = None" "m_server_default k = None"
    using assms(2) by (auto simp: sent_as_null_def)
  obtain t' where "find_table balotly_schema (md_table m) = Some t'"
    "List.find (\<lambda>j. cname j = m_name k) (tcolumns t') = Some (table_column k)"
    using model_table[OF assms(1)] k(1) by metis
  then have "List.find (\<lambda>j. cname j = m_name k) (tcolumns t) = Some (table_column k)" using t by simp
  then show "holds_already t (default_row t now) d"
    using k(2,4) by (simp add: holds_already_def default_row_def default_value_def table_column_def has_type_def)
  obtain cs where cs: "all_columns m = uuid_key # cs" by (rule identifier_default[OF assms(1)])
  have "k \<noteq> uuid_key" using k(3) by (auto simp: uuid_key_def mcol_def)
  then show "fst d \<noteq> ''id''"
    using k(1,2) column_names_distinct[OF assms(1)] by (auto simp: cs uuid_key_def mcol_def image_iff)
qed

text \<open>The values of the plain statement.\<close>

definition plain_values :: "nat \<Rightarrow> (string \<times> sval) list \<Rightarrow> (string \<times> sval) list" where
  "plain_values u vals =
     (if ''id'' \<in> fst ` set (not_none vals) then not_none vals else not_none vals @ [(''id'', VUuid u)])"

lemma orm_insert_assign:
  assumes "m \<in> set registry" and t: "find_table balotly_schema (md_table m) = Some t"
  shows "assign t (orm_values m u vals) (default_row t now) = assign t (plain_values u vals) (default_row t now)"
proof -
  let ?g = "not_none vals"
  obtain ds where ds: "client_defaults m u = (''id'', VUuid u) # ds" "\<forall>d \<in> set ds. fst d \<noteq> ''id''"
    using client_defaults_id[OF assms(1)] by blast
  let ?rest = "missing ?g ds @ missing ?g (sent_as_null m)"
  have "holds_already t (default_row t now) d" if "d \<in> set ?rest" for d
  proof -
    from that have "d \<in> set ds \<or> d \<in> set (sent_as_null m)" by (auto simp: missing_def)
    then show ?thesis
      using client_default_held[OF assms(1) _ _ t, of "fst d" "snd d" u now] sent_as_null_held(1)[OF assms(1) _ t, of d now] ds
      by auto
  qed
  then have held: "list_all (holds_already t (default_row t now)) ?rest" by (simp add: list_all_iff)
  have no_id: "(''id'', v) \<notin> set (sent_as_null m)" for v using sent_as_null_held(2)[OF assms(1) _ t, of "(''id'', v)"] by auto
  have apart: "fst ` set ?rest \<inter> fst ` set ?g = {}" "fst ` set ?rest \<inter> fst ` set (?g @ [(''id'', VUuid u)]) = {}"
    using ds(2) no_id by (auto simp: missing_def)
  have "orm_values m u vals = plain_values u vals @ ?rest"
    by (simp add: orm_values_def plain_values_def ds(1) missing_def)
  then show ?thesis
    using assign_then_redundant[OF held apart(1)] assign_then_redundant[OF held apart(2)]
    by (simp add: plain_values_def)
qed

lemma update_rows:
  assumes "exec balotly_schema now (Update n P f) db = Inr db'" and "find_table balotly_schema n = Some t"
  shows "list_all2 (\<lambda>r r'. if P r then assign t (f r) r = Inr r' else r' = r) (db n) (db' n)"
  using assms by (auto simp: exec_Inr res_map_Inr_iff elim!: list_all2_mono)

section \<open>Properties\<close>

text \<open>C25: Inserting through the ORM is inserting with SQL what was set: an object added by the ORM is
  accepted or refused exactly as, and leaves the database exactly as, the plain \<open>INSERT\<close> of its
  attributes that are not \<open>None\<close>, with the identifier drawn where none was set. The client defaults never
  decide anything that the server defaults would not. An attribute that was set to \<open>None\<close> is therefore no
  \<open>NULL\<close>: where the column has a default, that is stored.\<close>

theorem orm_insert_is_plain_insert:
  assumes "m \<in> set registry"
  shows "exec balotly_schema now (orm_insert m u vals) db
       = exec balotly_schema now (Insert (md_table m) (plain_values u vals)) db
     \<and> exec balotly_schema now (orm_insert m u (vals @ [(c, Null)])) db = exec balotly_schema now (orm_insert m u vals) db"
proof -
  obtain t where t: "find_table balotly_schema (md_table m) = Some t" using model_table[OF assms] by blast
  have "orm_values m u (vals @ [(c, Null)]) = orm_values m u vals" by (simp add: orm_values_def not_none_def)
  then show ?thesis
    by (simp only: orm_insert_def exec_def apply_stmt.simps t option.simps orm_insert_assign[OF assms t] simp_thms)
qed

theorem orm_insert_is_plain_insert_witness:
  "exec balotly_schema 9 (orm_insert vote_model 10 [(''id'', Null), (''transaction_id'', VUuid 7), (''candidate_id'', VUuid 4)]) demo_db
     = exec balotly_schema 9 (Insert ''votes'' [(''transaction_id'', VUuid 7), (''candidate_id'', VUuid 4), (''id'', VUuid 10)]) demo_db"
  using orm_insert_is_plain_insert[OF in_registry(9), of 9 10
      "[(''id'', Null), (''transaction_id'', VUuid 7), (''candidate_id'', VUuid 4)]" demo_db]
  by (simp add: table_names plain_values_def not_none_def)

text \<open>C26: \<open>updated_at\<close> is kept by the ORM alone: an update through the ORM that does not set it sets it to the
  time of the statement in exactly the rows it selects, and leaves the others as they are; the same
  update in raw SQL leaves the old time in every row, although the model's docstring promises correct
  timestamps for rows written outside the ORM.\<close>

theorem updated_at_needs_the_orm:
  assumes "m \<in> set registry" and "md_base m" and "\<forall>r. ''updated_at'' \<notin> fst ` set (f r)"
    and "exec balotly_schema now (orm_update m now P f) db = Inr by_orm"
    and "exec balotly_schema now (Update (md_table m) P f) db = Inr by_sql"
  shows "list_all2 (\<lambda>r r'. if P r then r' ''updated_at'' = VTime now else r' = r) (db (md_table m)) (by_orm (md_table m))
     \<and> list_all2 (\<lambda>r r'. r' ''updated_at'' = r ''updated_at'') (db (md_table m)) (by_sql (md_table m))"
proof
  obtain t where t: "find_table balotly_schema (md_table m) = Some t"
    "\<And>c. c \<in> set (all_columns m) \<Longrightarrow> List.find (\<lambda>k. cname k = m_name c) (tcolumns t) = Some (table_column c)"
    using model_table[OF assms(1)] by blast
  have touched: "touched m now = [(''updated_at'', VTime now)]"
    using registry_cases[OF assms(1)] assms(2)
    by (elim disjE) (simp_all add: touched_def all_columns_def model_defs mcol_defs)
  have time: "\<exists>k. List.find (\<lambda>k. cname k = ''updated_at'') (tcolumns t) = Some k \<and> ctype k = TimestampTZ"
    using t(2)[of "base_columns ! 2"] assms(2) by (simp add: all_columns_def base_columns_def table_column_def mcol_def)
  have "r' ''updated_at'' = VTime now" if "assign t (f r @ missing (f r) (touched m now)) r = Inr r'" for r r'
    using that assms(3) time by (auto simp: missing_def touched assign_append assign_Cons assign_Nil coerce_def)
  then show "list_all2 (\<lambda>r r'. if P r then r' ''updated_at'' = VTime now else r' = r) (db (md_table m)) (by_orm (md_table m))"
    by (intro list_all2_mono[OF update_rows[OF assms(4)[unfolded orm_update_def] t(1)]]) (auto split: if_splits)
  show "list_all2 (\<lambda>r r'. r' ''updated_at'' = r ''updated_at'') (db (md_table m)) (by_sql (md_table m))"
    by (intro list_all2_mono[OF update_rows[OF assms(5) t(1)]]) (use assms(3) assign_other in \<open>fastforce split: if_splits\<close>)
qed

text \<open>One organization, renamed at time 5 through the ORM and by SQL.\<close>

definition demo_organization :: db where
  "demo_organization = empty_db(''organizations'' := [\<lambda>c. if c = ''id'' then VUuid 1 else if c = ''name'' then VText (lit ''A'')
     else if c = ''created_at'' \<or> c = ''updated_at'' then VTime 1 else Null])"

definition rename :: "row \<Rightarrow> (string \<times> sval) list" where
  "rename r = [(''name'', VText (lit ''B''))]"

lemma demo_renamed:
  "case exec balotly_schema 5 (orm_update organization_model 5 (\<lambda>_. True) rename) demo_organization of
     Inl _ \<Rightarrow> False | Inr d \<Rightarrow> length (d ''organizations'') = 1"
  "case exec balotly_schema 5 (Update ''organizations'' (\<lambda>_. True) rename) demo_organization of
     Inl _ \<Rightarrow> False | Inr d \<Rightarrow> length (d ''organizations'') = 1"
  unfolding balotly_schema_eq by code_simp+

theorem updated_at_needs_the_orm_witness:
  "\<exists>by_orm by_sql. exec balotly_schema 5 (orm_update organization_model 5 (\<lambda>_. True) rename) demo_organization = Inr by_orm
     \<and> exec balotly_schema 5 (Update ''organizations'' (\<lambda>_. True) rename) demo_organization = Inr by_sql
     \<and> map (\<lambda>r. r ''updated_at'') (by_orm ''organizations'') = [VTime 5]
     \<and> map (\<lambda>r. r ''updated_at'') (by_sql ''organizations'') = [VTime 1]"
proof -
  obtain a b where a: "exec balotly_schema 5 (orm_update organization_model 5 (\<lambda>_. True) rename) demo_organization = Inr a"
    and b: "exec balotly_schema 5 (Update ''organizations'' (\<lambda>_. True) rename) demo_organization = Inr b"
    using demo_renamed by (auto split: sum.splits)
  have "md_base organization_model" "\<forall>r. ''updated_at'' \<notin> fst ` set (rename r)"
    by (simp_all add: organization_model_def rename_def)
  from updated_at_needs_the_orm[OF in_registry(1) this a] b a show ?thesis
    by (auto simp: table_names demo_organization_def list_all2_Cons1)
qed

end
