(* ===== verification/LedgerSpec.thy ===== *)
theory LedgerSpec
  imports LedgerProps "HOL-Library.Sublist"
begin

text \<open>
  What the ledger promises, without tables, rows and SQL: a list of payments and a list of ballots.
  A payment has its identifier, its reference and, while it holds a voter's cap, the contest and the
  matric number; a ballot has its identifier, its payment and its candidate. The migrated schema,
  under any SQL statements, refines it.
\<close>

section \<open>The specification\<close>

record payment =
  pay_id :: sval
  pay_reference :: sval
  pay_cap :: "(sval \<times> sval) option"

record ballot =
  ballot_id :: sval
  ballot_payment :: sval
  ballot_candidate :: sval

record ledger =
  payments :: "payment list"
  ballots :: "ballot list"

definition empty_ledger :: ledger where
  "empty_ledger = \<lparr>payments = [], ballots = []\<rparr>"

text \<open>Identifiers and references are unique, and so is every cap that is held.\<close>

definition payments_ok :: "payment list \<Rightarrow> bool" where
  "payments_ok ps \<longleftrightarrow> distinct (map pay_id ps) \<and> distinct (map pay_reference ps)
     \<and> distinct (map pay_cap (filter (\<lambda>p. pay_cap p \<noteq> None) ps))"

definition backed :: "payment list \<Rightarrow> ballot list \<Rightarrow> bool" where
  "backed ps bs \<longleftrightarrow> (\<forall>b \<in> set bs. ballot_payment b \<in> pay_id ` set ps)"

inductive ledger_step :: "ledger \<Rightarrow> ledger \<Rightarrow> bool" where
  pays: "payments_ok (payments l @ [p]) \<Longrightarrow> ledger_step l (l\<lparr>payments := payments l @ [p]\<rparr>)"
| amends: "length ps = length (payments l) \<Longrightarrow> payments_ok ps \<Longrightarrow> backed ps (ballots l) \<Longrightarrow>
    ledger_step l (l\<lparr>payments := ps\<rparr>)"
| withdraws: "subseq ps (payments l) \<Longrightarrow> backed ps (ballots l) \<Longrightarrow> ledger_step l (l\<lparr>payments := ps\<rparr>)"
| votes: "ballot_id b \<notin> ballot_id ` set (ballots l) \<Longrightarrow> backed (payments l) [b] \<Longrightarrow>
    ledger_step l (l\<lparr>ballots := ballots l @ [b]\<rparr>)"

inductive_cases ledger_stepE: "ledger_step l l'"

definition ledger_ok :: "ledger \<Rightarrow> bool" where
  "ledger_ok l \<longleftrightarrow> payments_ok (payments l) \<and> backed (payments l) (ballots l)
     \<and> distinct (map ballot_id (ballots l))"

lemma distinct_subseq: "subseq xs ys \<Longrightarrow> distinct ys \<Longrightarrow> distinct xs"
  by (induction rule: list_emb.induct) (auto dest: list_emb_set)

lemma payments_ok_subseq: "subseq ps qs \<Longrightarrow> payments_ok qs \<Longrightarrow> payments_ok ps"
  unfolding payments_ok_def by (meson subseq_map subseq_filter distinct_subseq)

lemma ledger_step_ok: "ledger_step l l' \<Longrightarrow> ledger_ok l \<Longrightarrow> ledger_ok l'"
  by (auto elim!: ledger_stepE simp: ledger_ok_def backed_def image_iff intro: payments_ok_subseq)

lemma ledger_step_ballots: "ledger_step l l' \<Longrightarrow> \<exists>new. ballots l' = ballots l @ new"
  by (auto elim!: ledger_stepE)

section \<open>The abstraction\<close>

definition payment_of :: "row \<Rightarrow> payment" where
  "payment_of r = \<lparr>pay_id = r ''id'', pay_reference = r ''paystack_reference'',
     pay_cap = (if holds_cap r then Some (r ''contest_id'', r ''voter_matric_number'') else None)\<rparr>"

definition ballot_of :: "row \<Rightarrow> ballot" where
  "ballot_of v = \<lparr>ballot_id = v ''id'', ballot_payment = v ''transaction_id'',
     ballot_candidate = v ''candidate_id''\<rparr>"

definition ledger_of :: "db \<Rightarrow> ledger" where
  "ledger_of db = \<lparr>payments = map payment_of (db ''transactions''), ballots = map ballot_of (db ''votes'')\<rparr>"

lemma id_key_of: "key_of ([''id''], None) = (\<lambda>r. [r ''id''])"
  by (simp add: key_of_def fun_eq_iff)

lemma reference_key_fun: "key_of reference_key = (\<lambda>r. [r ''paystack_reference''])"
  by (simp add: reference_key_of fun_eq_iff)

lemma cap_key_fun: "key_of cap_key = (\<lambda>r. [r ''contest_id'', r ''voter_matric_number''])"
  by (simp add: cap_key_of fun_eq_iff)

lemma payments_of_ok:
  assumes "db_ok balotly_schema db"
  shows "payments_ok (map payment_of (db ''transactions''))"
proof -
  let ?rs = "db ''transactions''"
  have rows: "row_ok transactions_table r" if "r \<in> set ?rs" for r
    by (rule transaction_row_ok[OF assms that])
  have uniq: "unique_ok k ?rs" if "k \<in> {([''id''], None), reference_key, cap_key}" for k
    using table_ok_unique[OF ledger_table_ok(1)[OF assms], of k] that by (auto simp: transactions_keys)
  have all: "filter (indexed ([''id''], None)) ?rs = ?rs" "filter (indexed reference_key) ?rs = ?rs"
    using rows transaction_indexed by (auto simp: filter_id_conv)
  have caps: "filter (indexed cap_key) ?rs = filter holds_cap ?rs"
    using rows transaction_indexed(3) by (intro filter_cong) auto
  have "distinct (map (\<lambda>r. [r ''id'']) ?rs)"
    using uniq[of "([''id''], None)"] all by (simp add: unique_ok_def id_key_of)
  moreover have "distinct (map (\<lambda>r. [r ''paystack_reference'']) ?rs)"
    using uniq[of reference_key] all by (simp add: unique_ok_def reference_key_fun)
  moreover have "distinct (map (\<lambda>r. [r ''contest_id'', r ''voter_matric_number'']) (filter holds_cap ?rs))"
    using uniq[of cap_key] caps by (simp add: unique_ok_def cap_key_fun)
  moreover have "filter (\<lambda>p. pay_cap p \<noteq> None) (map payment_of ?rs) = map payment_of (filter holds_cap ?rs)"
    by (auto simp: filter_map payment_of_def comp_def intro!: arg_cong[where f = "map _"] filter_cong)
  ultimately show ?thesis
    by (auto simp: payments_ok_def payment_of_def comp_def distinct_map inj_on_def)
qed

lemma ballots_backed:
  assumes "db_ok balotly_schema db"
  shows "backed (map payment_of (db ''transactions'')) (map ballot_of (db ''votes''))"
proof -
  have "v ''transaction_id'' \<in> (\<lambda>t. t ''id'') ` set (db ''transactions'')" if "v \<in> set (db ''votes'')" for v
    using vote_fk(1)[OF assms that] by (metis imageI)
  then show ?thesis by (auto simp: backed_def ballot_of_def payment_of_def image_image)
qed

lemma ballots_distinct:
  assumes "db_ok balotly_schema db"
  shows "distinct (map ballot_id (map ballot_of (db ''votes'')))"
proof -
  have "([''id''], None) \<in> set (unique_keys votes_table)"
    by (simp add: unique_keys_def votes_table_def votes_ddl_def)
  then have u: "unique_ok ([''id''], None) (db ''votes'')"
    using table_ok_unique[OF ledger_table_ok(2)[OF assms]] by simp
  have "\<forall>v \<in> set (db ''votes''). v ''id'' \<noteq> Null"
    using table_ok_row[OF ledger_table_ok(2)[OF assms]]
    by (auto simp: row_ok_def votes_table_def votes_ddl_def col_def)
  then have "filter (indexed ([''id''], None)) (db ''votes'') = db ''votes''"
    by (auto simp: filter_id_conv indexed_def)
  then have "distinct (map (\<lambda>v. [v ''id'']) (db ''votes''))" using u by (simp add: unique_ok_def id_key_of)
  then show ?thesis by (auto simp: comp_def ballot_of_def distinct_map inj_on_def)
qed

lemma ledger_of_ok: "db_ok balotly_schema db \<Longrightarrow> ledger_ok (ledger_of db)"
  using payments_of_ok ballots_backed ballots_distinct by (simp add: ledger_ok_def ledger_of_def)

section \<open>Statements are steps of the ledger\<close>

text \<open>Votes change by insertion alone, transactions by statements on them.\<close>

lemma votes_kept:
  assumes "apply_stmt balotly_schema now s db = Inr db'" "\<And>vals. s \<noteq> Insert ''votes'' vals"
  shows "db' ''votes'' = db ''votes''"
proof (cases s)
  case (Insert n vals)
  then have "n \<noteq> ''votes''" using assms(2) by blast
  then show ?thesis using Insert assms(1) by (auto split: option.splits)
next
  case (Update n P f)
  show ?thesis
  proof (cases "n = ''votes''")
    case True
    have "filter P (db ''votes'') = []"
      using assms(1) balotly_votes_append_only Update True
      by (auto simp: append_only_def immutable_rows_def fire_row_ok split: option.splits)
    then show ?thesis using assms(1) Update True by (auto simp: res_map_untouched split: option.splits)
  qed (use assms(1) Update in \<open>auto split: option.splits\<close>)
next
  case (Delete n P)
  then show ?thesis using assms(1) balotly_votes_append_only
    by (auto simp: append_only_def split: option.splits intro: delete_immutable)
next
  case (Truncate n c)
  then show ?thesis using assms(1) balotly_votes_append_only
    by (auto simp: append_only_def split: option.splits intro: truncate_guarded)
qed

lemma transactions_referencing:
  "referencing balotly_schema ''transactions'' = [(''votes'', fkey ''transaction_id'' ''transactions'' Restrict)]"
  unfolding balotly_schema_eq by code_simp

lemma delete_transactions:
  assumes "delete_rows 10 balotly_schema ''transactions'' P db = Inr db'"
  shows "db' ''transactions'' = filter (\<lambda>r. \<not> P r) (db ''transactions'')"
  using assms by (auto simp: delete_rows_pos transactions_referencing fk_action_def fkey_def filter_not_none
      Let_def split: if_splits)

lemma exec_votes_insert:
  assumes "db_ok balotly_schema db" "exec balotly_schema now (Insert ''votes'' vals) db = Inr db'"
  shows "ledger_step (ledger_of db) (ledger_of db')"
proof -
  obtain r where r: "db' = db(''votes'' := db ''votes'' @ [r])" and ok: "db_ok balotly_schema db'"
    using assms(2) by (auto simp: exec_Inr balotly_find_table)
  have "ledger_ok (ledger_of db')" by (rule ledger_of_ok[OF ok])
  then show ?thesis
    using votes[of "ballot_of r" "ledger_of db"] by (auto simp: ledger_of_def ledger_ok_def backed_def r)
qed

lemma exec_transactions:
  assumes "db_ok balotly_schema db" "exec balotly_schema now s db = Inr db'" "target s = ''transactions''"
  shows "ledger_step (ledger_of db) (ledger_of db')"
proof -
  have app: "apply_stmt balotly_schema now s db = Inr db'" and ok: "db_ok balotly_schema db'"
    using assms(2) by (auto simp: exec_Inr)
  have v: "db' ''votes'' = db ''votes''" by (rule votes_kept[OF app]) (use assms(3) in auto)
  have l: "ledger_of db' = (ledger_of db)\<lparr>payments := map payment_of (db' ''transactions'')\<rparr>"
    using v by (simp add: ledger_of_def)
  have lok: "payments_ok (map payment_of (db' ''transactions''))"
    "backed (map payment_of (db' ''transactions'')) (ballots (ledger_of db))"
    using ledger_of_ok[OF ok] v by (simp_all add: ledger_ok_def ledger_of_def)
  show ?thesis
  proof (cases s)
    case (Insert n vals)
    then obtain r where "db' ''transactions'' = db ''transactions'' @ [r]"
      using app assms(3) by (auto simp: balotly_find_table)
    then show ?thesis using pays[of "ledger_of db" "payment_of r"] lok l by (simp add: ledger_of_def)
  next
    case (Update n P f)
    then have "length (db' ''transactions'') = length (db ''transactions'')"
      using app assms(3) by (auto simp: balotly_find_table dest: res_map_Inr_length)
    then show ?thesis unfolding l using amends[OF _ lok] by (simp add: ledger_of_def)
  next
    case (Delete n P)
    then have "db' ''transactions'' = filter (\<lambda>r. \<not> P r) (db ''transactions'')"
      using app assms(3) by (auto simp: balotly_find_table balotly_depth intro: delete_transactions)
    then have "subseq (map payment_of (db' ''transactions'')) (payments (ledger_of db))"
      by (simp add: ledger_of_def subseq_map)
    then show ?thesis unfolding l using withdraws[OF _ lok(2)] by blast
  next
    case (Truncate n c)
    then show ?thesis using app assms(3) truncate_reaching_votes[of "''transactions''" c db]
      by (auto simp: balotly_find_table votes_distance_def)
  qed
qed

lemma exec_sim:
  assumes "db_ok balotly_schema db" "exec balotly_schema now s db = Inr db'"
  shows "ledger_of db' = ledger_of db \<or> ledger_step (ledger_of db) (ledger_of db')"
proof (cases "target s = ''transactions'' \<or> (\<exists>vals. s = Insert ''votes'' vals)")
  case True
  then show ?thesis using exec_transactions[OF assms] exec_votes_insert assms by blast
next
  case False
  then have "db' ''votes'' = db ''votes''" using assms(2) votes_kept by (auto simp: exec_Inr)
  moreover have "db' ''transactions'' = db ''transactions''"
    using exec_keeps_rows[OF balotly_keeps_transactions _ assms(2)] False by (simp add: transactions_null_columns)
  ultimately show ?thesis by (simp add: ledger_of_def)
qed

lemma db_step_sim:
  "db_ok balotly_schema db \<Longrightarrow> db_step balotly_schema db e = Some db' \<Longrightarrow>
     ledger_of db' = ledger_of db \<or> ledger_step (ledger_of db) (ledger_of db')"
  by (auto simp: db_step_accepted split: sum.splits dest: exec_sim)

interpretation ledger_machine: simulation "db_step balotly_schema" "db_ok balotly_schema" ledger_of ledger_step
  by unfold_locales (rule db_step_sim)

section \<open>When a vote is accepted\<close>

lemma votes_keys: "unique_keys votes_table = [([''id''], None)]"
  by (simp add: unique_keys_def votes_table_def votes_ddl_def plain_index_def)

lemma votes_fks:
  "tforeign_keys votes_table = [fkey ''transaction_id'' ''transactions'' Restrict, fkey ''candidate_id'' ''candidates'' Restrict]"
  by (simp add: votes_table_def votes_ddl_def)

lemma vote_not_null:
  assumes "row_ok votes_table v"
  shows "v ''id'' \<noteq> Null" "v ''transaction_id'' \<noteq> Null" "v ''candidate_id'' \<noteq> Null"
  using assms by (simp_all add: row_ok_def votes_table_def votes_ddl_def col_def)

lemma vote_fits_iff:
  assumes "db_ok balotly_schema db"
  shows "row_fits db votes_table v \<longleftrightarrow> row_ok votes_table v
     \<and> (\<forall>u \<in> set (db ''votes''). u ''id'' \<noteq> v ''id'')
     \<and> (\<exists>t \<in> set (db ''transactions''). t ''id'' = v ''transaction_id'')
     \<and> (\<exists>c \<in> set (db ''candidates''). c ''id'' = v ''candidate_id'')"
proof (cases "row_ok votes_table v")
  case True
  have ids: "\<forall>u \<in> set (db ''votes''). u ''id'' \<noteq> Null"
    using table_ok_row[OF ledger_table_ok(2)[OF assms]] vote_not_null(1) by auto
  show ?thesis using True ids vote_not_null[OF True]
    by (auto simp: row_fits_def votes_keys votes_fks fk_ok_present id_key_of indexed_def list_all_iff)
next
  case False
  then show ?thesis by (simp add: row_fits_def)
qed

section \<open>Properties\<close>

text \<open>C2: The database refines the ledger: whatever statements run, what happens to the payments and the
  ballots between any two moments is a run of \<open>ledger_step\<close>. A statement records one payment with a new
  identifier, a new reference and a cap nobody else holds, or amends payments without breaking any of
  that, or withdraws payments no ballot names, or casts one ballot on an existing payment, or leaves
  both lists alone; nothing else, no cascade and no truncation, can happen to them.\<close>

theorem database_refines_ledger:
  "ledger_of (history balotly_schema empty_db []) = empty_ledger
     \<and> ledger_step\<^sup>*\<^sup>* (ledger_of (history balotly_schema empty_db es))
         (ledger_of (history balotly_schema empty_db (es @ fs)))
     \<and> ledger_ok (ledger_of (history balotly_schema empty_db es))"
  using ledger_machine.run_sim[OF reachable_ok run_history, of es fs] ledger_of_ok[OF reachable_ok, of es]
  by (simp add: history_append ledger_of_def empty_ledger_def empty_db_def)

text \<open>C24: Exactly which votes are recorded: an insertion into \<open>votes\<close> whose values have the columns' types
  is accepted if and only if its identifier is new and the transaction and the candidate it names
  exist, and it then adds that one row. Neither the status of the transaction nor its candidate
  matters, so a vote that is not yet paid for is accepted like any other.\<close>

theorem vote_accepted_iff:
  assumes "assign votes_table vals (default_row votes_table now) = Inr v"
    and "db = history balotly_schema empty_db es"
  shows "exec balotly_schema now (Insert ''votes'' vals) db = Inr db' \<longleftrightarrow>
     db' = db(''votes'' := db ''votes'' @ [v]) \<and> row_ok votes_table v
     \<and> (\<forall>u \<in> set (db ''votes''). u ''id'' \<noteq> v ''id'')
     \<and> (\<exists>t \<in> set (db ''transactions''). t ''id'' = v ''transaction_id'')
     \<and> (\<exists>c \<in> set (db ''candidates''). c ''id'' = v ''candidate_id'')"
proof -
  have ok: "db_ok balotly_schema db" by (simp add: assms(2) reachable_ok)
  show ?thesis
    using insert_accepted_iff[OF balotly_names balotly_find_table(2) ok assms(1)] vote_fits_iff[OF ok] by blast
qed

text \<open>A second vote on the pending transaction of the concrete history, and one on a missing transaction.\<close>

definition demo_vote :: "nat \<Rightarrow> (string \<times> sval) list" where
  "demo_vote t = [(''id'', VUuid 10), (''transaction_id'', VUuid t), (''candidate_id'', VUuid 4)]"

lemma demo_vote_row:
  "\<exists>v. assign votes_table (demo_vote t) (default_row votes_table 9) = Inr v \<and> row_ok votes_table v
     \<and> v ''id'' = VUuid 10 \<and> v ''transaction_id'' = VUuid t \<and> v ''candidate_id'' = VUuid 4"
  by (simp add: demo_vote_def assign_def votes_table_def votes_ddl_def col_def col_default_def coerce_def
      default_row_def default_value_def row_ok_def has_type_def)

theorem vote_accepted_iff_witness:
  "(\<exists>db'. exec balotly_schema 9 (Insert ''votes'' (demo_vote 7)) demo_db = Inr db')
     \<and> (\<forall>db'. exec balotly_schema 9 (Insert ''votes'' (demo_vote 70)) demo_db \<noteq> Inr db')"
proof -
  obtain v where v: "assign votes_table (demo_vote 7) (default_row votes_table 9) = Inr v" "row_ok votes_table v"
    "v ''id'' = VUuid 10" "v ''transaction_id'' = VUuid 7" "v ''candidate_id'' = VUuid 4"
    using demo_vote_row by blast
  obtain u where u: "assign votes_table (demo_vote 70) (default_row votes_table 9) = Inr u"
    "u ''transaction_id'' = VUuid 70"
    using demo_vote_row by blast
  have rows: "\<exists>w. demo_db ''votes'' = [w] \<and> w ''id'' = VUuid 8" "\<exists>t. demo_db ''transactions'' = [t] \<and> t ''id'' = VUuid 7"
    "\<exists>c d. demo_db ''candidates'' = [c, d] \<and> c ''id'' = VUuid 4"
    using demo_evaluated by (auto simp: demo_view_def)
  show ?thesis
    using vote_accepted_iff[OF v(1), of demo_db demo_history] vote_accepted_iff[OF u(1), of demo_db demo_history]
      v u rows by (auto simp: demo_db_def)
qed

end
