(* ===== verification/Deletion.thy ===== *)
theory Deletion
  imports LedgerProps
begin

text \<open>
  What a deletion leaves: every row of every table comes from a row that was there, unchanged up to
  the references that \<open>ON DELETE SET NULL\<close> clears, and in the table deleted from it is a row the
  condition spares. So a \<open>DELETE\<close> that would take the organization, contest, category, candidate or
  package behind a payment is refused.
\<close>

section \<open>Where rows come from\<close>

definition descends :: "string set \<Rightarrow> row list \<Rightarrow> row list \<Rightarrow> bool" where
  "descends S rs rs' \<longleftrightarrow> (\<forall>r \<in> set rs'. \<exists>u \<in> set rs. \<forall>c. c \<in> S \<or> r c = u c)"

lemma descends_refl: "descends S rs rs"
  by (auto simp: descends_def)

lemma descends_filter: "descends S rs rs' \<Longrightarrow> descends S rs (filter Q rs')"
  by (auto simp: descends_def)

lemma descends_null:
  assumes "descends S rs rs'" "c \<in> S"
  shows "descends S rs (map (\<lambda>r. if Q r then r(c := Null) else r) rs')"
proof -
  have "\<exists>u \<in> set rs. \<forall>d. d \<in> S \<or> (if Q r then r(c := Null) else r) d = u d" if r: "r \<in> set rs'" for r
  proof -
    obtain u where u: "u \<in> set rs" "\<forall>d. d \<in> S \<or> r d = u d" using assms(1) r by (auto simp: descends_def)
    have "\<forall>d. d \<in> S \<or> (if Q r then r(c := Null) else r) d = u d" using u(2) assms(2) by auto
    with u(1) show ?thesis by blast
  qed
  then show ?thesis unfolding descends_def set_map ball_simps by blast
qed

lemma null_column:
  "(c, fk) \<in> set (referencing sch a) \<Longrightarrow> fk_on_delete fk = SetNull \<Longrightarrow> c = m \<Longrightarrow> fk_col fk \<in> null_columns sch m"
  by (auto simp: referencing_iff null_columns_def)

lemma delete_keeps_descent:
  assumes "delete_rows k sch n P db = Inr db'" "descends (null_columns sch m) rs (db m)"
  shows "descends (null_columns sch m) rs (db' m)"
  using assms
proof (rule delete_rows_induct[where I = "\<lambda>d. descends (null_columns sch m) rs (d m)" and allowed = "\<lambda>_. True"])
  fix a c fk Q d
  assume I: "descends (null_columns sch m) rs (d m)" and fk: "(c, fk) \<in> set (referencing sch a)" "fk_on_delete fk = SetNull"
  then show "descends (null_columns sch m) rs ((d(c := map (\<lambda>r. if Q r then r(fk_col fk := Null) else r) (d c))) m)"
    using descends_null[OF I] null_column[OF fk, of m] by auto
qed (auto intro: descends_filter)

lemma delete_descends: "delete_rows k sch n P db = Inr db' \<Longrightarrow> descends (null_columns sch m) (db m) (db' m)"
  by (rule delete_keeps_descent[OF _ descends_refl])

lemma delete_spares:
  assumes "delete_rows k sch n P db = Inr db'"
  shows "descends (null_columns sch n) (filter (\<lambda>r. \<not> P r) (db n)) (db' n)"
proof (cases k)
  case 0
  then show ?thesis using assms by simp
next
  case (Suc j)
  let ?rs = "filter (\<lambda>r. \<not> P r) (db n)"
  show ?thesis
  proof (cases "filter P (db n) = []")
    case True
    then show ?thesis using assms Suc filter_not_none[OF True] by (auto simp: descends_refl)
  next
    case False
    then have fold: "res_fold (fk_action (delete_rows j sch) sch (filter P (db n))) (referencing sch n)
        (db(n := ?rs)) = Inr db'"
      using assms Suc by auto
    show ?thesis
    proof (rule res_fold_invariant[OF fold, where I = "\<lambda>d. descends (null_columns sch n) ?rs (d n)"])
      fix x u v
      assume x: "x \<in> set (referencing sch n)" and I: "descends (null_columns sch n) ?rs (u n)"
        and act: "fk_action (delete_rows j sch) sch (filter P (db n)) x u = Inr v"
      obtain c fk where cf: "x = (c, fk)" by (cases x)
      show "descends (null_columns sch n) ?rs (v n)"
        using act I descends_null[OF I] null_column[of c fk sch n n] x
        by (auto simp: cf fk_action_def Let_def split: on_delete.splits if_splits intro: delete_keeps_descent)
    qed (simp add: descends_refl)
  qed
qed

section \<open>The tables behind a payment\<close>

lemma behind_null_columns:
  "''id'' \<notin> null_columns balotly_schema m"
  "null_columns balotly_schema ''contests'' = {}"
  "''category_id'' \<notin> null_columns balotly_schema ''candidates''"
proof -
  have "list_all (\<lambda>t. list_all (\<lambda>fk. fk_col fk \<noteq> ''id'') (tforeign_keys t)) (s_tables balotly_schema)"
    unfolding balotly_schema_eq by code_simp
  then show "''id'' \<notin> null_columns balotly_schema m" by (fastforce simp: null_columns_def list_all_iff)
  show "null_columns balotly_schema ''contests'' = {}" "''category_id'' \<notin> null_columns balotly_schema ''candidates''"
    by (simp_all add: null_columns_def balotly_tables contests_table_def contests_ddl_def candidates_table_def
        candidates_ddl_def fkey_def)
qed

lemma id_keys: "t \<in> set (s_tables balotly_schema) \<Longrightarrow> ([''id''], None) \<in> set (unique_keys t)"
proof -
  have "list_all (\<lambda>t. tprimary t = [''id'']) (s_tables balotly_schema)"
    unfolding balotly_schema_eq by code_simp
  then show "t \<in> set (s_tables balotly_schema) \<Longrightarrow> ([''id''], None) \<in> set (unique_keys t)"
    by (auto simp: unique_keys_def list_all_iff)
qed

lemma at_most_one: "length (filter Q xs) \<le> 1 \<Longrightarrow> x \<in> set xs \<Longrightarrow> y \<in> set xs \<Longrightarrow> Q x \<Longrightarrow> Q y \<Longrightarrow> x = y"
  by (induction xs) (auto simp: filter_empty_conv split: if_splits)

lemma same_id:
  assumes "db_ok balotly_schema db" "t \<in> set (s_tables balotly_schema)" "u \<in> set (db (tname t))" "r \<in> set (db (tname t))"
    and "u ''id'' = r ''id''" "r ''id'' \<noteq> Null"
  shows "u = r"
proof (rule at_most_one)
  show "length (filter (\<lambda>x. map x [''id''] = [r ''id'']) (db (tname t))) \<le> 1"
    using assms(6) by (intro unique_columns_count[OF assms(1,2) id_keys[OF assms(2)]]) simp
qed (use assms in simp_all)

lemma behind_tables:
  "candidates_table \<in> set (s_tables balotly_schema)" "contests_table \<in> set (s_tables balotly_schema)"
  "vote_packages_table \<in> set (s_tables balotly_schema)" "categories_table \<in> set (s_tables balotly_schema)"
  "organizations_table \<in> set (s_tables balotly_schema)"
  by (simp_all add: balotly_tables)

lemma contest_organization:
  assumes "db_ok balotly_schema db" "k \<in> set (db ''contests'')"
  shows "k ''organization_id'' \<noteq> Null" "\<exists>g \<in> set (db ''organizations''). g ''id'' = k ''organization_id''"
proof -
  have t: "table_ok db contests_table" using db_okD[OF assms(1) behind_tables(2)] .
  show nn: "k ''organization_id'' \<noteq> Null"
    using table_ok_row[OF t] assms(2) by (simp add: row_ok_def contests_table_def contests_ddl_def col_def)
  have "fk_ok db (fkey ''organization_id'' ''organizations'' Cascade) k"
    using table_ok_fk[OF t] assms(2) by (simp add: contests_table_def contests_ddl_def)
  with nn show "\<exists>g \<in> set (db ''organizations''). g ''id'' = k ''organization_id''"
    by (auto simp: fk_ok_def fkey_def list_ex_iff)
qed

lemma candidate_category:
  assumes "db_ok balotly_schema db" "c \<in> set (db ''candidates'')"
  shows "c ''category_id'' \<noteq> Null" "\<exists>g \<in> set (db ''categories''). g ''id'' = c ''category_id''"
proof -
  have t: "table_ok db candidates_table" using db_okD[OF assms(1) behind_tables(1)] .
  show nn: "c ''category_id'' \<noteq> Null"
    using table_ok_row[OF t] assms(2) by (simp add: row_ok_def candidates_table_def candidates_ddl_def col_def)
  have "fk_ok db (fkey ''category_id'' ''categories'' Cascade) c"
    using table_ok_fk[OF t] assms(2) by (simp add: candidates_table_def candidates_ddl_def)
  with nn show "\<exists>g \<in> set (db ''categories''). g ''id'' = c ''category_id''"
    by (auto simp: fk_ok_def fkey_def list_ex_iff)
qed

text \<open>The row \<open>r\<close> of the table \<open>n\<close> stands behind the payment \<open>t\<close>.\<close>

inductive stands_behind :: "db \<Rightarrow> row \<Rightarrow> string \<Rightarrow> row \<Rightarrow> bool" for db :: db and t :: row where
  candidate: "r \<in> set (db ''candidates'') \<Longrightarrow> r ''id'' = t ''candidate_id'' \<Longrightarrow> stands_behind db t ''candidates'' r"
| package: "r \<in> set (db ''vote_packages'') \<Longrightarrow> r ''id'' = t ''vote_package_id'' \<Longrightarrow> stands_behind db t ''vote_packages'' r"
| contest: "r \<in> set (db ''contests'') \<Longrightarrow> r ''id'' = t ''contest_id'' \<Longrightarrow> stands_behind db t ''contests'' r"
| organization: "r \<in> set (db ''organizations'') \<Longrightarrow> k \<in> set (db ''contests'') \<Longrightarrow> k ''id'' = t ''contest_id'' \<Longrightarrow>
    k ''organization_id'' = r ''id'' \<Longrightarrow> stands_behind db t ''organizations'' r"
| category: "r \<in> set (db ''categories'') \<Longrightarrow> c \<in> set (db ''candidates'') \<Longrightarrow> c ''id'' = t ''candidate_id'' \<Longrightarrow>
    c ''category_id'' = r ''id'' \<Longrightarrow> stands_behind db t ''categories'' r"

inductive_cases stands_behindE: "stands_behind db t n r"

text \<open>In the database that a deletion leaves, a row with the identifier of a deleted one is impossible.\<close>

lemma spared:
  assumes "db_ok balotly_schema db" "t \<in> set (s_tables balotly_schema)" "r \<in> set (db (tname t))" "P r" "r ''id'' \<noteq> Null"
    and "delete_rows k balotly_schema (tname t) P db = Inr db'" "r' \<in> set (db' (tname t))"
  shows "r' ''id'' \<noteq> r ''id''"
proof
  assume same: "r' ''id'' = r ''id''"
  obtain u where u: "u \<in> set (db (tname t))" "\<not> P u" "r' ''id'' = u ''id''"
    using delete_spares[OF assms(6)] assms(7) behind_null_columns(1) by (fastforce simp: descends_def)
  then have "u = r" using same_id[OF assms(1,2) u(1) assms(3)] same assms(5) by simp
  with u(2) assms(4) show False by simp
qed

text \<open>A contest or candidate of the database after it has the organization or category it had before.\<close>

lemma descended:
  assumes "db_ok balotly_schema db" "t \<in> set (s_tables balotly_schema)" "k \<in> set (db (tname t))" "k ''id'' \<noteq> Null"
    and "delete_rows j balotly_schema n P db = Inr db'" "k' \<in> set (db' (tname t))" "k' ''id'' = k ''id''"
    and "c \<notin> null_columns balotly_schema (tname t)"
  shows "k' c = k c"
proof -
  obtain u where u: "u \<in> set (db (tname t))" "k' ''id'' = u ''id''" "k' c = u c"
    using delete_descends[OF assms(5), of "tname t"] assms(6,8) behind_null_columns(1) by (fastforce simp: descends_def)
  then have "u = k" using same_id[OF assms(1,2) u(1) assms(3)] assms(4,7) by simp
  with u(3) show ?thesis by simp
qed

lemma delete_behind_payment:
  assumes ok: "db_ok balotly_schema db" and t: "t \<in> set (db ''transactions'')" and r: "stands_behind db t n r" "P r"
    and del: "delete_rows j balotly_schema n P db = Inr db'" and ok': "db_ok balotly_schema db'"
    and same: "db' ''transactions'' = db ''transactions''"
  shows False
proof -
  have nn: "t ''candidate_id'' \<noteq> Null" "t ''vote_package_id'' \<noteq> Null" "t ''contest_id'' \<noteq> Null"
    using transaction_not_null[OF transaction_row_ok[OF ok t]] by simp_all
  have t': "t \<in> set (db' ''transactions'')" using t same by simp
  note spare = spared[where P = P, OF ok _ _ r(2)] and down = descended[OF ok _ _ _ del]
  from r(1) show False
  proof (cases rule: stands_behind.cases)
    case candidate
    then show False using transaction_fk(1)[OF ok' t'] spare[OF behind_tables(1)] del nn by auto
  next
    case package
    then show False using transaction_fk(2)[OF ok' t'] spare[OF behind_tables(3)] del nn by auto
  next
    case contest
    then show False using transaction_fk(3)[OF ok' t'] spare[OF behind_tables(2)] del nn by auto
  next
    case (organization k)
    obtain k' where k': "k' \<in> set (db' ''contests'')" "k' ''id'' = t ''contest_id''"
      using transaction_fk(3)[OF ok' t'] by blast
    then have "k' ''organization_id'' = r ''id''"
      using down[OF behind_tables(2), of k k' "''organization_id''"] organization nn behind_null_columns(2) by simp
    then show False
      using contest_organization[OF ok' k'(1)] spare[OF behind_tables(5)] del organization(1,2) by auto
  next
    case (category c)
    obtain c' where c': "c' \<in> set (db' ''candidates'')" "c' ''id'' = t ''candidate_id''"
      using transaction_fk(1)[OF ok' t'] by blast
    then have "c' ''category_id'' = r ''id''"
      using down[OF behind_tables(1), of c c' "''category_id''"] category nn behind_null_columns(3) by simp
    then show False
      using candidate_category[OF ok' c'(1)] spare[OF behind_tables(4)] del category(1,2) by auto
  qed
qed

section \<open>Properties\<close>

text \<open>C7: What a payment rests on cannot be deleted: a \<open>DELETE\<close> whose condition takes the candidate, package
  or contest of some transaction, the category of its candidate or the organization of its contest is
  refused, although candidates, categories and contests are otherwise deleted in cascade, and the
  database stays as it is.\<close>

theorem paid_context_undeletable:
  assumes "db = history balotly_schema empty_db es" and "t \<in> set (db ''transactions'')"
    and "stands_behind db t n r" and "P r"
  shows "(\<exists>e. exec balotly_schema now (Delete n P) db = Inl e)
     \<and> history balotly_schema db [(now, Delete n P)] = db"
proof -
  have ok: "db_ok balotly_schema db" by (simp add: assms(1) reachable_ok)
  have n: "n \<noteq> ''transactions''" using assms(3) by (auto elim: stands_behindE)
  have "False" if x: "exec balotly_schema now (Delete n P) db = Inr db'" for db'
  proof (rule delete_behind_payment[where P = P, OF ok assms(2-4)])
    show "delete_rows (cascade_depth balotly_schema) balotly_schema n P db = Inr db'"
      using x by (auto simp: exec_Inr split: option.splits)
    show "db_ok balotly_schema db'" using x by (simp add: exec_Inr)
    show "db' ''transactions'' = db ''transactions''"
      using exec_keeps_rows[OF balotly_keeps_transactions _ x] n by (simp add: transactions_null_columns)
  qed
  then obtain e where "exec balotly_schema now (Delete n P) db = Inl e"
    by (cases "exec balotly_schema now (Delete n P) db") auto
  then show ?thesis by (simp add: history_Cons)
qed

theorem paid_context_undeletable_witness:
  "\<exists>e. exec balotly_schema 9 (Delete ''candidates'' (\<lambda>r. r ''id'' = VUuid 4)) demo_db = Inl e"
proof -
  obtain t where t: "t \<in> set (demo_db ''transactions'')" "t ''candidate_id'' = VUuid 4" using demo_transactions by auto
  have "db_ok balotly_schema demo_db" by (simp add: demo_db_def reachable_ok)
  then obtain c where c: "c \<in> set (demo_db ''candidates'')" "c ''id'' = t ''candidate_id''"
    using transaction_fk(1) t(1) by blast
  then have "stands_behind demo_db t ''candidates'' c" by (rule candidate)
  then show ?thesis
    using paid_context_undeletable[of demo_db demo_history t "''candidates''" c "\<lambda>r. r ''id'' = VUuid 4"] t c(2)
    by (simp add: demo_db_def)
qed

end
