(* ===== verification/Statuses.thy ===== *)
theory Statuses
  imports Orm LedgerProps
begin

text \<open>
  The status columns: what a row must carry for the status it has, in every database that statements
  can reach, and what the schema leaves open, the order in which a status may change.
\<close>

section \<open>Updating a column that no key and no foreign key uses\<close>

definition set_column :: "string \<Rightarrow> sval \<Rightarrow> (row \<Rightarrow> bool) \<Rightarrow> row \<Rightarrow> row" where
  "set_column c v P r = (if P r then r(c := v) else r)"

lemma set_column_other: "d \<noteq> c \<Longrightarrow> set_column c v P r d = r d"
  by (simp add: set_column_def)

lemma unique_ok_set_column:
  assumes "snd k = None" and "c \<notin> set (fst k)"
  shows "unique_ok k (map (set_column c v P) rs) \<longleftrightarrow> unique_ok k rs"
proof -
  have "key_of k (set_column c v P r) = key_of k r" for r
    using assms(2) by (auto simp: key_of_def set_column_def)
  moreover have "indexed k (set_column c v P r) \<longleftrightarrow> indexed k r" for r
    using assms by (auto simp: indexed_def set_column_def list_all_iff)
  ultimately show ?thesis by (simp add: unique_ok_def filter_map comp_def)
qed

lemma fk_ok_set_column:
  assumes "fk_target fk = n \<longrightarrow> fk_target_col fk \<noteq> c"
  shows "fk_ok (db(n := map (set_column c v P) (db n))) fk r \<longleftrightarrow> fk_ok db fk r"
  using assms by (auto simp: fk_ok_def list_ex_iff set_column_other)

definition free_column :: "schema \<Rightarrow> table \<Rightarrow> string \<Rightarrow> bool" where
  "free_column sch t c \<longleftrightarrow> list_all (\<lambda>k. snd k = None \<and> c \<notin> set (fst k)) (unique_keys t)
     \<and> list_all (\<lambda>fk. fk_col fk \<noteq> c) (tforeign_keys t)
     \<and> list_all (\<lambda>u. list_all (\<lambda>fk. fk_target fk = tname t \<longrightarrow> fk_target_col fk \<noteq> c) (tforeign_keys u)) (s_tables sch)"

lemma db_ok_set_column:
  assumes "names_distinct sch" "find_table sch n = Some t" "db_ok sch db" "free_column sch t c"
  shows "db_ok sch (db(n := map (set_column c v P) (db n))) \<longleftrightarrow> list_all (\<lambda>r. P r \<longrightarrow> row_ok t (r(c := v))) (db n)"
    (is "db_ok sch ?db \<longleftrightarrow> ?rows")
proof -
  have t: "t \<in> set (s_tables sch)" "tname t = n" using find_table_Some[OF assms(1)] assms(2) by auto
  have fk: "fk_ok ?db fk r \<longleftrightarrow> fk_ok db fk r" if "u \<in> set (s_tables sch)" "fk \<in> set (tforeign_keys u)" for u fk r
    by (rule fk_ok_set_column) (use assms(4) that t(2) in \<open>auto simp: free_column_def list_all_iff\<close>)
  have own: "fk_ok db fk (set_column c v P r) \<longleftrightarrow> fk_ok db fk r" if "fk \<in> set (tforeign_keys t)" for fk r
    using assms(4) that by (auto simp: fk_ok_def free_column_def list_all_iff set_column_other)
  have other: "table_ok ?db u" if "u \<in> set (s_tables sch)" "u \<noteq> t" for u
  proof -
    have "tname u \<noteq> n" using table_name_unique[OF assms(1) t(1) that(1)] that(2) t(2) by auto
    then show ?thesis using db_okD[OF assms(3) that(1)] fk[OF that(1)] by (simp add: table_ok_def list_all_iff)
  qed
  have "table_ok db t" by (rule db_okD[OF assms(3) t(1)])
  then have "table_ok ?db t \<longleftrightarrow> list_all (\<lambda>r. row_ok t (set_column c v P r)) (db n)"
    using assms(4) fk[OF t(1)] own t(2)
    by (auto simp: table_ok_def list_all_iff free_column_def unique_ok_set_column)
  also have "\<dots> \<longleftrightarrow> ?rows"
    using \<open>table_ok db t\<close> t(2) by (auto simp: list_all_iff set_column_def table_ok_def)
  finally show ?thesis using other t(1) by (auto simp: db_ok_def list_all_iff)
qed

section \<open>What the checks say of a stored row\<close>

definition status_in :: "string list \<Rightarrow> row \<Rightarrow> bool" where
  "status_in ss r \<longleftrightarrow> r ''status'' \<in> set (map (\<lambda>s. VText (lit s)) ss)"

definition has_status :: "string \<Rightarrow> row \<Rightarrow> bool" where
  "has_status s r \<longleftrightarrow> r ''status'' = VText (lit s)"

definition declares_status :: "table \<Rightarrow> string list \<Rightarrow> bool" where
  "declares_status t ss \<longleftrightarrow> list_ex (\<lambda>k. cname k = ''status'' \<and> \<not> cnullable k) (tcolumns t)
     \<and> list_ex (\<lambda>p. snd p = text_in ''status'' ss) (tchecks t)"

definition declares_check :: "table \<Rightarrow> cond \<Rightarrow> bool" where
  "declares_check t c \<longleftrightarrow> list_ex (\<lambda>p. snd p = c) (tchecks t)"

lemma row_checked: "row_ok t r \<Longrightarrow> declares_check t c \<Longrightarrow> eval c r \<noteq> FF"
  by (auto simp: row_ok_def declares_check_def list_all_iff list_ex_iff)

lemma status_checked:
  assumes "row_ok t r" "declares_status t ss"
  shows "status_in ss r"
proof -
  have "r ''status'' \<noteq> Null" using assms by (auto simp: row_ok_def declares_status_def list_all_iff list_ex_iff)
  moreover have "eval (text_in ''status'' ss) r \<noteq> FF"
    using row_checked[OF assms(1)] assms(2) by (simp add: declares_status_def declares_check_def)
  ultimately show ?thesis by (simp add: text_in_def status_in_def)
qed

lemma status_needs:
  assumes "row_ok t r" "declares_check t (OrC (Cmp NE ''status'' (VText (lit s))) (IsNotNull c))" "has_status s r"
  shows "r c \<noteq> Null"
  using row_checked[OF assms(1,2)] assms(3) by (simp add: has_status_def compare_FF)

lemma status_needs_unless:
  assumes "row_ok t r" "declares_check t (OrC (Cmp EQ ''status'' (VText (lit s))) (IsNotNull c))"
    and "status_in ss r" "\<not> has_status s r"
  shows "r c \<noteq> Null"
  using row_checked[OF assms(1,2)] assms(3,4) by (auto simp: has_status_def status_in_def compare_FF)

lemmas table_defs = contests_table_def contests_ddl_def candidates_table_def candidates_ddl_def
  subaccounts_table_def subaccounts_ddl_def transactions_table_def transactions_ddl_def
  settlements_table_def settlements_ddl_def col_def col_null_def col_default_def

lemma statuses_declared:
  "declares_status contests_table contest_statuses" "declares_status candidates_table candidate_statuses"
  "declares_status subaccounts_table subaccount_statuses" "declares_status transactions_table transaction_statuses"
  "declares_status settlements_table settlement_statuses"
  by (simp_all add: declares_status_def table_defs contest_statuses_def candidate_statuses_def
      subaccount_statuses_def transaction_statuses_def settlement_statuses_def)

lemma evidence_declared:
  "declares_check candidates_table (OrC (Cmp NE ''status'' (VText (lit ''disqualified''))) (IsNotNull ''disqualification_reason''))"
  "declares_check subaccounts_table (OrC (Cmp NE ''status'' (VText (lit ''verified''))) (IsNotNull ''subaccount_code''))"
  "declares_check transactions_table (OrC (Cmp NE ''status'' (VText (lit ''success''))) (IsNotNull ''confirmed_at''))"
  "declares_check settlements_table (OrC (Cmp EQ ''status'' (VText (lit ''held''))) (IsNotNull ''actioned_at''))"
  by (simp_all add: declares_check_def table_defs)

lemma settlement_actioned: "row_ok settlements_table r \<Longrightarrow> \<not> has_status ''held'' r \<Longrightarrow> r ''actioned_at'' \<noteq> Null"
  by (rule status_needs_unless[OF _ evidence_declared(4) status_checked[OF _ statuses_declared(5)]])

lemma stored_row_ok:
  assumes "find_table balotly_schema n = Some t" "r \<in> set (history balotly_schema empty_db es n)"
  shows "row_ok t r"
proof -
  have "t \<in> set (s_tables balotly_schema)" "tname t = n"
    using find_table_Some[OF balotly_names] assms(1) by auto
  then show ?thesis using table_ok_row[OF db_okD[OF reachable_ok]] assms(2) by blast
qed

lemma contests_found: "find_table balotly_schema ''contests'' = Some contests_table"
  by (simp add: find_table_def balotly_tables)

section \<open>Properties\<close>

text \<open>C6: A status always carries its evidence, whatever statements have run, raw updates included: every
  status is one of its class, a disqualified candidate has a reason, a verified subaccount a code, a
  successful transaction the time of its confirmation, and a settlement that is no longer held the time
  of the action.\<close>

theorem statuses_carry_evidence:
  "let db = history balotly_schema empty_db es in
     list_all (status_in contest_statuses) (db ''contests'')
     \<and> list_all (\<lambda>r. status_in candidate_statuses r
          \<and> (if has_status ''disqualified'' r then r ''disqualification_reason'' \<noteq> Null else True)) (db ''candidates'')
     \<and> list_all (\<lambda>r. status_in subaccount_statuses r
          \<and> (if has_status ''verified'' r then r ''subaccount_code'' \<noteq> Null else True)) (db ''subaccounts'')
     \<and> list_all (\<lambda>r. status_in transaction_statuses r
          \<and> (if has_status ''success'' r then r ''confirmed_at'' \<noteq> Null else True)) (db ''transactions'')
     \<and> list_all (\<lambda>r. status_in settlement_statuses r
          \<and> (if has_status ''held'' r then True else r ''actioned_at'' \<noteq> Null)) (db ''settlements'')"
  using stored_row_ok[OF contests_found, of _ es] stored_row_ok[OF balotly_find_table(5), of _ es]
    stored_row_ok[OF balotly_find_table(4), of _ es] stored_row_ok[OF balotly_find_table(1), of _ es]
    stored_row_ok[OF balotly_find_table(3), of _ es]
  by (auto simp: Let_def list_all_iff statuses_declared[THEN status_checked[rotated]]
      dest: evidence_declared(1-3)[THEN status_needs[rotated]] settlement_actioned[rotated])

text \<open>The contest's status is in no key; the checks that read it and the type of its column decide.\<close>

lemma contest_status_free: "free_column balotly_schema contests_table ''status''"
  by (simp add: free_column_def unique_keys_def balotly_tables table_defs fkey_def organizations_table_def
      organizations_ddl_def organizations_creator_fk_def users_table_def users_ddl_def categories_table_def
      categories_ddl_def vote_packages_table_def vote_packages_ddl_def votes_table_def votes_ddl_def plain_index_def)

lemma contest_row_status:
  assumes "row_ok contests_table r"
  shows "row_ok contests_table (r(''status'' := v)) \<longleftrightarrow> v \<in> set (map (\<lambda>s. VText (lit s)) contest_statuses)"
proof -
  have "has_type (Varchar 32) v \<and> v \<noteq> Null" if "v \<in> set (map (\<lambda>s. VText (lit s)) contest_statuses)"
    using that by (auto simp: contest_statuses_def has_type_def text_storable_def lit_simps)
  moreover have "row_ok contests_table (r(''status'' := v)) \<longleftrightarrow> has_type (Varchar 32) v \<and> v \<noteq> Null
      \<and> v \<in> set (map (\<lambda>s. VText (lit s)) contest_statuses)"
    using assms by (auto simp: row_ok_def table_defs timestamps_def text_in_def contest_statuses_def percent_range_def)
  ultimately show ?thesis by blast
qed

lemma update_one_column:
  assumes "List.find (\<lambda>k. cname k = c) (tcolumns t) = Some k" and "coerce c (ctype k) v = Inr w"
  shows "res_map (\<lambda>r. if P r then assign t [(c, v)] r else Inr r) rs = Inr (map (set_column c w P) rs)"
  using assms by (intro res_map_ok) (simp add: assign_Cons assign_Nil set_column_def)

lemma update_refused_value:
  assumes "List.find (\<lambda>k. cname k = c) (tcolumns t) = Some k" and "coerce c (ctype k) v = Inl e" and "filter P rs \<noteq> []"
  shows "\<exists>e. res_map (\<lambda>r. if P r then assign t [(c, v)] r else Inr r) rs = Inl e"
  using assms by (induction rs) (auto simp: assign_Cons res_bind_def split: if_splits sum.splits)

text \<open>A value shorter than the column is stored as it is or not at all.\<close>

lemma coerce_short: "coerce c (Varchar n) (VText p) = Inr (VText q) \<Longrightarrow> length q < n \<Longrightarrow> q = p"
  by (auto simp: coerce_def split: if_splits)

lemma coerce_text: "coerce c (Varchar n) (VText p) = Inr w \<Longrightarrow> \<exists>q. w = VText q"
  by (auto simp: coerce_def split: if_splits)

lemma contest_statuses_short: "s \<in> set contest_statuses \<Longrightarrow> length (lit s) < 32"
  by (auto simp: contest_statuses_def lit_simps)

lemma contest_status_column:
  "\<exists>k. List.find (\<lambda>k. cname k = ''status'') (tcolumns contests_table) = Some k \<and> ctype k = Varchar 32"
  by (simp add: table_defs)

lemma contest_status_stored:
  assumes "s \<in> set contest_statuses"
  shows "coerce c (Varchar 32) (VText (lit s)) = Inr (VText (lit s))"
  by (rule coerce_id) (use assms in \<open>auto simp: contest_statuses_def has_type_def text_storable_def lit_simps\<close>)

lemma contest_status_refused:
  assumes "s \<notin> set contest_statuses" "coerce c (Varchar 32) (VText (lit s)) = Inr w"
  shows "w \<notin> set (map (\<lambda>s. VText (lit s)) contest_statuses)"
proof
  assume "w \<in> set (map (\<lambda>s. VText (lit s)) contest_statuses)"
  then obtain u where u: "u \<in> set contest_statuses" "w = VText (lit u)" by auto
  then have "lit u = lit s" using coerce_short[OF assms(2)[unfolded u(2)]] contest_statuses_short by blast
  then show False using u(1) assms(1) by (simp)
qed

lemma update_contests:
  assumes "find_table balotly_schema ''contests'' = Some t"
  shows "exec balotly_schema now (Update ''contests'' P f) db =
    res_bind (res_map (\<lambda>r. if P r then assign t (f r) r else Inr r) (db ''contests''))
      (\<lambda>rs. let db' = db(''contests'' := rs) in case db_error balotly_schema db' of None \<Rightarrow> Inr db' | Some e \<Rightarrow> Inl e)"
proof -
  have "fire_row balotly_schema ''contests'' OnUpdate rs = Inr ()" for rs
    by (simp add: fire_row_def has_trigger_def balotly_schema_eq expected_schema_def votes_append_only_def
        votes_no_truncate_def)
  then show ?thesis using assms by (simp add: exec_def Let_def res_bind_def split: sum.splits)
qed

text \<open>C27: The status of a contest may change in any direction: an update of it to a value of \<open>ContestStatus.ALL\<close>
  is accepted in every reachable database, for any rows, whatever their status is, and changes nothing
  else; any other value is refused, unless no row is selected. So a closed contest can be reopened,
  which the class's docstring excludes.\<close>

theorem contest_status_unordered:
  "let db = history balotly_schema empty_db es;
       up = exec balotly_schema now (Update ''contests'' P (\<lambda>_. [(''status'', VText (lit s))])) db in
   if s \<in> set contest_statuses \<or> filter P (db ''contests'') = []
   then up = Inr (db(''contests'' := map (set_column ''status'' (VText (lit s)) P) (db ''contests'')))
   else \<exists>e. up = Inl e"
proof -
  let ?db = "history balotly_schema empty_db es" and ?v = "VText (lit s)"
  let ?up = "exec balotly_schema now (Update ''contests'' P (\<lambda>_. [(''status'', ?v)])) ?db"
  let ?new = "\<lambda>w. ?db(''contests'' := map (set_column ''status'' w P) (?db ''contests''))"
  obtain k where k: "List.find (\<lambda>k. cname k = ''status'') (tcolumns contests_table) = Some k" "ctype k = Varchar 32"
    using contest_status_column by blast
  have ok: "db_ok balotly_schema (?new w) \<longleftrightarrow>
      filter P (?db ''contests'') = [] \<or> w \<in> set (map (\<lambda>s. VText (lit s)) contest_statuses)" for w
    unfolding db_ok_set_column[OF balotly_names contests_found reachable_ok contest_status_free] list_all_iff
      filter_empty_conv using contest_row_status[OF stored_row_ok[OF contests_found]] by blast
  have up: "?up = (case db_error balotly_schema (?new w) of None \<Rightarrow> Inr (?new w) | Some e \<Rightarrow> Inl e)"
    if "coerce ''status'' (Varchar 32) ?v = Inr w" for w
    using update_one_column[OF k(1), unfolded k(2), OF that] by (simp add: update_contests[OF contests_found] Let_def)
  have none: "?up = Inr (?new ?v)" if "filter P (?db ''contests'') = []"
  proof -
    have "map (set_column ''status'' ?v P) (?db ''contests'') = ?db ''contests''"
      using that by (intro map_idI) (auto simp: set_column_def filter_empty_conv)
    then show ?thesis using that ok[of ?v]
      by (simp add: update_contests[OF contests_found] Let_def res_map_untouched fun_upd_idem db_error_None[symmetric])
  qed
  have one: "?up = Inr (?new ?v)" if "s \<in> set contest_statuses"
    using up[OF contest_status_stored[OF that]] ok[of ?v] that by (simp add: db_error_None[symmetric])
  have bad: "\<exists>e. ?up = Inl e" if "s \<notin> set contest_statuses" "filter P (?db ''contests'') \<noteq> []"
  proof (cases "coerce ''status'' (Varchar 32) ?v")
    case (Inl e)
    show ?thesis using update_refused_value[OF k(1), unfolded k(2), OF Inl that(2)]
      by (auto simp: update_contests[OF contests_found])
  next
    case (Inr w)
    have "\<not> db_ok balotly_schema (?new w)" using ok that(2) contest_status_refused[OF that(1) Inr] by blast
    then show ?thesis using up[OF Inr] by (auto simp: db_error_None[symmetric])
  qed
  show ?thesis using none one bad by (auto simp: Let_def)
qed

end
