(* ===== verification/Effects.thy ===== *)
theory Effects
  imports Prelude
begin

text \<open>
  Python code that calls the outside world, with its exceptions and its \<open>try\<close> statements. Each call
  ends as the environment decides: normally, with an ordinary exception, or with one that is only a
  \<open>BaseException\<close> (a cancellation, an exit). An effect yields the calls it made, in order, how it
  ended, and the local state.
\<close>

datatype outcome = Done | Exc | BaseExc

type_synonym ('c, 's) eff = "('c \<Rightarrow> outcome) \<Rightarrow> 's \<Rightarrow> 'c list \<times> outcome \<times> 's"

definition call :: "'c \<Rightarrow> ('c, 's) eff" where
  "call c env s = ([c], env c, s)"

definition skip :: "('c, 's) eff" where
  "skip env s = ([], Done, s)"

definition raise_exc :: "('c, 's) eff" where
  "raise_exc env s = ([], Exc, s)"

definition modify :: "('s \<Rightarrow> 's) \<Rightarrow> ('c, 's) eff" where
  "modify f env s = ([], Done, f s)"

definition andthen :: "('c, 's) eff \<Rightarrow> ('c, 's) eff \<Rightarrow> ('c, 's) eff" where
  "andthen m n env s =
     (case m env s of (t, r, s') \<Rightarrow>
        if r = Done then (case n env s' of (t', r', s'') \<Rightarrow> (t @ t', r', s'')) else (t, r, s'))"

text \<open>\<open>try: m finally: f\<close>: an exception of \<open>f\<close> replaces that of \<open>m\<close>.\<close>

definition try_finally :: "('c, 's) eff \<Rightarrow> ('c, 's) eff \<Rightarrow> ('c, 's) eff" where
  "try_finally m f env s =
     (case m env s of (t, r, s') \<Rightarrow>
        (case f env s' of (t', r', s'') \<Rightarrow> (t @ t', if r' = Done then r else r', s'')))"

text \<open>\<open>try: m except Exception: h\<close>.\<close>

definition try_except :: "('c, 's) eff \<Rightarrow> ('c, 's) eff \<Rightarrow> ('c, 's) eff" where
  "try_except m h env s =
     (case m env s of (t, r, s') \<Rightarrow>
        if r = Exc then (case h env s' of (t', r', s'') \<Rightarrow> (t @ t', r', s'')) else (t, r, s'))"

definition cond_eff :: "('s \<Rightarrow> bool) \<Rightarrow> ('c, 's) eff \<Rightarrow> ('c, 's) eff \<Rightarrow> ('c, 's) eff" where
  "cond_eff P m n env s = (if P s then m env s else n env s)"

text \<open>\<open>async with\<close>: enter, body, and exit whatever the body did.\<close>

definition async_with :: "('c, 's) eff \<Rightarrow> ('c, 's) eff \<Rightarrow> ('c, 's) eff \<Rightarrow> ('c, 's) eff" where
  "async_with enter body leave = andthen enter (try_finally body leave)"

definition calls_of :: "'c list \<times> outcome \<times> 's \<Rightarrow> 'c list" where
  "calls_of x = fst x"

definition outcome_of :: "'c list \<times> outcome \<times> 's \<Rightarrow> outcome" where
  "outcome_of x = fst (snd x)"

definition state_of :: "'c list \<times> outcome \<times> 's \<Rightarrow> 's" where
  "state_of x = snd (snd x)"

named_theorems effects \<open>unfolding of effects\<close>

lemmas effect_defs [effects] = call_def skip_def raise_exc_def modify_def andthen_def try_finally_def
  try_except_def cond_eff_def async_with_def calls_of_def outcome_of_def state_of_def

text \<open>The finaliser runs on the state the body left, and its calls come last.\<close>

lemma try_finally_calls:
  "calls_of (try_finally m f env s) = calls_of (m env s) @ calls_of (f env (state_of (m env s)))"
  "state_of (try_finally m f env s) = state_of (f env (state_of (m env s)))"
  "outcome_of (try_finally m f env s) =
     (if outcome_of (f env (state_of (m env s))) = Done then outcome_of (m env s)
      else outcome_of (f env (state_of (m env s))))"
  by (simp_all add: effects split: prod.splits)

end
