(* ===== verification/App.thy ===== *)
theory App
  imports Config Effects Runtime
begin

text \<open>
  \<open>main.py\<close> and the utilities: the lifespan of the application as an effect on its services, and the
  health check; the runtime that \<open>build_default_worker_runtime\<close> builds from the settings; the shapes of \<open>api/core/errors.py\<close> and
  \<open>api/utils/success_response.py\<close>; and \<open>redact\<close> of \<open>api/utils/logger.py\<close>.
\<close>

section \<open>The worker runtime\<close>

text \<open>\<open>runners\<close> is the dict the function fills; at this commit nothing is registered in it.\<close>

definition default_runners :: "pystr list" where
  "default_runners = []"

definition build_worker_runtime ::
  "(rat \<Rightarrow> rat \<Rightarrow> rat) \<Rightarrow> settings \<Rightarrow> pystr list \<Rightarrow> (py_error, runtime option) result" where
  "build_worker_runtime gap s names =
     (if names = [] then Inr None
      else res_bind (init_runtime gap names (Fin (restart_base_seconds s)) (Fin (restart_max_seconds s)))
             (\<lambda>rt. Inr (Some rt)))"

definition build_default_worker_runtime ::
  "(rat \<Rightarrow> rat \<Rightarrow> rat) \<Rightarrow> settings \<Rightarrow> (py_error, runtime option) result" where
  "build_default_worker_runtime gap s = build_worker_runtime gap s default_runners"

section \<open>The lifespan\<close>

datatype app_call =
    EngineConnect
  | SelectOne
  | ConnectionClose
  | RedisPing
  | MqConnect
  | RuntimeStart
  | Serve
  | RuntimeStop
  | MqClose
  | RedisClose
  | EngineDispose

text \<open>\<open>has_runtime\<close>: the local \<open>worker_runtime\<close> is not \<open>None\<close>; \<open>published\<close>: \<open>app.state.worker_runtime\<close> is not.\<close>

record app_state =
  has_runtime :: bool
  published :: bool

definition publish_runtime :: "app_state \<Rightarrow> app_state" where
  "publish_runtime s = s\<lparr>published := True\<rparr>"

definition withdraw_runtime :: "app_state \<Rightarrow> app_state" where
  "withdraw_runtime s = s\<lparr>published := False\<rparr>"

lemmas publication [effects] = publish_runtime_def withdraw_runtime_def

definition start_workers :: "bool \<Rightarrow> (py_error, runtime option) result \<Rightarrow> (app_call, app_state) eff" where
  "start_workers embedded built =
     (if \<not> embedded then skip
      else case built of
        Inl _ \<Rightarrow> raise_exc
      | Inr None \<Rightarrow> modify (\<lambda>s. s\<lparr>has_runtime := False\<rparr>)
      | Inr (Some _) \<Rightarrow>
          andthen (modify (\<lambda>s. s\<lparr>has_runtime := True\<rparr>))
            (andthen (call RuntimeStart) (modify publish_runtime)))"

definition startup_and_serve :: "bool \<Rightarrow> (py_error, runtime option) result \<Rightarrow> (app_call, app_state) eff" where
  "startup_and_serve embedded built =
     andthen (async_with (call EngineConnect) (call SelectOne) (call ConnectionClose))
       (andthen (call RedisPing)
          (andthen (try_except (call MqConnect) skip)
             (andthen (start_workers embedded built) (call Serve))))"

definition shutdown :: "(app_call, app_state) eff" where
  "shutdown =
     try_finally (cond_eff has_runtime (call RuntimeStop) skip)
       (andthen (modify withdraw_runtime)
          (try_finally (call MqClose) (try_finally (call RedisClose) (call EngineDispose))))"

definition lifespan :: "bool \<Rightarrow> (py_error, runtime option) result \<Rightarrow> (app_call, app_state) eff" where
  "lifespan embedded built =
     andthen (modify (\<lambda>s. \<lparr>has_runtime = False, published = False\<rparr>))
       (try_finally (startup_and_serve embedded built) shutdown)"

section \<open>Health\<close>

record health =
  h_status :: string
  h_worker_mode :: string
  h_workers :: "(bool \<times> (pystr \<times> worker_status) list) option"

text \<open>\<open>rt\<close> is what \<open>app.state\<close> holds when the request reads it, \<open>seen\<close> the runtime at each later reading.
  \<open>None\<close> in \<open>h_workers\<close> is the empty dict.\<close>

definition health_check :: "runtime option \<Rightarrow> (reading \<Rightarrow> runtime) \<Rightarrow> health" where
  "health_check rt seen = \<lparr>h_status = ''healthy'',
     h_worker_mode = (case rt of None \<Rightarrow> ''external'' | Some _ \<Rightarrow> ''embedded''),
     h_workers = map_option (\<lambda>rt. status_snapshot seen (runners rt)) rt\<rparr>"

section \<open>Shapes of responses\<close>

datatype json = JNull | JBool bool | JInt int | JStr pystr | JList "json list" | JObj "(pystr \<times> json) list"

text \<open>\<open>dict.update\<close>: an existing key keeps its place and takes the new value.\<close>

fun dict_set :: "pystr \<Rightarrow> 'v \<Rightarrow> (pystr \<times> 'v) list \<Rightarrow> (pystr \<times> 'v) list" where
  "dict_set k v [] = [(k, v)]"
| "dict_set k v ((k', v') # d) = (if k' = k then (k, v) # d else (k', v') # dict_set k v d)"

definition dict_update :: "(pystr \<times> 'v) list \<Rightarrow> (pystr \<times> 'v) list \<Rightarrow> (pystr \<times> 'v) list" where
  "dict_update d e = fold (\<lambda>(k, v). dict_set k v) e d"

record http_exception =
  status_code :: int
  detail :: "(pystr \<times> json) list"

text \<open>The keys of \<open>**extra\<close> cannot be the names of the other parameters: the call would be a \<open>TypeError\<close>.\<close>

definition api_error ::
  "int \<Rightarrow> pystr \<Rightarrow> pystr \<Rightarrow> (pystr \<times> json) list \<Rightarrow> (py_error, http_exception) result" where
  "api_error status c m extra =
     (if list_ex (\<lambda>p. fst p \<in> {lit ''status_code'', lit ''code'', lit ''message''}) extra
      then Inl (TypeError ''multiple values'')
      else Inr \<lparr>status_code = status,
                detail = (let d = [(lit ''code'', JStr c), (lit ''message'', JStr m)] in
                          if extra \<noteq> [] then dict_update d extra else d)\<rparr>)"

definition success_response :: "int \<Rightarrow> pystr \<Rightarrow> json option \<Rightarrow> int \<times> (pystr \<times> json) list" where
  "success_response status m data =
     (status, [(lit ''status_code'', JInt status), (lit ''success'', JBool True), (lit ''message'', JStr m)]
       @ (case data of None \<Rightarrow> [] | Some d \<Rightarrow> [(lit ''data'', d)]))"

definition read_root :: "int \<times> (pystr \<times> json) list" where
  "read_root = success_response 200 (lit ''Balotly API is running'') None"

section \<open>Routes\<close>

text \<open>\<open>include_router\<close> puts the prefix of a router before the path of each of its endpoints.\<close>

datatype handler = ReadRoot | HealthCheck

record router =
  router_prefix :: pystr
  endpoints :: "(string \<times> pystr \<times> handler) list"

definition api_version_one :: router where
  "api_version_one = \<lparr>router_prefix = lit ''/api/v1'', endpoints = []\<rparr>"

definition include_router :: "router \<Rightarrow> (string \<times> pystr \<times> handler) list" where
  "include_router r = map (\<lambda>(m, path, h). (m, router_prefix r @ path, h)) (endpoints r)"

definition app_routes :: "(string \<times> pystr \<times> handler) list" where
  "app_routes = include_router api_version_one @
     [(''GET'', lit ''/'', ReadRoot), (''GET'', lit ''/health'', HealthCheck)]"

section \<open>Redaction\<close>

text \<open>\<open>value[:keep]\<close>: a negative bound counts from the end.\<close>

definition slice_to :: "int \<Rightarrow> pystr \<Rightarrow> pystr" where
  "slice_to keep s = (if 0 \<le> keep then take (nat keep) s else take (length s - nat (- keep)) s)"

definition redact :: "pystr option \<Rightarrow> int \<Rightarrow> pystr" where
  "redact v keep =
     (case v of None \<Rightarrow> lit ''<none>''
      | Some s \<Rightarrow> if s = [] then lit ''<none>''
                  else slice_to keep s @ 8230 # lit ''(len='' @ nat_str (length s) @ lit '')'')"

section \<open>Lemmas\<close>

lemma shutdown_calls:
  "calls_of (shutdown env s) = (if has_runtime s then [RuntimeStop] else []) @ [MqClose, RedisClose, EngineDispose]"
  "published (state_of (shutdown env s)) = False"
  by (simp_all add: shutdown_def effects)

lemma start_workers_state:
  "has_runtime (state_of (start_workers embedded built env \<lparr>has_runtime = False, published = False\<rparr>))
     = (embedded \<and> (\<exists>rt. built = Inr (Some rt)))"
  by (auto simp: start_workers_def effects split: sum.splits option.splits)

lemma origins_clean: "x \<in> set (origins s) \<Longrightarrow> x \<noteq> [] \<and> 44 \<notin> set x \<and> strip x = x"
proof -
  assume "x \<in> set (origins s)"
  then obtain y where y: "y \<in> set (split_on 44 (cors_origins s))" "strip y \<noteq> []" "x = strip y"
    by (auto simp: origins_def)
  have "44 \<notin> set y" using split_on_parts[OF y(1)] by simp
  then show ?thesis using y(2,3) set_strip[of y] strip_idem by auto
qed

lemma origins_join:
  assumes "xs \<noteq> []" and "\<forall>x \<in> set xs. x \<noteq> [] \<and> 44 \<notin> set x \<and> strip x = x"
  shows "origins (s\<lparr>cors_origins := join_with 44 xs\<rparr>) = xs"
proof -
  have "split_on 44 (join_with 44 xs) = xs" using assms by (intro split_join) auto
  moreover have "filter (\<lambda>x. strip x \<noteq> []) xs = xs" using assms(2) by (auto simp: filter_id_conv)
  moreover have "map strip xs = xs" using assms(2) by (intro map_idI) auto
  ultimately show ?thesis by (simp add: origins_def)
qed

lemma dict_set_map_of: "map_of (dict_set k v d) = (map_of d)(k \<mapsto> v)"
  by (induction d) (auto simp: fun_upd_twist)

lemma dict_update_map_of: "map_of (dict_update d e) = map_of d ++ map_of (rev e)"
proof (induction e arbitrary: d)
  case Nil
  then show ?case by (simp add: dict_update_def)
next
  case (Cons p e)
  then show ?case by (cases p) (simp add: dict_update_def dict_set_map_of del: fun_upd_apply fun_upd_def)
qed

text \<open>The calls of the lifespan: those of startup and serving, then those of shutdown.\<close>

definition orderly :: "app_call list \<Rightarrow> bool" where
  "orderly cs \<longleftrightarrow> (\<exists>before. cs = before @ (if RuntimeStart \<in> set before then [RuntimeStop] else []) @ [MqClose, RedisClose, EngineDispose]
     \<and> set before \<inter> {RuntimeStop, MqClose, RedisClose, EngineDispose} = {})"

lemma lifespan_orderly: "orderly (calls_of (lifespan embedded built env s))"
  and lifespan_unpublishes: "published (state_of (lifespan embedded built env s)) = False"
proof -
  let ?s0 = "\<lparr>has_runtime = False, published = False\<rparr>"
  let ?run = "startup_and_serve embedded built env ?s0"
  have life: "lifespan embedded built env s = try_finally (startup_and_serve embedded built) shutdown env ?s0"
    by (simp add: lifespan_def andthen_def modify_def split: prod.splits)
  have "has_runtime (state_of ?run) = (RuntimeStart \<in> set (calls_of ?run))"
    by (auto simp: startup_and_serve_def start_workers_def effects split: sum.splits option.splits)
  moreover have "set (calls_of ?run) \<inter> {RuntimeStop, MqClose, RedisClose, EngineDispose} = {}"
    by (auto simp: startup_and_serve_def start_workers_def effects split: sum.splits option.splits if_splits)
  ultimately show "orderly (calls_of (lifespan embedded built env s))"
    unfolding orderly_def by (intro exI[of _ "calls_of ?run"]) (simp add: life try_finally_calls shutdown_calls)
  show "published (state_of (lifespan embedded built env s)) = False"
    by (simp add: life try_finally_calls shutdown_calls)
qed

section \<open>Properties\<close>

text \<open>C20: Shutdown always releases everything, in order: however startup, serving and shutdown itself end,
  by exception or cancellation at any point, the last calls are those of closing the broker
  connection, closing Redis and disposing of the engine, each made exactly once; the workers are
  stopped before them, exactly when they were started; and no runtime stays published.\<close>

theorem lifespan_always_releases:
  "\<exists>before. calls_of (lifespan embedded built env s)
        = before @ (if RuntimeStart \<in> set before then [RuntimeStop] else []) @ [MqClose, RedisClose, EngineDispose]
     \<and> set before \<inter> {RuntimeStop, MqClose, RedisClose, EngineDispose} = {}
     \<and> published (state_of (lifespan embedded built env s)) = False"
  using lifespan_orderly[of embedded built env s] lifespan_unpublishes[of embedded built env s]
  unfolding orderly_def by metis

text \<open>For any way of building the runtime.\<close>

theorem serves_iff:
  "(Serve \<in> set (calls_of (lifespan embedded built env s))) =
     (env EngineConnect = Done \<and> env SelectOne = Done \<and> env ConnectionClose = Done \<and> env RedisPing = Done
      \<and> env MqConnect \<noteq> BaseExc
      \<and> (if embedded then built = Inr None \<or> (\<exists>rt. built = Inr (Some rt)) \<and> env RuntimeStart = Done else True))"
proof -
  let ?s0 = "\<lparr>has_runtime = False, published = False\<rparr>"
  have life: "lifespan embedded built env s = try_finally (startup_and_serve embedded built) shutdown env ?s0"
    by (simp add: lifespan_def andthen_def modify_def split: prod.splits)
  have "Serve \<in> set (calls_of (lifespan embedded built env s))
      \<longleftrightarrow> Serve \<in> set (calls_of (startup_and_serve embedded built env ?s0))"
    by (auto simp: life try_finally_calls shutdown_calls)
  also have "\<dots> \<longleftrightarrow> (env EngineConnect = Done \<and> env SelectOne = Done \<and> env ConnectionClose = Done \<and> env RedisPing = Done
      \<and> env MqConnect \<noteq> BaseExc
      \<and> (if embedded then built = Inr None \<or> (\<exists>rt. built = Inr (Some rt)) \<and> env RuntimeStart = Done else True))"
    by (cases "env MqConnect") (auto simp: startup_and_serve_def start_workers_def effects split: sum.splits option.splits)
  finally show ?thesis .
qed

lemma valid_settings_build:
  assumes "settings_valid s" and "restart_base_seconds s \<le> restart_max_seconds s"
    and "names \<noteq> []" and "list_all (\<lambda>n. strip n \<noteq> []) names"
    and "log2_gap_ok gap (restart_max_seconds s) (restart_base_seconds s)"
  shows "\<exists>rt. build_worker_runtime gap s names = Inr (Some rt) \<and> config_ok (config rt)
     \<and> runners rt = names \<and> base_backoff (config rt) = restart_base_seconds s
     \<and> max_backoff (config rt) = restart_max_seconds s"
proof -
  let ?b = "restart_base_seconds s" and ?m = "restart_max_seconds s"
  have pos: "0 < ?b" "?m \<le> 2 ^ 1022" using assms(1) by (auto simp: settings_valid_def intro: order_trans)
  have c: "check_config gap names (Fin ?b) (Fin ?m) = Inr \<lparr>base_backoff = ?b, max_backoff = ?m, max_exponent = \<lceil>gap ?m ?b\<rceil>\<rparr>"
    using assms pos by (intro check_config_ok) (auto simp: list_all_iff)
  have "config_ok \<lparr>base_backoff = ?b, max_backoff = ?m, max_exponent = \<lceil>gap ?m ?b\<rceil>\<rparr>"
    by (rule check_config_config_ok[OF c]) (use assms(5) pos in auto)
  then show ?thesis using assms(3) c by (auto simp: build_worker_runtime_def init_runtime_def)
qed

lemma inverted_settings_fail:
  assumes "restart_max_seconds s < restart_base_seconds s" and "names \<noteq> []"
  shows "\<exists>m. build_worker_runtime gap s names = Inl (ValueError m)"
  using assms by (auto simp: build_worker_runtime_def init_runtime_def check_config_def)

text \<open>From the environment to the workers: whenever \<open>Settings()\<close> loads, the three settings without a
  default come from the environment and the restart settings are in their bounds; and for named workers the
  runtime is then built, with those settings and a configuration in which every retry delay is finite
  and in bounds, exactly when the base does not exceed the maximum. Otherwise the start of the
  application fails with a \<open>ValueError\<close> that no validation of the settings has announced.\<close>

theorem environment_decides_workers:
  assumes "load_settings p src = Inr s" and "names \<noteq> []" and "list_all (\<lambda>n. strip n \<noteq> []) names"
    and "restart_base_seconds s \<le> restart_max_seconds s \<longrightarrow>
       log2_gap_ok gap (restart_max_seconds s) (restart_base_seconds s)"
  shows "settings_valid s \<and> src ''SECRET_KEY'' = Some (app_secret_key s)
     \<and> src ''ENCRYPTION_KEY'' = Some (vault_encryption_key s) \<and> src ''DB_URL'' = Some (database_url s)
     \<and> (if restart_base_seconds s \<le> restart_max_seconds s
        then \<exists>rt. build_worker_runtime gap s names = Inr (Some rt) \<and> config_ok (config rt) \<and> runners rt = names
               \<and> base_backoff (config rt) = restart_base_seconds s \<and> max_backoff (config rt) = restart_max_seconds s
        else \<exists>m. build_worker_runtime gap s names = Inl (ValueError m))"
  using load_settings_valid[OF assms(1)] load_settings_required[OF assms(1)]
    valid_settings_build[OF _ _ assms(2,3)] assms(4) inverted_settings_fail[OF _ assms(2)] by auto

text \<open>Two environments with the three required settings and a maximum of one second, the second with a
  base of sixty.\<close>

definition demo_parsers :: parsers where
  "demo_parsers = \<lparr>parse_int = (\<lambda>_. None), parse_bool = (\<lambda>_. None),
     parse_float = (\<lambda>t. Some (if t = lit ''60'' then 60 else 1))\<rparr>"

definition demo_source :: source where
  "demo_source = map_of [(''SECRET_KEY'', lit ''s''), (''ENCRYPTION_KEY'', lit ''k''), (''DB_URL'', lit ''d''),
     (''EMBEDDED_WORKER_RESTART_MAX_SECONDS'', lit ''1'')]"

definition demo_settings :: settings where
  "demo_settings = default_settings (lit ''s'') (lit ''k'') (lit ''d'')\<lparr>restart_max_seconds := 1\<rparr>"

lemma demo_loads:
  "load_settings demo_parsers demo_source = Inr demo_settings"
  "load_settings demo_parsers (demo_source(''EMBEDDED_WORKER_RESTART_BASE_SECONDS'' \<mapsto> lit ''60''))
     = Inr (demo_settings\<lparr>restart_base_seconds := 60\<rparr>)"
  by (simp_all add: load_settings_def text_field_def optional_def required_def demo_parsers_def demo_source_def
      demo_settings_def default_settings_def)

lemma webhook_named: "list_all (\<lambda>n. strip n \<noteq> []) [lit ''webhook'']"
  by (simp add: strip_def lit_simps rstrip_of_def lstrip_of_def is_space_def)

theorem environment_decides_workers_witness:
  "(\<exists>rt. build_worker_runtime (\<lambda>_ _. 0) demo_settings [lit ''webhook''] = Inr (Some rt) \<and> config_ok (config rt))
     \<and> (\<exists>m. build_worker_runtime (\<lambda>_ _. 0) (demo_settings\<lparr>restart_base_seconds := 60\<rparr>) [lit ''webhook''] = Inl (ValueError m))"
proof -
  have "log2_gap_ok (\<lambda>_ _. 0) 1 1" by (simp add: log2_gap_ok_def)
  then show ?thesis
    using environment_decides_workers[OF demo_loads(1) _ webhook_named, of "\<lambda>_ _. 0"]
      environment_decides_workers[OF demo_loads(2) _ webhook_named, of "\<lambda>_ _. 0"]
    by (auto simp: demo_settings_def default_settings_def)
qed

text \<open>Any settings in their bounds whose base does not exceed their maximum, however they were made.\<close>

theorem valid_settings_build_runtime:
  assumes "settings_valid s" and "restart_base_seconds s \<le> restart_max_seconds s"
    and "names \<noteq> []" and "list_all (\<lambda>n. strip n \<noteq> []) names"
    and "log2_gap_ok gap (restart_max_seconds s) (restart_base_seconds s)"
  shows "\<exists>rt. build_worker_runtime gap s names = Inr (Some rt) \<and> config_ok (config rt)"
  using valid_settings_build[OF assms] by blast

theorem valid_settings_build_runtime_witness:
  "\<exists>rt. build_worker_runtime (\<lambda>_ _. 0) (default_settings [] [] []\<lparr>restart_max_seconds := 1\<rparr>) [lit ''webhook''] = Inr (Some rt)"
proof -
  let ?s = "default_settings [] [] []\<lparr>restart_max_seconds := 1\<rparr>"
  have "settings_valid ?s" "restart_base_seconds ?s \<le> restart_max_seconds ?s"
    by (simp_all add: settings_valid_def default_settings_def)
  moreover have "log2_gap_ok (\<lambda>_ _. 0) (restart_max_seconds ?s) (restart_base_seconds ?s)"
    by (simp add: log2_gap_ok_def default_settings_def)
  ultimately show ?thesis using valid_settings_build_runtime[OF _ _ _ webhook_named, of ?s] by blast
qed

text \<open>The bounds of the two settings do not imply what the constructor requires of them: a base of 60 and
  a maximum of 1 second pass the validation, and the application fails to start with a \<open>ValueError\<close>
  once a worker is registered. At this commit none is, and no runtime is built.\<close>

theorem valid_settings_can_fail:
  "settings_valid (default_settings secret vault db\<lparr>restart_base_seconds := 60, restart_max_seconds := 1\<rparr>)
     \<and> (\<exists>m. build_worker_runtime gap (default_settings secret vault db\<lparr>restart_base_seconds := 60, restart_max_seconds := 1\<rparr>)
               [lit ''webhook''] = Inl (ValueError m))
     \<and> build_default_worker_runtime gap s = Inr None"
  by (simp add: settings_valid_def default_settings_def build_worker_runtime_def init_runtime_def
      check_config_def blank_name_def strip_def lit_simps rstrip_of_def lstrip_of_def is_space_def
      build_default_worker_runtime_def default_runners_def)

text \<open>The allowed origins: every one is non-blank, has no comma and no space around it, and any list of
  such origins, joined by commas, is read back from the setting.\<close>

theorem origins_round_trip:
  assumes "xs \<noteq> []" and "\<forall>x \<in> set xs. x \<noteq> [] \<and> 44 \<notin> set x \<and> strip x = x"
  shows "origins (s\<lparr>cors_origins := join_with 44 xs\<rparr>) = xs
     \<and> list_all (\<lambda>x. x \<noteq> [] \<and> 44 \<notin> set x \<and> strip x = x) (origins s)"
  using origins_join[OF assms] origins_clean[of _ s] by (auto simp: list_all_iff)

theorem origins_round_trip_witness:
  "origins (default_settings [] [] []\<lparr>cors_origins := join_with 44 [lit ''https://a'', lit ''https://b'']\<rparr>)
     = [lit ''https://a'', lit ''https://b'']"
proof -
  have "\<forall>x \<in> set [lit ''https://a'', lit ''https://b'']. x \<noteq> [] \<and> 44 \<notin> set x \<and> strip x = x"
    by (simp add: strip_def lit_simps rstrip_of_def lstrip_of_def is_space_def)
  then show ?thesis using origins_round_trip[of "[lit ''https://a'', lit ''https://b'']" "default_settings [] [] []"] by blast
qed

text \<open>Every error has the one shape: its detail carries the code and the message it was built with,
  whatever the extra fields are, and each extra field, the last of equal names; only an extra field
  named like a parameter is refused.\<close>

theorem error_shape:
  "case api_error status c m extra of
     Inr e \<Rightarrow> status_code e = status \<and> map_of (detail e) (lit ''code'') = Some (JStr c)
       \<and> map_of (detail e) (lit ''message'') = Some (JStr m)
       \<and> (k \<in> {lit ''code'', lit ''message''} \<or> map_of (detail e) k = map_of (rev extra) k)
   | Inl e \<Rightarrow> is_type_error e \<and> (\<exists>p \<in> set extra. fst p \<in> {lit ''status_code'', lit ''code'', lit ''message''})"
proof (cases "list_ex (\<lambda>p. fst p \<in> {lit ''status_code'', lit ''code'', lit ''message''}) extra")
  case True
  then show ?thesis by (auto simp: api_error_def list_ex_iff)
next
  case False
  then have "map_of (rev extra) (lit ''code'') = None" "map_of (rev extra) (lit ''message'') = None"
    by (auto simp: list_ex_iff map_of_eq_None_iff)
  then show ?thesis using False
    by (auto simp: api_error_def Let_def dict_update_map_of map_add_def split: option.splits)
qed

text \<open>\<open>redact\<close> shows a secret of at most \<open>keep\<close> characters entirely: its rendering begins with the secret
  itself. Longer ones show their first \<open>keep\<close> characters and their length, and nothing else.\<close>

theorem redact_shows_short_secrets:
  assumes "s \<noteq> []" and "0 \<le> keep"
  shows "redact (Some s) keep = take (nat keep) s @ 8230 # lit ''(len='' @ nat_str (length s) @ lit '')''
     \<and> (int (length s) \<le> keep \<longrightarrow> take (length s) (redact (Some s) keep) = s)"
  using assms by (simp add: redact_def slice_to_def)

theorem redact_shows_short_secrets_witness:
  "take 4 (redact (Some (lit ''1234'')) 4) = lit ''1234''"
  using redact_shows_short_secrets[of "lit ''1234''" 4] by (simp add: lit_simps)

end
