(* ===== verification/Utf8.thy ===== *)
theory Utf8
  imports PyText
begin

text \<open>
  Python's UTF-8 codec: \<open>s.encode()\<close>, \<open>b.decode()\<close> and \<open>b.decode(errors="replace")\<close>. The encoder
  raises \<open>UnicodeEncodeError\<close> on a surrogate. The decoders share one step that either reads a
  well-formed sequence or says how many bytes the ill-formed part takes, as CPython's does.
\<close>

section \<open>Encoding\<close>

definition utf8_char :: "nat \<Rightarrow> (py_error, bytes) result" where
  "utf8_char c =
     (if c < 128 then Inr [byte_of c]
      else if c < 2048 then Inr [byte_of (192 + c div 64), byte_of (128 + c mod 64)]
      else if 55296 \<le> c \<and> c \<le> 57343 then Inl UnicodeEncodeError
      else if c < 65536 then
        Inr [byte_of (224 + c div 4096), byte_of (128 + c div 64 mod 64), byte_of (128 + c mod 64)]
      else if c < 1114112 then
        Inr [byte_of (240 + c div 262144), byte_of (128 + c div 4096 mod 64),
             byte_of (128 + c div 64 mod 64), byte_of (128 + c mod 64)]
      else Inl UnicodeEncodeError)"

definition utf8_encode :: "pystr \<Rightarrow> (py_error, bytes) result" where
  "utf8_encode s = res_bind (res_map utf8_char s) (\<lambda>bss. Inr (concat bss))"

text \<open>The strings that \<open>encode()\<close> accepts: code points that are not surrogates.\<close>

definition encodable :: "pystr \<Rightarrow> bool" where
  "encodable s \<longleftrightarrow> (\<forall>c \<in> set s. c < 1114112 \<and> \<not> (55296 \<le> c \<and> c \<le> 57343))"

section \<open>Decoding\<close>

definition is_cont :: "byte \<Rightarrow> bool" where
  "is_cont b \<longleftrightarrow> 128 \<le> unat b \<and> unat b < 192"

definition low6 :: "byte \<Rightarrow> nat" where
  "low6 b = unat b - 128"

text \<open>
  \<open>Good c n\<close>: the first byte and the \<open>n\<close> that follow it encode \<open>c\<close>. \<open>Bad n\<close>: the first byte and
  the \<open>n\<close> that follow it are ill-formed.
\<close>

datatype utf8_item = Good nat nat | Bad nat

definition utf8_next :: "byte \<Rightarrow> bytes \<Rightarrow> utf8_item" where
  "utf8_next b bs =
     (let x = unat b in
      if x < 128 then Good x 0
      else if x < 194 then Bad 0
      else if x < 224 then
        (case bs of b1 # _ \<Rightarrow> if is_cont b1 then Good ((x - 192) * 64 + low6 b1) 1 else Bad 0
         | [] \<Rightarrow> Bad 0)
      else if x < 240 then
        (case bs of b1 # bs1 \<Rightarrow>
           if \<not> is_cont b1 \<or> (x = 224 \<and> unat b1 < 160) \<or> (x = 237 \<and> 160 \<le> unat b1) then Bad 0
           else (case bs1 of
                   b2 # _ \<Rightarrow> if is_cont b2
                              then Good ((x - 224) * 4096 + low6 b1 * 64 + low6 b2) 2 else Bad 1
                 | [] \<Rightarrow> Bad 1)
         | [] \<Rightarrow> Bad 0)
      else if x < 245 then
        (case bs of b1 # bs1 \<Rightarrow>
           if \<not> is_cont b1 \<or> (x = 240 \<and> unat b1 < 144) \<or> (x = 244 \<and> 144 \<le> unat b1) then Bad 0
           else (case bs1 of
                   b2 # bs2 \<Rightarrow>
                     if is_cont b2 then
                       (case bs2 of
                          b3 # _ \<Rightarrow> if is_cont b3
                                     then Good ((x - 240) * 262144 + low6 b1 * 4096 + low6 b2 * 64 + low6 b3) 3
                                     else Bad 2
                        | [] \<Rightarrow> Bad 2)
                     else Bad 1
                 | [] \<Rightarrow> Bad 1)
         | [] \<Rightarrow> Bad 0)
      else Bad 0)"

fun utf8_decode :: "bytes \<Rightarrow> (py_error, pystr) result" where
  "utf8_decode [] = Inr []"
| "utf8_decode (b # bs) =
     (case utf8_next b bs of
        Good c n \<Rightarrow> res_bind (utf8_decode (drop n bs)) (\<lambda>s. Inr (c # s))
      | Bad n \<Rightarrow> Inl UnicodeDecodeError)"

fun utf8_decode_replace :: "bytes \<Rightarrow> pystr" where
  "utf8_decode_replace [] = []"
| "utf8_decode_replace (b # bs) =
     (case utf8_next b bs of
        Good c n \<Rightarrow> c # utf8_decode_replace (drop n bs)
      | Bad n \<Rightarrow> 65533 # utf8_decode_replace (drop n bs))"

section \<open>What was encoded decodes to itself\<close>

lemma utf8_char_ok: "c < 1114112 \<Longrightarrow> \<not> (55296 \<le> c \<and> c \<le> 57343) \<Longrightarrow> \<exists>bs. utf8_char c = Inr bs"
  by (auto simp: utf8_char_def)

lemma utf8_char_encodable: "utf8_char c = Inr bs \<Longrightarrow> c < 1114112 \<and> \<not> (55296 \<le> c \<and> c \<le> 57343)"
  by (auto simp: utf8_char_def split: if_splits)

text \<open>The three- and four-byte forms, on the digits of the code point to base 64.\<close>

lemma utf8_next_three:
  assumes "hi < 16" "lo < 64" "l < 64" "hi = 0 \<Longrightarrow> 32 \<le> lo" "hi = 13 \<Longrightarrow> lo < 32"
  shows "utf8_next (byte_of (224 + hi)) (byte_of (128 + lo) # byte_of (128 + l) # rest)
    = Good (hi * 4096 + lo * 64 + l) 2"
  using assms by (simp add: utf8_next_def is_cont_def low6_def Let_def) linarith

lemma utf8_next_four:
  assumes "hi < 5" "lo < 64" "m < 64" "l < 64" "hi = 0 \<Longrightarrow> 16 \<le> lo" "hi = 4 \<Longrightarrow> lo < 16"
  shows "utf8_next (byte_of (240 + hi)) (byte_of (128 + lo) # byte_of (128 + m) # byte_of (128 + l) # rest)
    = Good (hi * 262144 + lo * 4096 + m * 64 + l) 3"
  using assms by (simp add: utf8_next_def is_cont_def low6_def Let_def) linarith

lemma utf8_next_char:
  assumes "utf8_char c = Inr bs"
  shows "bs \<noteq> [] \<and> utf8_next (hd bs) (tl bs @ rest) = Good c (length bs - 1)"
proof -
  consider "c < 128" | "128 \<le> c" "c < 2048" | "2048 \<le> c" "c < 65536" "\<not> (55296 \<le> c \<and> c \<le> 57343)"
    | "65536 \<le> c" "c < 1114112"
    using utf8_char_encodable [OF assms] by linarith
  then show ?thesis
  proof cases
    case 1
    with assms show ?thesis by (auto simp: utf8_char_def utf8_next_def)
  next
    case 2
    then have "c div 64 < 32" "2 \<le> c div 64" by auto
    with 2 assms show ?thesis
      by (auto simp: utf8_char_def utf8_next_def is_cont_def low6_def Let_def)
  next
    case 3
    define q where "q = c div 64"
    have q: "c div 4096 = q div 64" "c div 64 = q" by (simp_all add: q_def div_mult2_eq [symmetric])
    have qd: "q = q div 64 * 64 + q mod 64" and cd: "c = q * 64 + c mod 64" by (simp_all add: q_def)
    have hi: "q div 64 < 16" using 3 by (simp add: q [symmetric])
    have zero: "q div 64 = 0 \<Longrightarrow> 32 \<le> q mod 64" using 3 qd q_def by fastforce
    have surr: "q mod 64 < 32" if h: "q div 64 = 13"
    proof -
      from h 3 q have "c < 55296" by auto
      then have "q < 864" by (simp add: q_def)
      with h qd show ?thesis by linarith
    qed
    have c: "q div 64 * 4096 + q mod 64 * 64 + c mod 64 = c" using qd cd by linarith
    have "bs = [byte_of (224 + q div 64), byte_of (128 + q mod 64), byte_of (128 + c mod 64)]"
      using 3 assms by (auto simp: utf8_char_def q)
    then show ?thesis
      using utf8_next_three [OF hi _ _ zero surr, of "c mod 64" rest] c by simp
  next
    case 4
    define q where "q = c div 4096"
    have q: "c div 262144 = q div 64" "c div 4096 = q" by (simp_all add: q_def div_mult2_eq [symmetric])
    have qd: "q = q div 64 * 64 + q mod 64" by simp
    have cd: "c = q * 4096 + c div 64 mod 64 * 64 + c mod 64"
      using mod_mult2_eq [of c 64 64] div_mult_mod_eq [of c 4096] by (simp add: q_def)
    have "16 \<le> q" "q < 272" using 4 by (simp_all add: q_def)
    have hi: "q div 64 < 5" using 4 by (simp add: q [symmetric])
    have zero: "q div 64 = 0 \<Longrightarrow> 16 \<le> q mod 64" using \<open>16 \<le> q\<close> qd by linarith
    have top: "q div 64 = 4 \<Longrightarrow> q mod 64 < 16" using \<open>q < 272\<close> qd by linarith
    have c: "q div 64 * 262144 + q mod 64 * 4096 + c div 64 mod 64 * 64 + c mod 64 = c"
      using qd cd by linarith
    have "bs = [byte_of (240 + q div 64), byte_of (128 + q mod 64), byte_of (128 + c div 64 mod 64),
        byte_of (128 + c mod 64)]"
      using 4 assms by (auto simp: utf8_char_def q)
    then show ?thesis
      using utf8_next_four [OF hi _ _ _ zero top, of "c div 64 mod 64" "c mod 64" rest] c by simp
  qed
qed

lemma utf8_decode_char:
  assumes "utf8_char c = Inr bs"
  shows "utf8_decode (bs @ rest) = res_bind (utf8_decode rest) (\<lambda>s. Inr (c # s))"
    and "utf8_decode_replace (bs @ rest) = c # utf8_decode_replace rest"
  using utf8_next_char [OF assms, of rest] by (cases bs; simp)+

lemma utf8_encode_Nil [simp]: "utf8_encode [] = Inr []"
  by (simp add: utf8_encode_def)

lemma utf8_encode_Cons:
  "utf8_encode (c # s) = res_bind (utf8_char c) (\<lambda>b. res_bind (utf8_encode s) (\<lambda>bs. Inr (b @ bs)))"
  by (auto simp: utf8_encode_def res_bind_def split: sum.splits)

lemma utf8_decode_encode: "utf8_encode s = Inr bs \<Longrightarrow> utf8_decode bs = Inr s"
  by (induction s arbitrary: bs) (auto simp: utf8_encode_Cons utf8_decode_char)

lemma utf8_decode_replace_encode: "utf8_encode s = Inr bs \<Longrightarrow> utf8_decode_replace bs = s"
  by (induction s arbitrary: bs) (auto simp: utf8_encode_Cons utf8_decode_char)

lemma utf8_encode_ok: "(\<exists>bs. utf8_encode s = Inr bs) \<longleftrightarrow> encodable s"
  by (induction s)
    (auto simp: utf8_encode_Cons encodable_def dest: utf8_char_ok utf8_char_encodable)

lemma utf8_encode_error: "utf8_encode s = Inl e \<Longrightarrow> e = UnicodeEncodeError"
  by (induction s)
    (auto simp: utf8_encode_Cons utf8_char_def res_bind_eq_Inl split: if_splits)

lemma utf8_encode_ascii: "\<forall>c \<in> set s. c < 128 \<Longrightarrow> utf8_encode s = Inr (map byte_of s)"
  by (induction s) (auto simp: utf8_encode_Cons utf8_char_def)

text \<open>Decoding gives code points that are not surrogates, so its result can be encoded again.\<close>

lemma utf8_next_encodable:
  assumes "utf8_next b bs = Good c n"
  shows "encodable [c]"
proof (cases "unat b < 224")
  case True
  with assms show ?thesis
    by (auto simp: utf8_next_def Let_def encodable_def is_cont_def low6_def
        split: if_splits list.splits)
next
  case ge: False
  show ?thesis
  proof (cases "unat b < 240")
    case True
    with ge assms obtain b1 b2 r where "bs = b1 # b2 # r" "128 \<le> unat b1" "unat b1 < 192" "unat b2 < 192"
      "unat b = 237 \<Longrightarrow> unat b1 < 160" "c = (unat b - 224) * 4096 + low6 b1 * 64 + low6 b2"
      by (auto simp: utf8_next_def Let_def is_cont_def split: if_splits list.splits)
    with ge True show ?thesis
      by (cases "unat b < 237"; cases "unat b = 237") (auto simp: encodable_def low6_def)
  next
    case False
    with ge assms obtain b1 b2 b3 r where "bs = b1 # b2 # b3 # r" "unat b < 245" "unat b1 < 192" "unat b2 < 192" "unat b3 < 192"
      "unat b = 240 \<Longrightarrow> 144 \<le> unat b1" "unat b = 244 \<Longrightarrow> unat b1 < 144"
      "c = (unat b - 240) * 262144 + low6 b1 * 4096 + low6 b2 * 64 + low6 b3"
      by (auto simp: utf8_next_def Let_def is_cont_def split: if_splits list.splits)
    with False show ?thesis
      by (cases "unat b = 240"; cases "unat b = 244") (auto simp: encodable_def low6_def)
  qed
qed

lemma encodable_Cons: "encodable (c # s) \<longleftrightarrow> encodable [c] \<and> encodable s"
  by (auto simp: encodable_def)

lemma utf8_decode_replace_encodable: "encodable (utf8_decode_replace bs)"
proof (induction bs rule: utf8_decode_replace.induct)
  case 1
  then show ?case by (simp add: encodable_def)
next
  case (2 b bs)
  then show ?case
    by (cases "utf8_next b bs")
      (auto simp: encodable_Cons [of _ "utf8_decode_replace _"] dest: utf8_next_encodable,
       simp add: encodable_def)
qed

interpretation utf8: codec utf8_encode utf8_decode
  by unfold_locales (rule utf8_decode_encode)

end
