(* ===== verification/UrlLib.thy ===== *)
theory UrlLib
  imports Utf8
begin

text \<open>
  What \<open>api/db/url.py\<close> uses of \<open>urllib.parse\<close>: \<open>urlsplit\<close>, \<open>urlunsplit\<close>, \<open>parse_qsl\<close> with blank values
  kept, and \<open>urlencode\<close> of a list of pairs. The checks of a host that need tables which are not part
  of a program (IPv6 literals in brackets, Unicode normalisation) are one argument, \<open>netloc_ok\<close>; the
  rest is CPython's algorithm. The round trips at the end are \<open>codec\<close>s.
\<close>

section \<open>Percent escapes\<close>

definition is_hex :: "nat \<Rightarrow> bool" where
  "is_hex c \<longleftrightarrow> (48 \<le> c \<and> c \<le> 57) \<or> (65 \<le> c \<and> c \<le> 70) \<or> (97 \<le> c \<and> c \<le> 102)"

definition hex_val :: "nat \<Rightarrow> nat" where
  "hex_val c = (if c \<le> 57 then c - 48 else if c \<le> 70 then c - 55 else c - 87)"

definition hex_digit :: "nat \<Rightarrow> nat" where
  "hex_digit n = (if n < 10 then 48 + n else 55 + n)"

text \<open>The characters that are never quoted: letters, digits and \<open>_.-~\<close>.\<close>

definition always_safe :: "nat \<Rightarrow> bool" where
  "always_safe c \<longleftrightarrow> (48 \<le> c \<and> c \<le> 57) \<or> (65 \<le> c \<and> c \<le> 90) \<or> (97 \<le> c \<and> c \<le> 122)
     \<or> c = 95 \<or> c = 46 \<or> c = 45 \<or> c = 126"

definition quote_plus_byte :: "byte \<Rightarrow> pystr" where
  "quote_plus_byte b =
     (let n = unat b in
      if n = 32 then [43] else if always_safe n then [n]
      else [37, hex_digit (n div 16), hex_digit (n mod 16)])"

definition quote_plus :: "pystr \<Rightarrow> (py_error, pystr) result" where
  "quote_plus s = res_bind (utf8_encode s) (\<lambda>bs. Inr (concat (map quote_plus_byte bs)))"

fun unquote_to_bytes :: "pystr \<Rightarrow> bytes" where
  "unquote_to_bytes [] = []"
| "unquote_to_bytes (c # cs) =
     (if c = 37 then
        (case cs of
           a # b # rest \<Rightarrow>
             if is_hex a \<and> is_hex b then byte_of (16 * hex_val a + hex_val b) # unquote_to_bytes rest
             else byte_of 37 # unquote_to_bytes cs
         | _ \<Rightarrow> byte_of 37 # unquote_to_bytes cs)
      else byte_of c # unquote_to_bytes cs)"

text \<open>Each maximal run of ASCII characters is unquoted and decoded on its own.\<close>

function unquote_runs :: "pystr \<Rightarrow> pystr" where
  "unquote_runs [] = []"
| "unquote_runs (c # cs) =
     (if 128 \<le> c then c # unquote_runs cs
      else utf8_decode_replace (unquote_to_bytes (takeWhile (\<lambda>x. x < 128) (c # cs)))
             @ unquote_runs (dropWhile (\<lambda>x. x < 128) (c # cs)))"
  by pat_completeness auto
termination
  by (relation "measure length") (auto simp: le_imp_less_Suc length_dropWhile_le)

definition unquote :: "pystr \<Rightarrow> pystr" where
  "unquote s = (if 37 \<in> set s then unquote_runs s else s)"

definition unquote_plus :: "pystr \<Rightarrow> pystr" where
  "unquote_plus s = unquote (map (\<lambda>c. if c = 43 then 32 else c) s)"

section \<open>Query strings\<close>

definition parse_pair :: "pystr \<Rightarrow> pystr \<times> pystr" where
  "parse_pair f = (unquote_plus (before 61 f), unquote_plus (after 61 f))"

definition parse_qsl :: "pystr \<Rightarrow> (pystr \<times> pystr) list" where
  "parse_qsl q = map parse_pair (filter (\<lambda>f. f \<noteq> []) (split_on 38 q))"

definition encode_pair :: "pystr \<times> pystr \<Rightarrow> (py_error, pystr) result" where
  "encode_pair p = res_bind (quote_plus (fst p)) (\<lambda>k. res_bind (quote_plus (snd p)) (\<lambda>v. Inr (k @ 61 # v)))"

definition urlencode :: "(pystr \<times> pystr) list \<Rightarrow> (py_error, pystr) result" where
  "urlencode ps = res_bind (res_map encode_pair ps) (\<lambda>fs. Inr (join_with 38 fs))"

section \<open>Splitting and joining a URL\<close>

record split_result =
  scheme :: pystr
  netloc :: pystr
  path :: pystr
  query :: pystr
  fragment :: pystr

definition is_letter :: "nat \<Rightarrow> bool" where
  "is_letter c \<longleftrightarrow> (65 \<le> c \<and> c \<le> 90) \<or> (97 \<le> c \<and> c \<le> 122)"

definition scheme_char :: "nat \<Rightarrow> bool" where
  "scheme_char c \<longleftrightarrow> is_letter c \<or> (48 \<le> c \<and> c \<le> 57) \<or> c = 43 \<or> c = 45 \<or> c = 46"

definition ascii_lower :: "nat \<Rightarrow> nat" where
  "ascii_lower c = (if 65 \<le> c \<and> c \<le> 90 then c + 32 else c)"

text \<open>Leading C0 controls and spaces go, and tabs and line ends anywhere.\<close>

definition clean_url :: "pystr \<Rightarrow> pystr" where
  "clean_url u = filter (\<lambda>c. c \<noteq> 9 \<and> c \<noteq> 10 \<and> c \<noteq> 13) (dropWhile (\<lambda>c. c \<le> 32) u)"

definition split_scheme :: "pystr \<Rightarrow> pystr \<times> pystr" where
  "split_scheme u =
     (if 58 \<in> set u \<and> before 58 u \<noteq> [] \<and> is_letter (hd u) \<and> list_all scheme_char (before 58 u)
      then (map ascii_lower (before 58 u), after 58 u) else ([], u))"

definition netloc_end :: "nat \<Rightarrow> bool" where
  "netloc_end c \<longleftrightarrow> c = 47 \<or> c = 63 \<or> c = 35"

definition split_netloc :: "pystr \<Rightarrow> pystr \<times> pystr" where
  "split_netloc u =
     (if take 2 u = [47, 47]
      then (takeWhile (\<lambda>c. \<not> netloc_end c) (drop 2 u), dropWhile (\<lambda>c. \<not> netloc_end c) (drop 2 u))
      else ([], u))"

definition urlsplit :: "(pystr \<Rightarrow> bool) \<Rightarrow> pystr \<Rightarrow> (py_error, split_result) result" where
  "urlsplit netloc_ok u =
     (let (sch, rest) = split_scheme (clean_url u);
          (nl, rest) = split_netloc rest;
          frag = after 35 rest; rest = before 35 rest;
          q = after 63 rest; p = before 63 rest
      in if (91 \<in> set nl) \<noteq> (93 \<in> set nl) then Inl (ValueError ''Invalid IPv6 URL'')
         else if nl \<noteq> [] \<and> \<not> netloc_ok nl then Inl (ValueError ''netloc'')
         else Inr \<lparr>scheme = sch, netloc = nl, path = p, query = q, fragment = frag\<rparr>)"

text \<open>The schemes of the database URLs are not among \<open>uses_netloc\<close>, so a \<open>//\<close> is only written before a
  network location that is not empty, or before a path that starts with \<open>//\<close> itself.\<close>

definition urlunsplit :: "split_result \<Rightarrow> pystr" where
  "urlunsplit r =
     (let u = (if netloc r \<noteq> [] \<or> take 2 (path r) = [47, 47]
               then [47, 47] @ netloc r @ (if path r \<noteq> [] \<and> hd (path r) \<noteq> 47 then 47 # path r else path r)
               else path r);
          u = (if scheme r \<noteq> [] then scheme r @ 58 # u else u);
          u = (if query r \<noteq> [] then u @ 63 # query r else u)
      in if fragment r \<noteq> [] then u @ 35 # fragment r else u)"

section \<open>Quoting and unquoting\<close>

lemma hex_digit_ok: "n < 16 \<Longrightarrow> is_hex (hex_digit n) \<and> hex_val (hex_digit n) = n"
  by (auto simp: is_hex_def hex_val_def hex_digit_def)

lemma hex_digit_safe: "n < 16 \<Longrightarrow> always_safe (hex_digit n)"
  by (auto simp: always_safe_def hex_digit_def)

definition quoted_char :: "nat \<Rightarrow> bool" where
  "quoted_char c \<longleftrightarrow> always_safe c \<or> c = 43 \<or> c = 37"

lemma quoted_char_simps: "quoted_char c \<Longrightarrow> 32 < c \<and> c < 128 \<and> c \<noteq> 38 \<and> c \<noteq> 61 \<and> c \<noteq> 35"
  by (auto simp: quoted_char_def always_safe_def)

lemma quote_plus_byte_chars: "c \<in> set (quote_plus_byte b) \<Longrightarrow> quoted_char c"
  using less_mult_imp_div_less[of "unat b" 16 16] unat_byte_less[of b]
    hex_digit_safe[of "unat b div 16"] hex_digit_safe[of "unat b mod 16"]
  by (auto simp: quote_plus_byte_def Let_def quoted_char_def split: if_splits)

lemma quote_plus_chars: "quote_plus s = Inr q \<Longrightarrow> c \<in> set q \<Longrightarrow> quoted_char c"
  by (auto simp: quote_plus_def dest: quote_plus_byte_chars)

lemma unquote_quote_byte:
  "unquote_to_bytes (map (\<lambda>c. if c = 43 then 32 else c) (quote_plus_byte b) @ rest) = b # unquote_to_bytes rest"
proof -
  have n: "unat b < 256" by (rule unat_byte_less)
  consider "unat b = 32" | "unat b \<noteq> 32" "always_safe (unat b)" | "unat b \<noteq> 32" "\<not> always_safe (unat b)" by blast
  then show ?thesis
  proof cases
    case 1
    then have "b = byte_of 32" by (metis byte_of_unat)
    then show ?thesis using 1 by (simp add: quote_plus_byte_def)
  next
    case 2
    then have "unat b \<noteq> 43" "unat b \<noteq> 37" by (auto simp: always_safe_def)
    then show ?thesis using 2 by (simp add: quote_plus_byte_def)
  next
    case 3
    let ?h = "hex_digit (unat b div 16)" and ?l = "hex_digit (unat b mod 16)"
    have h: "is_hex ?h" "hex_val ?h = unat b div 16" and l: "is_hex ?l" "hex_val ?l = unat b mod 16"
      using hex_digit_ok[of "unat b div 16"] hex_digit_ok[of "unat b mod 16"] n by simp_all
    moreover have "?h \<noteq> 43" "?l \<noteq> 43" by (auto simp: hex_digit_def)
    ultimately show ?thesis using 3 by (simp add: quote_plus_byte_def Let_def)
  qed
qed

lemma unquote_quote_bytes:
  "unquote_to_bytes (map (\<lambda>c. if c = 43 then 32 else c) (concat (map quote_plus_byte bs))) = bs"
proof (induction bs)
  case Nil
  then show ?case by simp
next
  case (Cons b bs)
  then show ?case
    using unquote_quote_byte[of b "map (\<lambda>c. if c = 43 then 32 else c) (concat (map quote_plus_byte bs))"]
    by simp
qed

text \<open>On ASCII strings there is one run; without an escape it decodes to itself.\<close>

lemma unquote_runs_ascii:
  assumes "\<forall>c \<in> set s. c < 128"
  shows "unquote_runs s = utf8_decode_replace (unquote_to_bytes s)"
proof (cases s)
  case Nil
  then show ?thesis by simp
next
  case (Cons c cs)
  have "takeWhile (\<lambda>x. x < 128) (c # cs) = c # cs" "dropWhile (\<lambda>x. x < 128) (c # cs) = []"
    using assms Cons by (auto intro: takeWhile_all)
  then show ?thesis
    using Cons assms by (simp only: Cons unquote_runs.simps) simp
qed

lemma unquote_to_bytes_plain: "37 \<notin> set s \<Longrightarrow> unquote_to_bytes s = map byte_of s"
  by (induction s) auto

lemma unquote_ascii:
  assumes "\<forall>c \<in> set s. c < 128"
  shows "unquote s = utf8_decode_replace (unquote_to_bytes s)"
proof (cases "37 \<in> set s")
  case True
  then show ?thesis using unquote_runs_ascii[OF assms] by (simp add: unquote_def)
next
  case False
  then have "utf8_decode_replace (unquote_to_bytes s) = s"
    using utf8_decode_replace_encode[OF utf8_encode_ascii[OF assms]] by (simp add: unquote_to_bytes_plain)
  then show ?thesis using False by (simp add: unquote_def)
qed

lemma unquote_quote_plus:
  assumes "quote_plus s = Inr q"
  shows "unquote_plus q = s"
proof -
  obtain bs where bs: "utf8_encode s = Inr bs" and q: "q = concat (map quote_plus_byte bs)"
    using assms by (auto simp: quote_plus_def)
  have "\<forall>c \<in> set (map (\<lambda>c. if c = 43 then 32 else c) q). c < 128"
    using quote_plus_chars[OF assms] quoted_char_simps by fastforce
  then have "unquote_plus q = utf8_decode_replace bs"
    using unquote_quote_bytes[of bs] by (simp add: unquote_plus_def unquote_ascii q)
  then show ?thesis using utf8_decode_replace_encode[OF bs] by simp
qed

interpretation percent: codec quote_plus "\<lambda>q. Inr (unquote_plus q) :: (py_error, pystr) result"
  by unfold_locales (simp add: unquote_quote_plus)

text \<open>The strict reading of a quoted string: UTF-8 after the percent escapes.\<close>

interpretation quoted_text: codec_seq utf8_encode utf8_decode
    "\<lambda>bs. Inr (concat (map quote_plus_byte bs))"
    "\<lambda>q. Inr (unquote_to_bytes (map (\<lambda>c. if c = 43 then 32 else c) q))"
  by unfold_locales (auto simp: unquote_quote_bytes)

lemma unquote_strict:
  "quote_plus s = Inr q \<Longrightarrow> utf8_decode (unquote_to_bytes (map (\<lambda>c. if c = 43 then 32 else c) q)) = Inr s"
  using quoted_text.dec_enc_seq[of s q] by (auto simp: quote_plus_def)

lemma quote_plus_ok: "(\<exists>q. quote_plus s = Inr q) \<longleftrightarrow> encodable s"
  using utf8_encode_ok[of s] by (auto simp: quote_plus_def)

lemma quote_plus_error: "quote_plus s = Inl e \<Longrightarrow> e = UnicodeEncodeError"
  by (auto simp: quote_plus_def res_bind_eq_Inl dest: utf8_encode_error)

section \<open>Encoding and parsing a query\<close>

lemma encode_pair_chars:
  assumes "encode_pair p = Inr f"
  shows "f \<noteq> []" and "38 \<notin> set f" and "35 \<notin> set f" and "\<forall>c \<in> set f. 32 < c"
proof -
  obtain k v where kv: "quote_plus (fst p) = Inr k" "quote_plus (snd p) = Inr v" and f: "f = k @ 61 # v"
    using assms by (auto simp: encode_pair_def)
  show "f \<noteq> []" "38 \<notin> set f" "35 \<notin> set f" "\<forall>c \<in> set f. 32 < c"
    using quote_plus_chars[OF kv(1)] quote_plus_chars[OF kv(2)] quoted_char_simps by (auto simp: f)
qed

lemma parse_encode_pair:
  assumes "encode_pair p = Inr f"
  shows "parse_pair f = p"
proof -
  obtain k v where kv: "quote_plus (fst p) = Inr k" "quote_plus (snd p) = Inr v" and f: "f = k @ 61 # v"
    using assms by (auto simp: encode_pair_def)
  have "61 \<notin> set k" using quote_plus_chars[OF kv(1)] quoted_char_simps by blast
  then show ?thesis
    using unquote_quote_plus[OF kv(1)] unquote_quote_plus[OF kv(2)]
    by (simp add: f parse_pair_def before_after)
qed

interpretation pair: codec encode_pair "\<lambda>f. Inr (parse_pair f) :: (py_error, pystr \<times> pystr) result"
  by unfold_locales (simp add: parse_encode_pair)

lemma res_map_encode:
  assumes "res_map encode_pair ps = Inr fs"
  shows "map parse_pair fs = ps" and "\<forall>f \<in> set fs. f \<noteq> [] \<and> 38 \<notin> set f \<and> 35 \<notin> set f \<and> (\<forall>c \<in> set f. 32 < c)"
  using assms
proof -
  have "res_map (\<lambda>f. Inr (parse_pair f) :: (py_error, pystr \<times> pystr) result) fs = Inr ps"
    using assms by (rule pair.enc_list_inj)
  moreover have "res_map (\<lambda>f. Inr (parse_pair f) :: (py_error, pystr \<times> pystr) result) fs = Inr (map parse_pair fs)"
    by (rule res_map_ok) simp
  ultimately show "map parse_pair fs = ps" by simp
  show "\<forall>f \<in> set fs. f \<noteq> [] \<and> 38 \<notin> set f \<and> 35 \<notin> set f \<and> (\<forall>c \<in> set f. 32 < c)"
    using res_map_Inr_set[OF assms] encode_pair_chars by blast
qed

lemma parse_qsl_urlencode:
  assumes "urlencode ps = Inr q"
  shows "parse_qsl q = ps"
proof -
  obtain fs where fs: "res_map encode_pair ps = Inr fs" and q: "q = join_with 38 fs"
    using assms by (auto simp: urlencode_def)
  show ?thesis
  proof (cases "fs = []")
    case True
    then show ?thesis using res_map_encode(1)[OF fs] q by (simp add: parse_qsl_def)
  next
    case False
    then have "split_on 38 q = fs" using res_map_encode(2)[OF fs] q by (simp add: split_join)
    moreover have "filter (\<lambda>f. f \<noteq> []) fs = fs" using res_map_encode(2)[OF fs] by (simp add: filter_id_conv)
    ultimately show ?thesis using res_map_encode(1)[OF fs] by (simp add: parse_qsl_def)
  qed
qed

interpretation query_string: codec urlencode "\<lambda>q. Inr (parse_qsl q) :: (py_error, (pystr \<times> pystr) list) result"
  by unfold_locales (simp add: parse_qsl_urlencode)

lemma set_join_with: "c \<in> set (join_with d fs) \<Longrightarrow> c = d \<or> (\<exists>f \<in> set fs. c \<in> set f)"
  by (induction d fs rule: join_with.induct) auto

lemma urlencode_chars:
  assumes "urlencode ps = Inr q" and "c \<in> set q"
  shows "32 < c \<and> c \<noteq> 35"
proof -
  obtain fs where fs: "res_map encode_pair ps = Inr fs" and q: "q = join_with 38 fs"
    using assms by (auto simp: urlencode_def)
  have "c = 38 \<or> (\<exists>f \<in> set fs. c \<in> set f)" using assms(2) unfolding q by (rule set_join_with)
  then show ?thesis using res_map_encode(2)[OF fs] by fastforce
qed

lemma urlencode_ok: "(\<exists>q. urlencode ps = Inr q) \<longleftrightarrow> list_all (\<lambda>p. encodable (fst p) \<and> encodable (snd p)) ps"
proof -
  have pair: "(\<exists>f. encode_pair p = Inr f) \<longleftrightarrow> encodable (fst p) \<and> encodable (snd p)" for p
    using quote_plus_ok[of "fst p"] quote_plus_ok[of "snd p"] by (auto simp: encode_pair_def)
  have "(\<exists>fs. res_map encode_pair ps = Inr fs) \<longleftrightarrow> list_all (\<lambda>p. encodable (fst p) \<and> encodable (snd p)) ps"
    by (induction ps) (auto simp: pair[symmetric])
  then show ?thesis by (auto simp: urlencode_def)
qed

lemma urlencode_error: "urlencode ps = Inl e \<Longrightarrow> e = UnicodeEncodeError"
proof -
  assume a: "urlencode ps = Inl e"
  have "res_map encode_pair ps = Inl e" using a by (auto simp: urlencode_def res_bind_eq_Inl)
  then show ?thesis
    by (induction ps) (auto simp: encode_pair_def res_bind_eq_Inl dest: quote_plus_error)
qed

end
