(* ===== verification/DbUrl.thy ===== *)
theory DbUrl
  imports UrlLib
begin

text \<open>
  \<open>api/db/url.py\<close>: \<open>build_async_url\<close>; what \<open>api/db/database.py\<close> and \<open>alembic/env.py\<close> make of its
  result; and the properties of both. \<open>netloc_ok\<close> is the host check of \<open>urlsplit\<close>.
\<close>

section \<open>\<open>build_async_url\<close>\<close>

definition asyncpg_ssl_modes :: "pystr list" where
  "asyncpg_ssl_modes = [lit ''disable'', lit ''allow'', lit ''prefer'', lit ''require'', lit ''verify-ca'',
     lit ''verify-full'']"

definition async_scheme :: pystr where
  "async_scheme = lit ''postgresql+asyncpg''"

definition set_async_scheme :: "split_result \<Rightarrow> (py_error, split_result) result" where
  "set_async_scheme p =
     (if scheme p = lit ''postgres'' \<or> scheme p = lit ''postgresql'' then Inr (p\<lparr>scheme := async_scheme\<rparr>)
      else if scheme p \<noteq> async_scheme then Inl (ValueError ''scheme'')
      else Inr p)"

text \<open>The loop over the query pairs: the \<open>sslmode\<close> values, and the pairs that are kept.\<close>

fun collect_params :: "(pystr \<times> pystr) list \<Rightarrow> pystr list \<times> (pystr \<times> pystr) list \<Rightarrow> pystr list \<times> (pystr \<times> pystr) list" where
  "collect_params [] acc = acc"
| "collect_params ((k, v) # ps) (modes, kept) =
     (if k = lit ''sslmode'' then collect_params ps (modes @ [v], kept)
      else if k \<noteq> lit ''channel_binding'' then collect_params ps (modes, kept @ [(k, v)])
      else collect_params ps (modes, kept))"

definition check_ssl_modes :: "pystr list \<Rightarrow> (py_error, pystr option) result" where
  "check_ssl_modes modes =
     (if 1 < length modes then Inl (ValueError ''sslmode twice'')
      else case modes of [] \<Rightarrow> Inr None
        | m # _ \<Rightarrow> if m \<notin> set asyncpg_ssl_modes then Inl (ValueError ''sslmode'') else Inr (Some m))"

definition build_async_url :: "(pystr \<Rightarrow> bool) \<Rightarrow> pystr \<Rightarrow> (py_error, pystr \<times> pystr option) result" where
  "build_async_url netloc_ok url =
     (if url = [] then Inl (ValueError ''empty'')
      else res_bind (urlsplit netloc_ok url) (\<lambda>parsed.
        res_bind (set_async_scheme parsed) (\<lambda>parsed.
          let params = collect_params (parse_qsl (query parsed)) ([], []) in
          res_bind (check_ssl_modes (fst params)) (\<lambda>mode.
          res_bind (urlencode (snd params)) (\<lambda>q. Inr (urlunsplit (parsed\<lparr>query := q\<rparr>), mode))))))"

section \<open>The engine, and the migration environment\<close>

text \<open>What \<open>create_async_engine\<close> is called with: the URL and \<open>connect_args["ssl"]\<close>.\<close>

record engine_args =
  engine_url :: pystr
  engine_ssl :: "pystr option"

definition db_engine :: "(pystr \<Rightarrow> bool) \<Rightarrow> pystr \<Rightarrow> (py_error, engine_args) result" where
  "db_engine netloc_ok db_url =
     res_bind (build_async_url netloc_ok db_url) (\<lambda>(u, mode).
       Inr \<lparr>engine_url = u, engine_ssl = (case mode of None \<Rightarrow> None | Some m \<Rightarrow> if m = [] then None else Some m)\<rparr>)"

text \<open>\<open>os.getenv("DB_URL") or os.getenv("DATABASE_URL")\<close>: an empty value counts as absent.\<close>

definition choose_db_url :: "pystr option \<Rightarrow> pystr option \<Rightarrow> (py_error, pystr) result" where
  "choose_db_url db_url database_url =
     (case (case db_url of Some u \<Rightarrow> if u \<noteq> [] then Some u else database_url | None \<Rightarrow> database_url) of
        Some u \<Rightarrow> if u = [] then Inl (OtherError ''RuntimeError'') else Inr u
      | None \<Rightarrow> Inl (OtherError ''RuntimeError''))"

definition escape_percent :: "pystr \<Rightarrow> pystr" where
  "escape_percent u = concat (map (\<lambda>c. if c = 37 then [37, 37] else [c]) u)"

text \<open>\<open>alembic/env.py\<close> up to \<open>target_metadata\<close>: the globals \<open>db_url\<close> and \<open>ssl_mode\<close>, and the value that
  \<open>set_main_option\<close> is given.\<close>

record env_globals =
  env_url :: pystr
  env_ssl_mode :: "pystr option"
  main_option :: pystr

definition env_setup ::
  "(pystr \<Rightarrow> bool) \<Rightarrow> pystr option \<Rightarrow> pystr option \<Rightarrow> (py_error, env_globals) result" where
  "env_setup netloc_ok db_url database_url =
     res_bind (choose_db_url db_url database_url) (\<lambda>u.
     res_bind (build_async_url netloc_ok u) (\<lambda>(url, mode).
       Inr \<lparr>env_url = url, env_ssl_mode = mode, main_option = escape_percent url\<rparr>))"

text \<open>What \<open>run_migrations_online\<close> gives to \<open>create_async_engine\<close>: \<open>connect_args\<close> only where \<open>ssl_mode\<close> is
  true as Python sees it.\<close>

definition migration_engine :: "env_globals \<Rightarrow> engine_args" where
  "migration_engine g = \<lparr>engine_url = env_url g,
     engine_ssl = (case env_ssl_mode g of Some m \<Rightarrow> if m \<noteq> [] then Some m else None | None \<Rightarrow> None)\<rparr>"

text \<open>How \<open>configparser\<close> reads a value with basic interpolation: a doubled \<open>%\<close> is one, a single one
  starts a reference or is an error.\<close>

fun config_get :: "pystr \<Rightarrow> (py_error, pystr) result" where
  "config_get [] = Inr []"
| "config_get (c # cs) =
     (if c = 37 then
        (case cs of
           d # ds \<Rightarrow> if d = 37 then res_bind (config_get ds) (\<lambda>s. Inr (37 # s)) else Inl (OtherError ''InterpolationError'')
         | [] \<Rightarrow> Inl (OtherError ''InterpolationError''))
      else res_bind (config_get cs) (\<lambda>s. Inr (c # s)))"

section \<open>The loop over the query\<close>

definition sslmodes_of :: "(pystr \<times> pystr) list \<Rightarrow> pystr list" where
  "sslmodes_of ps = map snd (filter (\<lambda>p. fst p = lit ''sslmode'') ps)"

definition unrelated :: "(pystr \<times> pystr) list \<Rightarrow> (pystr \<times> pystr) list" where
  "unrelated ps = filter (\<lambda>p. fst p \<noteq> lit ''sslmode'' \<and> fst p \<noteq> lit ''channel_binding'') ps"

lemma collect_params_eq: "collect_params ps (ms, ks) = (ms @ sslmodes_of ps, ks @ unrelated ps)"
  by (induction ps arbitrary: ms ks) (auto simp: sslmodes_of_def unrelated_def)

lemma set_async_scheme_Inr:
  "set_async_scheme p = Inr p' \<longleftrightarrow>
     scheme p \<in> {lit ''postgres'', lit ''postgresql'', async_scheme} \<and> p' = p\<lparr>scheme := async_scheme\<rparr>"
  by (cases p) (auto simp: set_async_scheme_def)

lemma check_ssl_modes_Inr:
  "check_ssl_modes ms = Inr mode \<longleftrightarrow>
     ms = (case mode of None \<Rightarrow> [] | Some m \<Rightarrow> [m]) \<and> (\<forall>m. mode = Some m \<longrightarrow> m \<in> set asyncpg_ssl_modes)"
  by (cases ms; cases mode) (auto simp: check_ssl_modes_def)

lemma build_async_url_Inr:
  "build_async_url nok url = Inr (u, mode) \<longleftrightarrow>
     url \<noteq> [] \<and> (\<exists>p q. urlsplit nok url = Inr p
        \<and> scheme p \<in> {lit ''postgres'', lit ''postgresql'', async_scheme}
        \<and> sslmodes_of (parse_qsl (query p)) = (case mode of None \<Rightarrow> [] | Some m \<Rightarrow> [m])
        \<and> (\<forall>m. mode = Some m \<longrightarrow> m \<in> set asyncpg_ssl_modes)
        \<and> urlencode (unrelated (parse_qsl (query p))) = Inr q
        \<and> u = urlunsplit (p\<lparr>scheme := async_scheme, query := q\<rparr>))"
  by (simp add: build_async_url_def collect_params_eq set_async_scheme_Inr Let_def check_ssl_modes_Inr)
    (auto simp: set_async_scheme_Inr)

section \<open>Splitting what was joined\<close>

text \<open>What \<open>urlsplit\<close> guarantees of its parts.\<close>

definition split_form :: "split_result \<Rightarrow> bool" where
  "split_form p \<longleftrightarrow> list_all (\<lambda>c. \<not> netloc_end c) (netloc p)
     \<and> 35 \<notin> set (path p) \<and> 63 \<notin> set (path p) \<and> 35 \<notin> set (query p)
     \<and> (netloc p \<noteq> [] \<longrightarrow> path p = [] \<or> hd (path p) = 47)
     \<and> (\<forall>c \<in> set (netloc p) \<union> set (path p) \<union> set (query p) \<union> set (fragment p). c \<noteq> 9 \<and> c \<noteq> 10 \<and> c \<noteq> 13)"

definition netloc_valid :: "(pystr \<Rightarrow> bool) \<Rightarrow> pystr \<Rightarrow> bool" where
  "netloc_valid nok n \<longleftrightarrow> (91 \<in> set n \<longleftrightarrow> 93 \<in> set n) \<and> (n \<noteq> [] \<longrightarrow> nok n)"

lemma set_split_scheme: "c \<in> set (snd (split_scheme u)) \<Longrightarrow> c \<in> set u"
  by (auto simp: split_scheme_def dest: set_after split: if_splits)

lemma split_netloc_parts:
  assumes "split_netloc u = (n, r)"
  shows "list_all (\<lambda>c. \<not> netloc_end c) n" and "n \<noteq> [] \<Longrightarrow> r = [] \<or> netloc_end (hd r)"
    and "set n \<subseteq> set u" and "set r \<subseteq> set u"
proof -
  show "list_all (\<lambda>c. \<not> netloc_end c) n"
    using assms by (auto simp: split_netloc_def list_all_iff dest: set_takeWhileD split: if_splits)
  show "n \<noteq> [] \<Longrightarrow> r = [] \<or> netloc_end (hd r)"
    using assms hd_dropWhile[of "\<lambda>c. \<not> netloc_end c" "drop 2 u"]
    by (auto simp: split_netloc_def simp del: dropWhile_eq_Nil_conv split: if_splits)
  show "set n \<subseteq> set u" "set r \<subseteq> set u"
    using assms by (auto simp: split_netloc_def dest!: set_takeWhileD set_dropWhileD in_set_dropD split: if_splits)
qed

lemma urlsplit_form:
  assumes "urlsplit nok u = Inr p"
  shows "split_form p" and "netloc_valid nok (netloc p)"
proof -
  obtain sch r1 where r1: "split_scheme (clean_url u) = (sch, r1)" by fastforce
  obtain n r2 where r2: "split_netloc r1 = (n, r2)" by fastforce
  let ?r = "before 35 r2"
  have p: "p = \<lparr>scheme = sch, netloc = n, path = before 63 ?r, query = after 63 ?r, fragment = after 35 r2\<rparr>"
    and nv: "netloc_valid nok n"
    using assms by (auto simp: urlsplit_def r1 r2 Let_def netloc_valid_def split: if_splits)
  show "netloc_valid nok (netloc p)" using nv by (simp add: p)
  have clean: "c \<noteq> 9 \<and> c \<noteq> 10 \<and> c \<noteq> 13" if "c \<in> set r1" for c
  proof -
    have "c \<in> set (clean_url u)" using set_split_scheme[of c "clean_url u"] that r1 by simp
    then show ?thesis by (auto simp: clean_url_def)
  qed
  note parts = split_netloc_parts[OF r2]
  have "path p = [] \<or> hd (path p) = 47" if "n \<noteq> []"
  proof (cases "before 63 ?r")
    case Nil
    then show ?thesis by (simp add: p)
  next
    case (Cons c cs)
    then have "r2 \<noteq> []" by (auto simp: before_def)
    then have "netloc_end (hd r2)" using parts(2) that by blast
    moreover have "hd r2 = c" "c \<noteq> 63" "c \<noteq> 35"
      using Cons \<open>r2 \<noteq> []\<close> by (cases r2; auto simp: before_def split: if_splits)+
    ultimately show ?thesis by (simp add: p Cons netloc_end_def)
  qed
  moreover have "35 \<notin> set (before 63 ?r)" "63 \<notin> set (before 63 ?r)" "35 \<notin> set (after 63 ?r)"
    by (auto dest!: set_before set_after)
  moreover have "set (before 63 ?r) \<union> set (after 63 ?r) \<union> set (after 35 r2) \<subseteq> set r1"
    using parts(4) by (auto dest!: set_before set_after)
  ultimately show "split_form p"
    using parts clean by (fastforce simp: split_form_def p)
qed

lemma after_none: "c \<notin> set a \<Longrightarrow> after c a = []"
  unfolding after_def by (induction a) auto

lemma before_at: "c \<notin> set a \<Longrightarrow> s = a @ (if b = [] then [] else c # b) \<Longrightarrow> before c s = a \<and> after c s = b"
  by (auto simp: before_after after_none)

lemma split_netloc_join:
  assumes "list_all (\<lambda>c. \<not> netloc_end c) n" and "r = [] \<or> netloc_end (hd r)"
  shows "split_netloc ([47, 47] @ n @ r) = (n, r)"
proof -
  have "takeWhile (\<lambda>c. \<not> netloc_end c) (n @ r) = n" "dropWhile (\<lambda>c. \<not> netloc_end c) (n @ r) = r"
    using assms by (cases r; simp add: list_all_iff takeWhile_append dropWhile_append)+
  then show ?thesis by (simp add: split_netloc_def)
qed

lemma async_scheme_chars:
  "async_scheme \<noteq> []" "is_letter (hd async_scheme)" "list_all scheme_char async_scheme"
  "map ascii_lower async_scheme = async_scheme" "58 \<notin> set async_scheme" "32 < hd async_scheme"
  "\<forall>c \<in> set async_scheme. c \<noteq> 9 \<and> c \<noteq> 10 \<and> c \<noteq> 13"
  by (simp_all add: async_scheme_def lit_simps is_letter_def scheme_char_def ascii_lower_def)

text \<open>A URL of this scheme with a network location is split into the parts it was joined from.\<close>

lemma urlsplit_urlunsplit:
  assumes "split_form p" "netloc_valid nok (netloc p)" "netloc p \<noteq> []" "scheme p = async_scheme"
  shows "urlsplit nok (urlunsplit p) = Inr p"
proof -
  define q where "q = (if query p = [] then [] else 63 # query p)"
  define f where "f = (if fragment p = [] then [] else 35 # fragment p)"
  have path: "(if path p \<noteq> [] \<and> hd (path p) \<noteq> 47 then 47 # path p else path p) = path p"
    using assms(1,3) by (auto simp: split_form_def)
  have u: "urlunsplit p = async_scheme @ 58 # [47, 47] @ netloc p @ path p @ q @ f"
    using assms(3,4) path async_scheme_chars(1) by (simp add: urlunsplit_def Let_def q_def f_def)
  have ends: "path p @ q @ f = [] \<or> netloc_end (hd (path p @ q @ f))"
    using assms(1,3) by (auto simp: split_form_def q_def f_def netloc_end_def hd_append)
  have clean: "clean_url (urlunsplit p) = urlunsplit p"
  proof -
    have "dropWhile (\<lambda>c. c \<le> 32) (urlunsplit p) = urlunsplit p"
      using async_scheme_chars(1,6) by (intro dropWhile_hd_False) (auto simp: u hd_append)
    moreover have "filter (\<lambda>c. c \<noteq> 9 \<and> c \<noteq> 10 \<and> c \<noteq> 13) (urlunsplit p) = urlunsplit p"
      using assms(1) async_scheme_chars(7) unfolding filter_id_conv
      by (auto simp: u q_def f_def split_form_def split: if_splits)
    ultimately show ?thesis by (simp add: clean_url_def)
  qed
  have ss: "split_scheme (urlunsplit p) = (async_scheme, [47, 47] @ netloc p @ path p @ q @ f)"
    using async_scheme_chars by (simp add: split_scheme_def u before_after hd_append)
  have sn: "split_netloc ([47, 47] @ netloc p @ path p @ q @ f) = (netloc p, path p @ q @ f)"
    using assms(1) ends by (intro split_netloc_join) (auto simp: split_form_def)
  have "35 \<notin> set (path p @ q)" using assms(1) by (auto simp: split_form_def q_def)
  then have frag: "before 35 (path p @ q @ f) = path p @ q" "after 35 (path p @ q @ f) = fragment p"
    using before_at[of 35 "path p @ q" "path p @ q @ f" "fragment p"] by (simp_all add: f_def)
  have qry: "before 63 (path p @ q) = path p" "after 63 (path p @ q) = query p"
    using before_at[of 63 "path p" "path p @ q" "query p"] assms(1) by (simp_all add: q_def split_form_def)
  show ?thesis
    using assms(2,3,4) by (simp add: urlsplit_def clean ss sn[simplified] frag qry Let_def netloc_valid_def)
qed

section \<open>Acceptance\<close>

definition url_acceptable :: "(pystr \<Rightarrow> bool) \<Rightarrow> pystr \<Rightarrow> bool" where
  "url_acceptable nok url \<longleftrightarrow> url \<noteq> [] \<and>
     (case urlsplit nok url of Inl _ \<Rightarrow> False
      | Inr p \<Rightarrow> scheme p \<in> {lit ''postgres'', lit ''postgresql'', lit ''postgresql+asyncpg''}
         \<and> length (sslmodes_of (parse_qsl (query p))) \<le> 1
         \<and> list_all (\<lambda>m. m \<in> set asyncpg_ssl_modes) (sslmodes_of (parse_qsl (query p)))
         \<and> list_all (\<lambda>kv. encodable (fst kv) \<and> encodable (snd kv)) (unrelated (parse_qsl (query p))))"

lemma one_mode:
  "(\<exists>mode. check_ssl_modes ms = Inr mode) \<longleftrightarrow> length ms \<le> 1 \<and> list_all (\<lambda>m. m \<in> set asyncpg_ssl_modes) ms"
  by (cases ms) (auto simp: check_ssl_modes_def)

lemma acceptable_url: "(\<exists>r. build_async_url nok url = Inr r) \<longleftrightarrow> url_acceptable nok url"
proof (cases "urlsplit nok url")
  case (Inl e)
  then show ?thesis by (simp add: build_async_url_def url_acceptable_def)
next
  case (Inr p)
  show ?thesis
    using one_mode[of "sslmodes_of (parse_qsl (query p))"] urlencode_ok[of "unrelated (parse_qsl (query p))"]
    by (auto simp: build_async_url_def url_acceptable_def Inr set_async_scheme_Inr async_scheme_def
        collect_params_eq Let_def)
qed

lemma build_async_url_error:
  assumes "build_async_url nok url = Inl e"
  shows "is_value_error e"
proof -
  have "is_value_error e" if "urlsplit nok url = Inl e"
    using that by (auto simp: urlsplit_def Let_def split: if_splits prod.splits)
  moreover have "is_value_error e" if "set_async_scheme p = Inl e" for p
    using that by (auto simp: set_async_scheme_def split: if_splits)
  moreover have "is_value_error e" if "check_ssl_modes ms = Inl e" for ms
    using that by (auto simp: check_ssl_modes_def split: if_splits list.splits)
  moreover have "is_value_error e" if "urlencode ps = Inl e" for ps
    using urlencode_error[OF that] by simp
  ultimately show ?thesis
    using assms by (auto simp: build_async_url_def res_bind_eq_Inl Let_def split: if_splits)
qed

section \<open>The configuration value\<close>

text \<open>What \<open>set_main_option\<close> is given reads back as the URL.\<close>

lemma config_get_escape: "config_get (escape_percent u) = Inr u"
  by (induction u) (auto simp: escape_percent_def)

interpretation ini_value: codec "\<lambda>u. Inr (escape_percent u) :: (py_error, pystr) result" config_get
  by unfold_locales (auto simp: config_get_escape)

section \<open>Properties\<close>

text \<open>C19: What \<open>build_async_url\<close> returns: the same URL with the scheme of the asyncpg dialect and a query
  that parses to exactly the pairs of the original query except \<open>sslmode\<close> and \<open>channel_binding\<close>,
  repeated keys and blank values included and in order; and as its second result the one \<open>sslmode\<close>
  value that was there, one of the six asyncpg knows, or \<open>None\<close>.\<close>

theorem build_async_url_result:
  assumes "build_async_url nok url = Inr (u, mode)"
  shows "\<exists>p q. urlsplit nok url = Inr p
     \<and> u = urlunsplit (p\<lparr>scheme := async_scheme, query := q\<rparr>)
     \<and> parse_qsl q = filter (\<lambda>p. fst p \<noteq> lit ''sslmode'' \<and> fst p \<noteq> lit ''channel_binding'') (parse_qsl (query p))
     \<and> map snd (filter (\<lambda>p. fst p = lit ''sslmode'') (parse_qsl (query p))) = (case mode of None \<Rightarrow> [] | Some m \<Rightarrow> [m])
     \<and> (mode = None \<or> the mode \<in> set asyncpg_ssl_modes)"
proof -
  obtain p q where "urlsplit nok url = Inr p" "u = urlunsplit (p\<lparr>scheme := async_scheme, query := q\<rparr>)"
    and q: "urlencode (unrelated (parse_qsl (query p))) = Inr q"
    and m: "sslmodes_of (parse_qsl (query p)) = (case mode of None \<Rightarrow> [] | Some m \<Rightarrow> [m])"
      "\<forall>m. mode = Some m \<longrightarrow> m \<in> set asyncpg_ssl_modes"
    using assms unfolding build_async_url_Inr by blast
  moreover have "mode = None \<or> the mode \<in> set asyncpg_ssl_modes" using m(2) by (cases mode) auto
  ultimately show ?thesis
    using parse_qsl_urlencode[OF q] unfolding unrelated_def sslmodes_of_def by blast
qed

definition demo_url :: pystr where
  "demo_url = lit ''postgres://app@db/balotly?application_name=a%20b&channel_binding=require&sslmode=verify-full&x=1&x=2&blank=''"

definition demo_async_url :: pystr where
  "demo_async_url = lit ''postgresql+asyncpg://app@db/balotly?application_name=a+b&x=1&x=2&blank=''"

lemma demo_url_built:
  "build_async_url (\<lambda>_. True) demo_url = Inr (demo_async_url, Some (lit ''verify-full''))"
  by code_simp

theorem build_async_url_result_witness:
  "\<exists>p q. urlsplit (\<lambda>_. True) demo_url = Inr p
     \<and> demo_async_url = urlunsplit (p\<lparr>scheme := async_scheme, query := q\<rparr>)"
  using build_async_url_result[OF demo_url_built] by blast

text \<open>C34: Exactly which URLs are accepted (\<open>url_acceptable\<close>), and that every rejection is a \<open>ValueError\<close>:
  the URL is not empty, its parts pass the checks of \<open>urlsplit\<close>, its scheme is one of the three, there
  is at most one \<open>sslmode\<close> and it is a known one, and the pairs that are kept can be encoded.\<close>

theorem build_async_url_accepts_iff:
  "case build_async_url nok url of Inr _ \<Rightarrow> url_acceptable nok url
     | Inl e \<Rightarrow> is_value_error e \<and> \<not> url_acceptable nok url"
  using acceptable_url[of nok url] build_async_url_error[of nok url]
  by (cases "build_async_url nok url") auto

text \<open>The result is a fixed point, where the URL names a host: building it again gives the same URL
  and no \<open>sslmode\<close>, and splitting it gives back the host, path and fragment of the original.\<close>

theorem build_async_url_idempotent:
  assumes "build_async_url nok url = Inr (u, mode)"
    and "urlsplit nok url = Inr p" and "netloc p \<noteq> []"
  shows "build_async_url nok u = Inr (u, None)
     \<and> (\<exists>p'. urlsplit nok u = Inr p' \<and> scheme p' = async_scheme \<and> netloc p' = netloc p
           \<and> path p' = path p \<and> fragment p' = fragment p)"
proof -
  let ?ps = "unrelated (parse_qsl (query p))"
  obtain q where q: "urlencode ?ps = Inr q" and u: "u = urlunsplit (p\<lparr>scheme := async_scheme, query := q\<rparr>)"
    using assms(1,2) unfolding build_async_url_Inr by auto
  let ?p' = "p\<lparr>scheme := async_scheme, query := q\<rparr>"
  have "split_form ?p'"
    using urlsplit_form(1)[OF assms(2)] urlencode_chars[OF q] by (fastforce simp: split_form_def)
  moreover have "netloc_valid nok (netloc ?p')" using urlsplit_form(2)[OF assms(2)] by simp
  ultimately have split: "urlsplit nok u = Inr ?p'" using assms(3) u by (simp add: urlsplit_urlunsplit)
  have qs: "parse_qsl q = ?ps" by (rule parse_qsl_urlencode[OF q])
  have "sslmodes_of ?ps = []" "unrelated ?ps = ?ps"
    by (auto simp: sslmodes_of_def unrelated_def filter_empty_conv)
  moreover have "u \<noteq> []" using assms(3) by (simp add: u urlunsplit_def Let_def)
  ultimately have "build_async_url nok u = Inr (u, None)"
    unfolding build_async_url_Inr using split q qs u by auto
  then show ?thesis using split by auto
qed

theorem build_async_url_idempotent_witness:
  "build_async_url (\<lambda>_. True) demo_async_url = Inr (demo_async_url, None)"
proof -
  have "case urlsplit (\<lambda>_. True) demo_url of Inl _ \<Rightarrow> False | Inr p \<Rightarrow> netloc p \<noteq> []" by code_simp
  then obtain p where "urlsplit (\<lambda>_. True) demo_url = Inr p" "netloc p \<noteq> []" by (auto split: sum.splits)
  then show ?thesis using build_async_url_idempotent[OF demo_url_built] by blast
qed

text \<open>A URL without a host loses its slashes: \<open>postgresql:///db\<close>, the form for a local socket, comes out
  as \<open>postgresql+asyncpg:/db\<close>, because \<open>urlunsplit\<close> writes an empty network location only for schemes
  it knows.\<close>

theorem hostless_url_loses_slashes:
  "build_async_url nok (lit ''postgresql:///db?host=/tmp'') = Inr (lit ''postgresql+asyncpg:/db?host=%2Ftmp'', None)"
  by code_simp

text \<open>C37: The migrations connect as the application does: with \<open>DB_URL\<close> set, the engine that \<open>alembic/env.py\<close>
  makes has the URL and the \<open>ssl\<close> argument of the one that \<open>database.py\<close> makes, and one is made exactly
  where the other is; \<open>ssl\<close> is the \<open>sslmode\<close> of the URL; and the value written to the Alembic
  configuration reads back as the URL, whatever \<open>%\<close> escapes it has.\<close>

theorem migrations_use_the_same_engine:
  assumes "db_url \<noteq> []"
  shows "(case env_setup nok (Some db_url) other of
       Inl e \<Rightarrow> db_engine nok db_url = Inl e
     | Inr g \<Rightarrow> db_engine nok db_url = Inr (migration_engine g)
         \<and> build_async_url nok db_url = Inr (engine_url (migration_engine g), engine_ssl (migration_engine g))
         \<and> config_get (main_option g) = Inr (engine_url (migration_engine g)))"
proof (cases "build_async_url nok db_url")
  case (Inl e)
  then show ?thesis using assms by (simp add: env_setup_def choose_db_url_def db_engine_def)
next
  case (Inr p)
  obtain u mode where b: "build_async_url nok db_url = Inr (u, mode)" using Inr by (cases p) simp
  have "mode \<noteq> Some []" using b unfolding build_async_url_Inr by (auto simp: asyncpg_ssl_modes_def)
  then show ?thesis
    using assms b config_get_escape
    by (cases mode) (auto simp: env_setup_def choose_db_url_def db_engine_def migration_engine_def)
qed

theorem migrations_use_the_same_engine_witness:
  "\<exists>g. env_setup (\<lambda>_. True) (Some demo_url) None = Inr g \<and> engine_ssl (migration_engine g) = Some (lit ''verify-full'')
     \<and> db_engine (\<lambda>_. True) demo_url = Inr (migration_engine g)"
proof -
  have ne: "demo_url \<noteq> []" by (simp add: demo_url_def)
  have "\<exists>g. env_setup (\<lambda>_. True) (Some demo_url) None = Inr g"
    using demo_url_built ne by (auto simp: env_setup_def choose_db_url_def)
  then obtain g where g: "env_setup (\<lambda>_. True) (Some demo_url) None = Inr g" by blast
  then show ?thesis
    using migrations_use_the_same_engine[OF ne, of "\<lambda>_. True" None] demo_url_built by (simp add: g)
qed

end
