(* ===== verification/Startup.thy ===== *)
theory Startup
  imports App DbUrl
begin

text \<open>
  From the environment of the process to the first request: what happens when \<open>main.py\<close> is imported
  (\<open>Settings()\<close>, the Redis client, the database URL and the engine), and then its lifespan. What the
  constructors of redis and SQLAlchemy accept, and the host check of \<open>urlsplit\<close>, are arguments.
\<close>

section \<open>Importing \<open>main.py\<close>\<close>

record clients =
  redis_accepts :: "pystr \<times> bool \<Rightarrow> bool"
  engine_accepts :: "engine_args \<Rightarrow> pool_args \<Rightarrow> bool"
  host_ok :: "pystr \<Rightarrow> bool"

datatype import_error = SettingsInvalid config_error | RedisUrlInvalid | DatabaseUrlInvalid py_error | EngineInvalid

definition redis_module :: "clients \<Rightarrow> settings \<Rightarrow> (import_error, unit) result" where
  "redis_module cl s = (if redis_accepts cl (redis_client_args s) then Inr () else Inl RedisUrlInvalid)"

definition database_module :: "clients \<Rightarrow> settings \<Rightarrow> (import_error, engine_args) result" where
  "database_module cl s = (case db_engine (host_ok cl) (database_url s) of
     Inl e \<Rightarrow> Inl (DatabaseUrlInvalid e)
   | Inr e \<Rightarrow> if engine_accepts cl e (engine_pool_args s) then Inr e else Inl EngineInvalid)"

text \<open>\<open>api.core.mq\<close> comes first and imports the settings; then \<open>redis_client\<close> and \<open>api.db.database\<close>.\<close>

definition import_main :: "parsers \<Rightarrow> clients \<Rightarrow> source \<Rightarrow> (import_error, settings) result" where
  "import_main p cl src = (case load_settings p src of
     Inl e \<Rightarrow> Inl (SettingsInvalid e)
   | Inr s \<Rightarrow> res_bind (redis_module cl s) (\<lambda>_. res_bind (database_module cl s) (\<lambda>_. Inr s)))"

text \<open>\<open>env.py\<close> of Alembic imports \<open>api.db.database\<close> for its metadata, and so the settings and the engine.\<close>

definition import_database :: "parsers \<Rightarrow> clients \<Rightarrow> source \<Rightarrow> (import_error, settings) result" where
  "import_database p cl src = (case load_settings p src of
     Inl e \<Rightarrow> Inl (SettingsInvalid e)
   | Inr s \<Rightarrow> res_bind (database_module cl s) (\<lambda>_. Inr s))"

text \<open>The process: a failing import ends it before the lifespan begins. \<open>names\<close> are the registered runners.\<close>

definition application ::
  "(rat \<Rightarrow> rat \<Rightarrow> rat) \<Rightarrow> parsers \<Rightarrow> clients \<Rightarrow> source \<Rightarrow> pystr list \<Rightarrow> (app_call, app_state) eff" where
  "application gap p cl src names = (case import_main p cl src of
     Inl _ \<Rightarrow> raise_exc
   | Inr s \<Rightarrow> lifespan (run_embedded_workers s) (build_worker_runtime gap s names))"

lemma import_main_Inr:
  "import_main p cl src = Inr s \<longleftrightarrow> load_settings p src = Inr s \<and> redis_accepts cl (redis_client_args s)
     \<and> (\<exists>e. db_engine (host_ok cl) (database_url s) = Inr e \<and> engine_accepts cl e (engine_pool_args s))"
  by (auto simp: import_main_def redis_module_def database_module_def split: sum.splits if_splits)

text \<open>Whether a runtime is built does not depend on the logarithm.\<close>

lemma worker_runtime_built:
  assumes "settings_valid s" "names \<noteq> []"
  shows "(\<exists>rt. build_worker_runtime gap s names = Inr (Some rt)) \<longleftrightarrow>
     list_all (\<lambda>n. strip n \<noteq> []) names \<and> restart_base_seconds s \<le> restart_max_seconds s"
    and "build_worker_runtime gap s names \<noteq> Inr None"
proof -
  have pos: "0 < restart_base_seconds s" using assms(1) by (auto simp: settings_valid_def)
  show "(\<exists>rt. build_worker_runtime gap s names = Inr (Some rt)) \<longleftrightarrow>
     list_all (\<lambda>n. strip n \<noteq> []) names \<and> restart_base_seconds s \<le> restart_max_seconds s"
  proof
    assume "\<exists>rt. build_worker_runtime gap s names = Inr (Some rt)"
    then obtain cfg where "check_config gap names (Fin (restart_base_seconds s)) (Fin (restart_max_seconds s)) = Inr cfg"
      using assms(2) by (auto simp: build_worker_runtime_def init_runtime_def)
    then show "list_all (\<lambda>n. strip n \<noteq> []) names \<and> restart_base_seconds s \<le> restart_max_seconds s"
      by (rule check_config_Inr) (auto simp: list_all_iff)
  next
    assume "list_all (\<lambda>n. strip n \<noteq> []) names \<and> restart_base_seconds s \<le> restart_max_seconds s"
    then show "\<exists>rt. build_worker_runtime gap s names = Inr (Some rt)"
      using check_config_ok[of names "restart_base_seconds s" "restart_max_seconds s" gap] assms(2) pos
      by (auto simp: build_worker_runtime_def init_runtime_def list_all_iff)
  qed
  show "build_worker_runtime gap s names \<noteq> Inr None"
    using assms(2) by (auto simp: build_worker_runtime_def res_bind_def split: sum.splits)
qed

lemma workers_ready:
  assumes "settings_valid s"
  shows "(build_worker_runtime gap s names = Inr None
      \<or> (\<exists>rt. build_worker_runtime gap s names = Inr (Some rt)) \<and> ready) =
    (if names \<noteq> [] then list_all (\<lambda>n. strip n \<noteq> []) names \<and> restart_base_seconds s \<le> restart_max_seconds s \<and> ready
     else True)"
proof (cases "names = []")
  case True
  then show ?thesis by (simp add: build_worker_runtime_def)
next
  case False
  then show ?thesis using worker_runtime_built[OF assms False, of gap] by auto
qed

section \<open>Properties\<close>

text \<open>C38: From the environment to serving: the process serves exactly when the settings load, the Redis
  client, the database URL and the engine are accepted while \<open>main.py\<close> is imported, PostgreSQL answers
  a query and Redis a ping, and, where the settings embed workers and some are registered, none of their
  names is blank, the restart base does not exceed the maximum, and the runtime starts. A broker that is
  down does not keep it from serving; only a cancellation during the broker's connect does.\<close>

theorem application_serves_iff:
  "(Serve \<in> set (calls_of (application gap p cl src names env st))) =
     (\<exists>s. load_settings p src = Inr s \<and> redis_accepts cl (redis_client_args s)
        \<and> (\<exists>e. db_engine (host_ok cl) (database_url s) = Inr e \<and> engine_accepts cl e (engine_pool_args s))
        \<and> env EngineConnect = Done \<and> env SelectOne = Done \<and> env ConnectionClose = Done \<and> env RedisPing = Done
        \<and> env MqConnect \<noteq> BaseExc
        \<and> (if run_embedded_workers s \<and> names \<noteq> []
            then list_all (\<lambda>n. strip n \<noteq> []) names \<and> restart_base_seconds s \<le> restart_max_seconds s
              \<and> env RuntimeStart = Done
            else True))"
proof (cases "import_main p cl src")
  case (Inl e)
  then have "\<not> (\<exists>s. import_main p cl src = Inr s)" by simp
  then show ?thesis using Inl unfolding import_main_Inr by (auto simp: application_def raise_exc_def calls_of_def)
next
  case (Inr s)
  then have s: "load_settings p src = Inr s" "redis_accepts cl (redis_client_args s)"
    "\<exists>e. db_engine (host_ok cl) (database_url s) = Inr e \<and> engine_accepts cl e (engine_pool_args s)"
    unfolding import_main_Inr by simp_all
  show ?thesis
    using s workers_ready[OF load_settings_valid[OF s(1)], of gap names "env RuntimeStart = Done"]
    by (auto simp: application_def Inr serves_iff)
qed

text \<open>A process whose broker is down serves; one with a \<open>DB_URL\<close> of another database never does.\<close>

definition demo_clients :: clients where
  "demo_clients = \<lparr>redis_accepts = (\<lambda>_. True), engine_accepts = (\<lambda>_ _. True), host_ok = (\<lambda>_. True)\<rparr>"

lemma demo_application_serves:
  "let env = (\<lambda>_. Done)(MqConnect := Exc); idle = \<lparr>has_runtime = False, published = False\<rparr>;
     src = demo_source(''DB_URL'' \<mapsto> demo_url); bad = demo_source(''DB_URL'' \<mapsto> lit ''mysql://db/x'') in
     Serve \<in> set (calls_of (application (\<lambda>_ _. 0) demo_parsers demo_clients src [lit ''webhook''] env idle))
     \<and> calls_of (application (\<lambda>_ _. 0) demo_parsers demo_clients bad [lit ''webhook''] env idle) = []"
proof -
  have loads: "load_settings demo_parsers (demo_source(''DB_URL'' \<mapsto> u)) = Inr (demo_settings\<lparr>database_url := u\<rparr>)" for u
    by (simp add: load_settings_def text_field_def optional_def required_def demo_parsers_def demo_source_def
      demo_settings_def default_settings_def)
  have good: "import_main demo_parsers demo_clients (demo_source(''DB_URL'' \<mapsto> demo_url)) = Inr (demo_settings\<lparr>database_url := demo_url\<rparr>)"
    unfolding import_main_Inr using loads[of demo_url] demo_url_built by (simp add: demo_clients_def db_engine_def)
  have "case db_engine (\<lambda>_. True) (lit ''mysql://db/x'') of Inl _ \<Rightarrow> True | Inr _ \<Rightarrow> False" by code_simp
  then have bad: "\<exists>e. import_main demo_parsers demo_clients (demo_source(''DB_URL'' \<mapsto> lit ''mysql://db/x'')) = Inl e"
    by (auto simp: import_main_def loads redis_module_def database_module_def demo_clients_def split: sum.splits)
  have "\<exists>rt. build_worker_runtime (\<lambda>_ _. 0) (demo_settings\<lparr>database_url := demo_url\<rparr>) [lit ''webhook''] = Inr (Some rt)"
    using worker_runtime_built(1)[of "demo_settings\<lparr>database_url := demo_url\<rparr>" "[lit ''webhook'']" "\<lambda>_ _. 0"] webhook_named
    by (simp add: demo_settings_def default_settings_def settings_valid_def)
  then have "Serve \<in> set (calls_of (application (\<lambda>_ _. 0) demo_parsers demo_clients (demo_source(''DB_URL'' \<mapsto> demo_url))
      [lit ''webhook''] ((\<lambda>_. Done)(MqConnect := Exc)) \<lparr>has_runtime = False, published = False\<rparr>))"
    by (auto simp: application_def good serves_iff)
  then show ?thesis using bad by (auto simp: Let_def application_def raise_exc_def calls_of_def)
qed

end
