(* ===== verification/Database.thy ===== *)
theory Database
  imports Startup
begin

text \<open>
  The runs of \<open>alembic/env.py\<close>, offline and online, and the session dependency \<open>get_db\<close> of
  \<open>api/db/database.py\<close>, as effects on SQLAlchemy and Alembic: which calls are made, in which order,
  and what is closed however a call ends.
\<close>

datatype migration_call =
    FileConfig
  | ConfigureUrl pystr
  | ConfigureConnection
  | BeginTransaction
  | RunMigrations
  | EndTransaction
  | CreateEngine engine_args
  | OpenConnection
  | CloseConnection
  | DisposeEngine

text \<open>\<open>with context.begin_transaction(): context.run_migrations()\<close>\<close>

definition migrate_in_transaction :: "(migration_call, unit) eff" where
  "migrate_in_transaction = async_with (call BeginTransaction) (call RunMigrations) (call EndTransaction)"

definition run_migrations_offline :: "pystr \<Rightarrow> (migration_call, unit) eff" where
  "run_migrations_offline url = andthen (call (ConfigureUrl url)) migrate_in_transaction"

definition do_run_migrations :: "(migration_call, unit) eff" where
  "do_run_migrations = andthen (call ConfigureConnection) migrate_in_transaction"

definition run_migrations_online :: "env_globals \<Rightarrow> (migration_call, unit) eff" where
  "run_migrations_online g =
     andthen (call (CreateEngine (migration_engine g)))
       (andthen (async_with (call OpenConnection) do_run_migrations (call CloseConnection)) (call DisposeEngine))"

text \<open>The module: its imports, the logging set-up where Alembic has a configuration file, its globals, and then
  the run. \<open>db_url\<close> and \<open>other_url\<close> are \<open>DB_URL\<close> and \<open>DATABASE_URL\<close> of the environment behind \<open>load_dotenv()\<close>.\<close>

definition env_main ::
  "parsers \<Rightarrow> clients \<Rightarrow> source \<Rightarrow> pystr option \<Rightarrow> pystr option \<Rightarrow> bool \<Rightarrow> bool \<Rightarrow> (migration_call, unit) eff" where
  "env_main p cl src db_url other_url config_file offline =
     (case import_database p cl src of
        Inl _ \<Rightarrow> raise_exc
      | Inr _ \<Rightarrow> andthen (if config_file then call FileConfig else skip)
          (case env_setup (host_ok cl) db_url other_url of
             Inl _ \<Rightarrow> raise_exc
           | Inr g \<Rightarrow> if offline then run_migrations_offline (env_url g) else run_migrations_online g))"

lemmas migration_effects = migrate_in_transaction_def run_migrations_offline_def do_run_migrations_def
  run_migrations_online_def effects

text \<open>The calls that come before the migrations when nothing fails.\<close>

definition preparations :: "bool \<Rightarrow> bool \<Rightarrow> env_globals \<Rightarrow> migration_call list" where
  "preparations config_file offline g = (if config_file then [FileConfig] else [])
     @ (if offline then [ConfigureUrl (env_url g), BeginTransaction]
        else [CreateEngine (migration_engine g), OpenConnection, ConfigureConnection, BeginTransaction])"

section \<open>Sessions\<close>

datatype session_call = OpenSession | UseSession | CloseSession

definition get_db :: "(session_call, unit) eff" where
  "get_db = async_with (call OpenSession) (call UseSession) (call CloseSession)"

lemma session_closed:
  "CloseSession \<in> set (calls_of (get_db env s)) \<longleftrightarrow> env OpenSession = Done"
  by (simp add: get_db_def effects)

section \<open>Properties\<close>

text \<open>C39: A migration run is bracketed on every path. The migrations run exactly when the imports of \<open>env.py\<close>
  succeed, the environment names an acceptable URL and every preparation succeeds; a transaction that was
  begun is ended, and a connection that was opened is closed after it, however the migrations end; the run
  ends normally exactly when every call it made did; and only then is the online engine disposed of.\<close>

theorem migrations_are_bracketed:
  "let (calls, end, _) = env_main p cl src db_url other_url config_file offline env s;
       ready = (case import_database p cl src of Inl _ \<Rightarrow> False
         | Inr _ \<Rightarrow> (case env_setup (host_ok cl) db_url other_url of Inl _ \<Rightarrow> False
         | Inr g \<Rightarrow> list_all (\<lambda>c. env c = Done) (preparations config_file offline g))) in
     (RunMigrations \<in> set calls) = ready
     \<and> (EndTransaction \<in> set calls) = ready
     \<and> (if ready \<and> \<not> offline then \<exists>pre. set pre \<inter> {EndTransaction, CloseConnection} = {}
            \<and> (calls = pre @ [EndTransaction, CloseConnection]
               \<or> calls = pre @ [EndTransaction, CloseConnection, DisposeEngine]) else True)
     \<and> (CloseConnection \<in> set calls) = (OpenConnection \<in> set calls \<and> env OpenConnection = Done)
     \<and> (end = Done) = (ready \<and> list_all (\<lambda>c. env c = Done) calls)
     \<and> (DisposeEngine \<in> set calls) =
         (ready \<and> \<not> offline \<and> list_all (\<lambda>c. env c = Done) [RunMigrations, EndTransaction, CloseConnection])"
proof (cases "import_database p cl src")
  case (Inl e)
  then show ?thesis by (simp add: env_main_def raise_exc_def)
next
  case imported: (Inr _)
  show ?thesis
  proof (cases "env_setup (host_ok cl) db_url other_url")
    case (Inl e)
    then show ?thesis by (simp add: env_main_def imported effects)
  next
    case (Inr g)
    let ?head = "(if config_file then [FileConfig] else []) @
      [CreateEngine (migration_engine g), OpenConnection, ConfigureConnection, BeginTransaction, RunMigrations]"
    note start = env_main_def imported Inr preparations_def migration_effects
    have pre: "\<exists>pre. set pre \<inter> {EndTransaction, CloseConnection} = {} \<and>
        (xs = pre @ [EndTransaction, CloseConnection] \<or> xs = pre @ [EndTransaction, CloseConnection, DisposeEngine])"
      if "xs = ?head @ ys" "ys = [EndTransaction, CloseConnection] \<or> ys = [EndTransaction, CloseConnection, DisposeEngine]" for xs ys
      using that by (intro exI[of _ ?head]) (auto split: if_splits)
    show ?thesis
    proof (cases offline)
      case True
      then show ?thesis by (simp add: start)
    next
      case False
      then show ?thesis by (auto simp: start intro!: pre)
    qed
  qed
qed

end
