(* ===== verification/Base64.thy ===== *)
theory Base64
  imports Prelude PyText
begin

text \<open>
  \<open>base64.b64encode\<close>, the URL-safe variant of \<open>secrets.token_urlsafe\<close>, and \<open>base64.b64decode\<close> with
  \<open>validate=True\<close>, which is \<open>binascii.a2b_base64\<close> in strict mode: its loop over the characters with the
  position in the quantum, the bits left over, the pads seen and whether padding has started. A pad
  in the first two positions of a quantum is skipped there, so \<open>AAAA=\<close> is accepted.
\<close>

section \<open>The alphabets\<close>

definition b64_char :: "nat \<Rightarrow> nat" where
  "b64_char n = (if n < 26 then 65 + n else if n < 52 then 71 + n else if n < 62 then n - 4
     else if n = 62 then 43 else 47)"

definition b64_val :: "nat \<Rightarrow> nat option" where
  "b64_val c = (if 65 \<le> c \<and> c \<le> 90 then Some (c - 65) else if 97 \<le> c \<and> c \<le> 122 then Some (c - 71)
     else if 48 \<le> c \<and> c \<le> 57 then Some (c + 4) else if c = 43 then Some 62 else if c = 47 then Some 63
     else None)"

definition urlsafe_char :: "nat \<Rightarrow> nat" where
  "urlsafe_char c = (if c = 43 then 45 else if c = 47 then 95 else c)"

lemma b64_val_char: "n < 64 \<Longrightarrow> b64_val (b64_char n) = Some n"
  by (auto simp: b64_val_def b64_char_def)

lemma b64_char_not_pad: "n < 64 \<Longrightarrow> b64_char n \<noteq> 61"
  by (auto simp: b64_char_def)

lemma b64_char_range: "n < 64 \<Longrightarrow> 43 \<le> b64_char n \<and> b64_char n \<le> 122"
  by (auto simp: b64_char_def)

section \<open>Encoding\<close>

fun b64encode :: "bytes \<Rightarrow> pystr" where
  "b64encode [] = []"
| "b64encode [a] = [b64_char (unat a div 4), b64_char (unat a mod 4 * 16), 61, 61]"
| "b64encode [a, b] =
     [b64_char (unat a div 4), b64_char (unat a mod 4 * 16 + unat b div 16), b64_char (unat b mod 16 * 4), 61]"
| "b64encode (a # b # c # rest) =
     b64_char (unat a div 4) # b64_char (unat a mod 4 * 16 + unat b div 16)
     # b64_char (unat b mod 16 * 4 + unat c div 64) # b64_char (unat c mod 64) # b64encode rest"

section \<open>Strict decoding\<close>

fun a2b :: "nat \<Rightarrow> nat \<Rightarrow> nat \<Rightarrow> bool \<Rightarrow> pystr \<Rightarrow> (py_error, bytes) result" where
  "a2b pos left pads padding [] =
     (if pos = 0 then Inr [] else Inl (BinasciiError ''Incorrect padding''))"
| "a2b pos left pads padding (c # cs) =
     (if c = 61 then
        (if 2 \<le> pos then
           (if 4 \<le> pos + (pads + 1) then
              (if cs \<noteq> [] then Inl (BinasciiError ''Excess data after padding'') else Inr [])
            else a2b pos left (pads + 1) True cs)
         else a2b pos left pads True cs)
      else case b64_val c of
        None \<Rightarrow> Inl (BinasciiError ''Only base64 data is allowed'')
      | Some v \<Rightarrow>
          if padding then Inl (BinasciiError ''Discontinuous padding not allowed'')
          else if pos = 0 then a2b 1 v 0 padding cs
          else if pos = 1 then res_bind (a2b 2 (v mod 16) 0 padding cs) (\<lambda>bs. Inr (byte_of (left * 4 + v div 16) # bs))
          else if pos = 2 then res_bind (a2b 3 (v mod 4) 0 padding cs) (\<lambda>bs. Inr (byte_of (left * 16 + v div 4) # bs))
          else res_bind (a2b 0 0 0 padding cs) (\<lambda>bs. Inr (byte_of (left * 64 + v) # bs)))"

definition b64decode :: "pystr \<Rightarrow> (py_error, bytes) result" where
  "b64decode s =
     (if list_ex (\<lambda>c. 128 \<le> c) s then Inl (ValueError ''ASCII'')
      else if s \<noteq> [] \<and> hd s = 61 then Inl (BinasciiError ''Leading padding not allowed'')
      else a2b 0 0 0 False s)"

section \<open>Decoding what was encoded\<close>

text \<open>The six-bit groups of up to three bytes, and the bytes put together again.\<close>

lemma group_bounds:
  "unat (a :: byte) div 4 < 64" "unat a mod 4 * 16 + unat (b :: byte) div 16 < 64"
  "unat b mod 16 * 4 + unat (c :: byte) div 64 < 64" "unat c mod 64 < 64"
  "unat a mod 4 * 16 < 64" "unat b mod 16 * 4 < 64"
proof -
  have "unat a < 256" "unat b < 256" "unat c < 256" by (rule unat_byte_less)+
  then have "unat a div 4 < 64" "unat b div 16 < 16" "unat c div 64 < 4"
    by (auto intro: less_mult_imp_div_less)
  then show "unat a div 4 < 64" "unat a mod 4 * 16 + unat b div 16 < 64"
    "unat b mod 16 * 4 + unat c div 64 < 64" "unat c mod 64 < 64"
    "unat a mod 4 * 16 < 64" "unat b mod 16 * 4 < 64"
    using mod_less_divisor[of 4 "unat a"] mod_less_divisor[of 16 "unat b"] by (auto simp: algebra_simps)
qed

lemma group_bytes:
  "byte_of (unat (a :: byte) div 4 * 4 + (unat a mod 4 * 16 + unat (b :: byte) div 16) div 16) = a"
  "byte_of ((unat a mod 4 * 16 + unat b div 16) mod 16 * 16 + (unat b mod 16 * 4 + unat (c :: byte) div 64) div 4) = b"
  "byte_of ((unat b mod 16 * 4 + unat c div 64) mod 4 * 64 + unat c mod 64) = c"
  "byte_of (unat a div 4 * 4 + (unat a mod 4 * 16) div 16) = a"
  "byte_of ((unat a mod 4 * 16 + unat b div 16) mod 16 * 16 + (unat b mod 16 * 4) div 4) = b"
proof -
  have "unat b < 256" "unat c < 256" by (rule unat_byte_less)+
  then have "unat b div 16 < 16" "unat c div 64 < 4" by (auto intro: less_mult_imp_div_less)
  then have "(unat a mod 4 * 16 + unat b div 16) div 16 = unat a mod 4"
    "(unat a mod 4 * 16 + unat b div 16) mod 16 = unat b div 16"
    "(unat b mod 16 * 4 + unat c div 64) div 4 = unat b mod 16"
    "(unat b mod 16 * 4 + unat c div 64) mod 4 = unat c div 64" by simp_all
  then show "byte_of (unat a div 4 * 4 + (unat a mod 4 * 16 + unat b div 16) div 16) = a"
    "byte_of ((unat a mod 4 * 16 + unat b div 16) mod 16 * 16 + (unat b mod 16 * 4 + unat c div 64) div 4) = b"
    "byte_of ((unat b mod 16 * 4 + unat c div 64) mod 4 * 64 + unat c mod 64) = c"
    "byte_of (unat a div 4 * 4 + (unat a mod 4 * 16) div 16) = a"
    "byte_of ((unat a mod 4 * 16 + unat b div 16) mod 16 * 16 + (unat b mod 16 * 4) div 4) = b"
    by (simp_all add: div_mult_mod_eq)
qed

lemma a2b_step:
  assumes "n < 64"
  shows "a2b 0 l p False (b64_char n # cs) = a2b 1 n 0 False cs"
    and "a2b (Suc 0) l p False (b64_char n # cs) = res_bind (a2b 2 (n mod 16) 0 False cs) (\<lambda>bs. Inr (byte_of (l * 4 + n div 16) # bs))"
    and "a2b 2 l p False (b64_char n # cs) = res_bind (a2b 3 (n mod 4) 0 False cs) (\<lambda>bs. Inr (byte_of (l * 16 + n div 4) # bs))"
    and "a2b 3 l p False (b64_char n # cs) = res_bind (a2b 0 0 0 False cs) (\<lambda>bs. Inr (byte_of (l * 64 + n) # bs))"
  using assms by (simp_all add: b64_val_char b64_char_not_pad)

lemma a2b_b64encode: "a2b 0 0 0 False (b64encode bs) = Inr bs"
proof (induction bs rule: b64encode.induct)
  case 1
  then show ?case by simp
next
  case (2 a)
  have "a2b 2 l 0 False [61, 61] = Inr []" for l by simp
  then show ?case
    using group_bytes(4)[of a] by (simp add: a2b_step group_bounds del: a2b.simps)
next
  case (3 a b)
  have "a2b 3 l 0 False [61] = Inr []" for l by simp
  then show ?case
    using group_bytes(1)[of a b] group_bytes(5)[of a b] by (simp add: a2b_step group_bounds del: a2b.simps)
next
  case (4 a b c rest)
  then show ?case
    using group_bytes(1)[of a b] group_bytes(2)[of a b c] group_bytes(3)[of b c]
    by (simp add: a2b_step group_bounds del: a2b.simps)
qed

lemma b64encode_chars: "x \<in> set (b64encode bs) \<Longrightarrow> 43 \<le> x \<and> x \<le> 122"
proof (induction bs rule: b64encode.induct)
  case 1
  then show ?case by simp
next
  case (2 a)
  then show ?case using b64_char_range[OF group_bounds(1)[of a]] b64_char_range[OF group_bounds(5)[of a]] by auto
next
  case (3 a b)
  then show ?case
    using b64_char_range[OF group_bounds(1)[of a]] b64_char_range[OF group_bounds(2)[of a b]]
      b64_char_range[OF group_bounds(6)[of b]] by auto
next
  case (4 a b c rest)
  then show ?case
    using b64_char_range[OF group_bounds(1)[of a]] b64_char_range[OF group_bounds(2)[of a b]]
      b64_char_range[OF group_bounds(3)[of b c]] b64_char_range[OF group_bounds(4)[of c]] by auto
qed

lemma b64encode_head: "b64encode bs = [] \<or> hd (b64encode bs) \<noteq> 61"
  by (cases bs rule: b64encode.cases) (auto simp: b64_char_not_pad group_bounds)

lemma b64decode_b64encode: "b64decode (b64encode bs) = Inr bs"
proof -
  have "\<not> list_ex (\<lambda>c. 128 \<le> c) (b64encode bs)"
    using b64encode_chars[of _ bs] by (fastforce simp: list_ex_iff)
  then show ?thesis using b64encode_head[of bs] a2b_b64encode[of bs] by (simp add: b64decode_def)
qed

interpretation base64: codec "\<lambda>bs. Inr (b64encode bs) :: (py_error, pystr) result" b64decode
  by unfold_locales (auto simp: b64decode_b64encode)

lemma b64encode_inj: "b64encode xs = b64encode ys \<Longrightarrow> xs = ys"
  by (rule base64.enc_inj[of _ "b64encode ys"]) simp_all

lemma length_b64encode: "length (b64encode bs) = 4 * ((length bs + 2) div 3)"
proof (induction bs rule: b64encode.induct)
  case (4 a b c rest)
  have "(5 + length rest) div 3 = Suc (Suc (Suc (length rest)) div 3)" by presburger
  then show ?case using 4 by simp
qed simp_all

text \<open>The encoding of 32 bytes ends in one pad, which the URL-safe token drops.\<close>

definition rstrip_pad :: "pystr \<Rightarrow> pystr" where
  "rstrip_pad s = rstrip_of (\<lambda>c. c = 61) s"

definition token_urlsafe_of :: "bytes \<Rightarrow> pystr" where
  "token_urlsafe_of bs = rstrip_pad (map urlsafe_char (b64encode bs))"

end
