(* ===== verification/Sha256.thy ===== *)
theory Sha256
  imports Prelude PyText
begin

unbundle bit_operations_syntax

text \<open>
  SHA-256 (FIPS 180-4) and HMAC (FIPS 198-1) on byte lists, as \<open>hashlib.sha256\<close> and \<open>hmac.new\<close> compute
  them; the lengths of their results are what the password and secret hashing of \<open>Security\<close> rest on.
\<close>

type_synonym w32 = "32 word"

definition rotr :: "nat \<Rightarrow> w32 \<Rightarrow> w32" where
  "rotr n x = drop_bit n x OR push_bit (32 - n) x"

text \<open>The constants, as the standard defines them: the first 32 bits of the fractional parts of the
  cube roots of the first 64 primes, and of the square roots of the first 8. \<open>root_bits k n b r\<close>
  settles the \<open>b\<close> lowest bits of the integer \<open>k\<close>-th root of \<open>n\<close>.\<close>

primrec root_bits :: "nat \<Rightarrow> nat \<Rightarrow> nat \<Rightarrow> nat \<Rightarrow> nat" where
  "root_bits k n 0 r = r"
| "root_bits k n (Suc b) r = root_bits k n b (if (r + 2 ^ b) ^ k \<le> n then r + 2 ^ b else r)"

definition root_fraction :: "nat \<Rightarrow> nat \<Rightarrow> w32" where
  "root_fraction k p = word_of_nat (root_bits k (p * 2 ^ (32 * k)) 40 0)"

definition primes_below :: "nat \<Rightarrow> nat list" where
  "primes_below n = filter (\<lambda>p. list_all (\<lambda>d. p mod d \<noteq> 0) [2..<p]) [2..<n]"

definition sha_k :: "w32 list" where
  "sha_k = map (root_fraction 3) (primes_below 312)"

datatype sha_state = Sha w32 w32 w32 w32 w32 w32 w32 w32

definition sha_init :: sha_state where
  "sha_init = Sha (root_fraction 2 2) (root_fraction 2 3) (root_fraction 2 5) (root_fraction 2 7)
     (root_fraction 2 11) (root_fraction 2 13) (root_fraction 2 17) (root_fraction 2 19)"

section \<open>Padding and blocks\<close>

definition w32_bytes :: "w32 \<Rightarrow> bytes" where
  "w32_bytes w = [ucast (drop_bit 24 w), ucast (drop_bit 16 w), ucast (drop_bit 8 w), ucast w]"

definition nat_be8 :: "nat \<Rightarrow> bytes" where
  "nat_be8 n = map (\<lambda>i. byte_of (n div 256 ^ (7 - i) mod 256)) [0..<8]"

definition sha_pad :: "bytes \<Rightarrow> bytes" where
  "sha_pad m = m @ 0x80 # replicate ((119 - length m mod 64) mod 64) 0 @ nat_be8 (8 * length m)"

fun words_of :: "bytes \<Rightarrow> w32 list" where
  "words_of (a # b # c # d # rest) =
     (push_bit 24 (ucast a) OR push_bit 16 (ucast b) OR push_bit 8 (ucast c) OR ucast d) # words_of rest"
| "words_of _ = []"

section \<open>Compression\<close>

definition small_sigma0 :: "w32 \<Rightarrow> w32" where
  "small_sigma0 x = rotr 7 x XOR rotr 18 x XOR drop_bit 3 x"

definition small_sigma1 :: "w32 \<Rightarrow> w32" where
  "small_sigma1 x = rotr 17 x XOR rotr 19 x XOR drop_bit 10 x"

text \<open>The message schedule, newest word first.\<close>

primrec schedule :: "nat \<Rightarrow> w32 list \<Rightarrow> w32 list" where
  "schedule 0 ws = ws"
| "schedule (Suc n) ws =
     schedule n ((small_sigma1 (ws ! 1) + ws ! 6 + small_sigma0 (ws ! 14) + ws ! 15) # ws)"

fun sha_round :: "w32 \<times> w32 \<Rightarrow> sha_state \<Rightarrow> sha_state" where
  "sha_round (k, w) (Sha a b c d e f g h) =
     (let t1 = h + (rotr 6 e XOR rotr 11 e XOR rotr 25 e) + ((e AND f) XOR (NOT e AND g)) + k + w;
          t2 = (rotr 2 a XOR rotr 13 a XOR rotr 22 a) + ((a AND b) XOR (a AND c) XOR (b AND c))
      in Sha (t1 + t2) a b c (d + t1) e f g)"

fun sha_add :: "sha_state \<Rightarrow> sha_state \<Rightarrow> sha_state" where
  "sha_add (Sha a b c d e f g h) (Sha a' b' c' d' e' f' g' h') =
     Sha (a + a') (b + b') (c + c') (d + d') (e + e') (f + f') (g + g') (h + h')"

definition sha_block :: "bytes \<Rightarrow> sha_state \<Rightarrow> sha_state" where
  "sha_block blk st = sha_add st (fold sha_round (zip sha_k (rev (schedule 48 (rev (words_of blk))))) st)"

fun blocks :: "nat \<Rightarrow> bytes \<Rightarrow> bytes list" where
  "blocks 0 bs = []"
| "blocks (Suc n) bs = take 64 bs # blocks n (drop 64 bs)"

fun sha_bytes :: "sha_state \<Rightarrow> bytes" where
  "sha_bytes (Sha a b c d e f g h) = concat (map w32_bytes [a, b, c, d, e, f, g, h])"

definition sha256 :: "bytes \<Rightarrow> bytes" where
  "sha256 m = sha_bytes (fold sha_block (blocks (length (sha_pad m) div 64) (sha_pad m)) sha_init)"

lemma length_sha256 [simp]: "length (sha256 m) = 32"
proof -
  have "length (sha_bytes st) = 32" for st by (cases st) (simp add: w32_bytes_def)
  then show ?thesis by (simp add: sha256_def)
qed

text \<open>The padded message is a whole number of blocks.\<close>

lemma sha_pad_blocks: "length (sha_pad m) mod 64 = 0"
proof -
  define r where "r = length m mod 64"
  have "length (sha_pad m) = length m + (9 + (119 - r) mod 64)"
    by (simp add: sha_pad_def nat_be8_def r_def)
  then have "length (sha_pad m) mod 64 = (r + (9 + (119 - r) mod 64)) mod 64"
    unfolding r_def by (metis mod_add_left_eq)
  moreover have "(r + (9 + (119 - r) mod 64)) mod 64 = 0"
  proof (cases "r \<le> 55")
    case True
    then have "(119 - r) mod 64 = 55 - r" by (simp add: mod_if)
    then show ?thesis using True by simp
  next
    case False
    moreover have "r < 64" by (simp add: r_def)
    ultimately show ?thesis by simp
  qed
  ultimately show ?thesis by simp
qed

section \<open>HMAC\<close>

definition hmac_key :: "bytes \<Rightarrow> bytes" where
  "hmac_key k = (let k' = (if 64 < length k then sha256 k else k) in k' @ replicate (64 - length k') 0)"

definition hmac_sha256 :: "bytes \<Rightarrow> bytes \<Rightarrow> bytes" where
  "hmac_sha256 k m =
     sha256 (map (\<lambda>b. b XOR 0x5c) (hmac_key k) @ sha256 (map (\<lambda>b. b XOR 0x36) (hmac_key k) @ m))"

lemma length_hmac [simp]: "length (hmac_sha256 k m) = 32"
  by (simp add: hmac_sha256_def)

lemma length_hmac_key: "length (hmac_key k) = 64"
  by (simp add: hmac_key_def Let_def)

section \<open>Hexadecimal digests\<close>

definition hex_char :: "nat \<Rightarrow> nat" where
  "hex_char n = (if n < 10 then 48 + n else 87 + n)"

definition hexdigest :: "bytes \<Rightarrow> pystr" where
  "hexdigest bs = concat (map (\<lambda>b. [hex_char (unat b div 16), hex_char (unat b mod 16)]) bs)"

lemma length_hexdigest [simp]: "length (hexdigest bs) = 2 * length bs"
  by (induction bs) (auto simp: hexdigest_def)

lemma hex_char_inj: "m < 16 \<Longrightarrow> n < 16 \<Longrightarrow> hex_char m = hex_char n \<Longrightarrow> m = n"
  by (auto simp: hex_char_def split: if_splits)

lemma hex_char_range: "n < 16 \<Longrightarrow> (48 \<le> hex_char n \<and> hex_char n \<le> 57) \<or> (97 \<le> hex_char n \<and> hex_char n \<le> 102)"
  by (auto simp: hex_char_def)

lemma nibbles: "unat (b :: byte) div 16 < 16" "unat b mod 16 < 16"
  using unat_byte_less[of b] by (auto intro: less_mult_imp_div_less)

lemma hexdigest_inj: "hexdigest xs = hexdigest ys \<Longrightarrow> xs = ys"
proof (induction xs arbitrary: ys)
  case Nil
  then show ?case by (cases ys) (auto simp: hexdigest_def)
next
  case (Cons x xs)
  then obtain y ys' where ys: "ys = y # ys'" by (cases ys) (auto simp: hexdigest_def)
  have "hex_char (unat x div 16) = hex_char (unat y div 16)" "hex_char (unat x mod 16) = hex_char (unat y mod 16)"
    and rest: "hexdigest xs = hexdigest ys'"
    using Cons.prems by (auto simp: hexdigest_def ys)
  then have "unat x div 16 = unat y div 16" "unat x mod 16 = unat y mod 16"
    using hex_char_inj nibbles by blast+
  then have "unat x = unat y" by (metis div_mult_mod_eq)
  then have "x = y" by (metis byte_of_unat)
  then show ?case using Cons.IH[OF rest] ys by simp
qed

lemma hexdigest_chars:
  "c \<in> set (hexdigest bs) \<Longrightarrow> (48 \<le> c \<and> c \<le> 57) \<or> (97 \<le> c \<and> c \<le> 102)"
  using hex_char_range[OF nibbles(1)] hex_char_range[OF nibbles(2)] by (auto simp: hexdigest_def)

end
