(* ===== verification/Security.thy ===== *)
theory Security
  imports Base64 Sha256 Utf8
begin

text \<open>
  \<open>api/core/security.py\<close>: the vault, the hashing of secrets and the hashing of passwords. The process
  state is the two \<open>lru_cache\<close>s, how many bytes were drawn from the operating system's entropy, and
  the bcrypt computations that were made, each with its cost factor; a call of bcrypt that raises,
  such as \<open>checkpw\<close> on a text that is no hash, makes none. AES-GCM and bcrypt are third-party packages and therefore
  arguments, fields of \<open>crypto_env\<close>, as are the entropy and the two settings; what the code relies on
  of them is stated in \<open>aes_gcm_ok\<close> and \<open>bcrypt_ok\<close>.
\<close>

section \<open>State, environment, operations that may raise\<close>

record sec_state =
  key_memo :: "bytes option"
  decoy_memo :: "pystr option"
  drawn :: nat
  bcrypt_calls :: "nat list"

record crypto_env =
  entropy :: "nat \<Rightarrow> byte"
  aes_encrypt :: "bytes \<Rightarrow> bytes \<Rightarrow> bytes \<Rightarrow> (py_error, bytes) result"
  aes_decrypt :: "bytes \<Rightarrow> bytes \<Rightarrow> bytes \<Rightarrow> (py_error, bytes) result"
  bc_gensalt :: "bytes \<Rightarrow> bytes"
  bc_hashpw :: "bytes \<Rightarrow> bytes \<Rightarrow> (py_error, bytes) result"
  bc_checkpw :: "bytes \<Rightarrow> bytes \<Rightarrow> (py_error, bool) result"
  bc_rounds :: "bytes \<Rightarrow> nat"
  encryption_key :: pystr
  secret_key :: pystr

type_synonym 'a op = "sec_state \<Rightarrow> (py_error, 'a) result \<times> sec_state"

definition op_return :: "'a \<Rightarrow> 'a op" where
  "op_return x st = (Inr x, st)"

definition op_lift :: "(py_error, 'a) result \<Rightarrow> 'a op" where
  "op_lift r st = (r, st)"

definition op_bind :: "'a op \<Rightarrow> ('a \<Rightarrow> 'b op) \<Rightarrow> 'b op" where
  "op_bind m f st = (case m st of (Inl e, st') \<Rightarrow> (Inl e, st') | (Inr x, st') \<Rightarrow> f x st')"

lemmas op_defs = op_return_def op_lift_def op_bind_def

section \<open>The vault\<close>

definition draw :: "crypto_env \<Rightarrow> nat \<Rightarrow> nat \<Rightarrow> bytes" where
  "draw env pos n = map (\<lambda>i. entropy env (pos + i)) [0..<n]"

lemma length_draw [simp]: "length (draw env pos n) = n"
  by (simp add: draw_def)

definition token_bytes :: "crypto_env \<Rightarrow> nat \<Rightarrow> bytes op" where
  "token_bytes env n st = (Inr (draw env (drawn st) n), st\<lparr>drawn := drawn st + n\<rparr>)"

definition decode_key :: "pystr \<Rightarrow> (py_error, bytes) result" where
  "decode_key s =
     (case b64decode s of
        Inl _ \<Rightarrow> Inl (ValueError ''not valid base64'')
      | Inr raw \<Rightarrow> if length raw \<noteq> 32 then Inl (ValueError ''must decode to exactly 32 bytes'') else Inr raw)"

definition vault_key :: "crypto_env \<Rightarrow> bytes op" where
  "vault_key env st =
     (case key_memo st of Some k \<Rightarrow> (Inr k, st)
      | None \<Rightarrow> (case decode_key (encryption_key env) of
            Inl e \<Rightarrow> (Inl e, st)
          | Inr k \<Rightarrow> (Inr k, st\<lparr>key_memo := Some k\<rparr>)))"

definition encrypt_bytes :: "crypto_env \<Rightarrow> bytes \<Rightarrow> bytes op" where
  "encrypt_bytes env plaintext =
     op_bind (token_bytes env 12) (\<lambda>nonce.
     op_bind (vault_key env) (\<lambda>k.
     op_bind (op_lift (aes_encrypt env k nonce plaintext)) (\<lambda>c. op_return (nonce @ c))))"

definition decrypt_bytes :: "crypto_env \<Rightarrow> bytes \<Rightarrow> bytes op" where
  "decrypt_bytes env blob =
     (if length blob \<le> 12 then op_lift (Inl (InvalidTag ''too short''))
      else op_bind (vault_key env) (\<lambda>k. op_lift (aes_decrypt env k (take 12 blob) (drop 12 blob))))"

definition encrypt_str :: "crypto_env \<Rightarrow> pystr \<Rightarrow> bytes op" where
  "encrypt_str env s = op_bind (op_lift (utf8_encode s)) (encrypt_bytes env)"

definition decrypt_str :: "crypto_env \<Rightarrow> bytes \<Rightarrow> pystr op" where
  "decrypt_str env blob = op_bind (decrypt_bytes env blob) (\<lambda>bs. op_lift (utf8_decode bs))"

section \<open>Secrets\<close>

definition hash_secret :: "pystr \<Rightarrow> (py_error, pystr) result" where
  "hash_secret s = res_bind (utf8_encode s) (\<lambda>bs. Inr (hexdigest (sha256 bs)))"

definition hash_short_code :: "crypto_env \<Rightarrow> pystr \<Rightarrow> (py_error, pystr) result" where
  "hash_short_code env code =
     res_bind (utf8_encode (secret_key env)) (\<lambda>k.
     res_bind (utf8_encode code) (\<lambda>c. Inr (hexdigest (hmac_sha256 k c))))"

definition generate_secret :: "crypto_env \<Rightarrow> pystr \<Rightarrow> pystr op" where
  "generate_secret env prefix =
     op_bind (token_bytes env 32) (\<lambda>bs. op_return (prefix @ 95 # token_urlsafe_of bs))"

section \<open>Passwords\<close>

definition prehash :: "pystr \<Rightarrow> (py_error, bytes) result" where
  "prehash password = res_bind (utf8_encode password) (\<lambda>bs. Inr (map byte_of (b64encode (sha256 bs))))"

text \<open>The cost factor is named by the salt that is hashed with, or by the hash that is checked against.\<close>

definition count_bcrypt :: "nat \<Rightarrow> (py_error, 'a) result \<Rightarrow> 'a op" where
  "count_bcrypt rounds r st =
     (r, case r of Inl _ \<Rightarrow> st | Inr _ \<Rightarrow> st\<lparr>bcrypt_calls := bcrypt_calls st @ [rounds]\<rparr>)"

text \<open>\<open>bcrypt.gensalt()\<close> draws 16 bytes of the same entropy.\<close>

definition hash_password :: "crypto_env \<Rightarrow> pystr \<Rightarrow> pystr op" where
  "hash_password env password =
     op_bind (op_lift (prehash password)) (\<lambda>p.
     op_bind (token_bytes env 16) (\<lambda>r.
     op_bind (count_bcrypt (bc_rounds env (bc_gensalt env r)) (bc_hashpw env p (bc_gensalt env r))) (\<lambda>h. op_lift (utf8_decode h))))"

definition check_password :: "crypto_env \<Rightarrow> pystr \<Rightarrow> pystr \<Rightarrow> bool op" where
  "check_password env password password_hash =
     op_bind (op_lift (prehash password)) (\<lambda>p.
     op_bind (op_lift (utf8_encode password_hash)) (\<lambda>h. count_bcrypt (bc_rounds env h) (bc_checkpw env p h)))"

definition verify_password :: "crypto_env \<Rightarrow> pystr \<Rightarrow> pystr \<Rightarrow> bool op" where
  "verify_password env password password_hash st =
     (case check_password env password password_hash st of
        (Inl e, st') \<Rightarrow> if is_value_error e \<or> is_type_error e then (Inr False, st') else (Inl e, st')
      | (Inr b, st') \<Rightarrow> (Inr b, st'))"

definition decoy_password_hash :: "crypto_env \<Rightarrow> pystr op" where
  "decoy_password_hash env st =
     (case decoy_memo st of Some h \<Rightarrow> (Inr h, st)
      | None \<Rightarrow> op_bind (generate_secret env (lit ''decoy'')) (\<lambda>s.
                op_bind (hash_password env s) (\<lambda>h st'. (Inr h, st'\<lparr>decoy_memo := Some h\<rparr>))) st)"

definition verify_password_equal_time :: "crypto_env \<Rightarrow> pystr \<Rightarrow> pystr option \<Rightarrow> bool op" where
  "verify_password_equal_time env password password_hash =
     (case password_hash of
        None \<Rightarrow> op_bind (decoy_password_hash env) (\<lambda>h.
                op_bind (verify_password env password h) (\<lambda>_. op_return False))
      | Some h \<Rightarrow> verify_password env password h)"

section \<open>What the code relies on\<close>

text \<open>AES-GCM with a 32-byte key and a 12-byte nonce: encryption succeeds, adds a 16-byte tag, and
  decryption with the same key and nonce gives the plaintext back.\<close>

definition aes_gcm_ok :: "crypto_env \<Rightarrow> bool" where
  "aes_gcm_ok env \<longleftrightarrow> (\<forall>k n p. length k = 32 \<and> length n = 12 \<longrightarrow>
     (\<exists>c. aes_encrypt env k n p = Inr c \<and> length c = length p + 16 \<and> aes_decrypt env k n c = Inr p))"

text \<open>bcrypt on inputs of at most 72 bytes without a NUL: hashing with a generated salt, whose cost factor
  is 12 by default, succeeds with an ASCII text of that cost factor, that the same input verifies against and
  that any input can be checked against; and the only exceptions are \<open>ValueError\<close> and \<open>TypeError\<close>.\<close>

definition bcrypt_ok :: "crypto_env \<Rightarrow> bool" where
  "bcrypt_ok env \<longleftrightarrow>
     (\<forall>p r. length p \<le> 72 \<and> 0 \<notin> set p \<and> length r = 16 \<longrightarrow>
        bc_rounds env (bc_gensalt env r) = 12
        \<and> (\<exists>s. list_all (\<lambda>c. c < 128) s \<and> bc_hashpw env p (bc_gensalt env r) = Inr (map byte_of s)
             \<and> bc_rounds env (map byte_of s) = 12 \<and> bc_checkpw env p (map byte_of s) = Inr True
             \<and> (\<forall>q. length q \<le> 72 \<and> 0 \<notin> set q \<longrightarrow> (\<exists>b. bc_checkpw env q (map byte_of s) = Inr b))))
     \<and> (\<forall>p h e. bc_checkpw env p h = Inl e \<longrightarrow> is_value_error e \<or> is_type_error e)"

section \<open>Lemmas\<close>

lemma length_token_bytes: "token_bytes env n st = (Inr bs, st') \<Longrightarrow> length bs = n"
  by (auto simp: token_bytes_def)

lemma decode_key_Inr: "decode_key s = Inr k \<longleftrightarrow> b64decode s = Inr k \<and> length k = 32"
  by (auto simp: decode_key_def split: sum.splits)

lemma decode_key_Inl: "decode_key s = Inl e \<Longrightarrow> \<exists>m. e = ValueError m"
  by (auto simp: decode_key_def split: sum.splits if_splits)

lemma vault_key_ok:
  assumes "decode_key (encryption_key env) = Inr k" "key_memo st = None \<or> key_memo st = Some k"
  shows "vault_key env st = (Inr k, st\<lparr>key_memo := Some k\<rparr>)"
  using assms by (cases st) (auto simp: vault_key_def)

text \<open>The input of bcrypt: 44 characters of the base64 alphabet.\<close>

lemma prehash_shape:
  assumes "prehash pw = Inr p"
  shows "length p = 44" and "0 \<notin> set p"
proof -
  obtain bs where p: "p = map byte_of (b64encode (sha256 bs))" using assms by (auto simp: prehash_def)
  show "length p = 44" by (simp add: p length_b64encode)
  have "byte_of x \<noteq> 0" if "x \<in> set (b64encode (sha256 bs))" for x
  proof -
    have "43 \<le> x" "x < 256" using b64encode_chars[OF that] by auto
    then have "unat (byte_of x) \<noteq> 0" by simp
    then show ?thesis by auto
  qed
  then show "0 \<notin> set p" by (auto simp: p)
qed

lemma prehash_ok: "(\<exists>p. prehash pw = Inr p) \<longleftrightarrow> encodable pw"
  using utf8_encode_ok[of pw] by (auto simp: prehash_def)

lemma byte_of_inj: "inj_on byte_of {..<256}"
  by (rule inj_on_inverseI[where g = unat]) simp

lemma map_byte_of_inj:
  assumes "\<forall>x \<in> set xs. x < 256" "\<forall>y \<in> set ys. y < 256" "map byte_of xs = map byte_of ys"
  shows "xs = ys"
  by (rule map_inj_on[OF assms(3)]) (use assms(1,2) in \<open>auto intro: inj_on_subset[OF byte_of_inj]\<close>)

lemma prehash_same:
  assumes "utf8_encode a = Inr as" "utf8_encode b = Inr bs" "prehash a = prehash b"
  shows "sha256 as = sha256 bs"
proof -
  have small: "\<forall>x \<in> set (b64encode z). x < 256" for z
  proof
    fix x assume "x \<in> set (b64encode z)"
    then have "x \<le> 122" using b64encode_chars by blast
    then show "x < 256" by simp
  qed
  have "map byte_of (b64encode (sha256 as)) = map byte_of (b64encode (sha256 bs))"
    using assms by (simp add: prehash_def)
  then have "b64encode (sha256 as) = b64encode (sha256 bs)"
    by (rule map_byte_of_inj[OF small small])
  then show ?thesis by (rule b64encode_inj)
qed

lemma ascii_bytes:
  assumes "list_all (\<lambda>c. c < 128) s"
  shows "utf8_decode (map byte_of s) = Inr s" and "utf8_encode s = Inr (map byte_of s)"
proof -
  show e: "utf8_encode s = Inr (map byte_of s)" using assms by (simp add: utf8_encode_ascii list_all_iff)
  show "utf8_decode (map byte_of s) = Inr s" by (rule utf8.dec_enc[OF e])
qed

lemma bcrypt_okD:
  "bcrypt_ok env \<Longrightarrow> length p \<le> 72 \<Longrightarrow> 0 \<notin> set p \<Longrightarrow> length r = 16 \<Longrightarrow>
     bc_rounds env (bc_gensalt env r) = 12
     \<and> (\<exists>s. list_all (\<lambda>c. c < 128) s \<and> bc_hashpw env p (bc_gensalt env r) = Inr (map byte_of s)
       \<and> bc_rounds env (map byte_of s) = 12 \<and> bc_checkpw env p (map byte_of s) = Inr True
       \<and> (\<forall>q. length q \<le> 72 \<and> 0 \<notin> set q \<longrightarrow> (\<exists>b. bc_checkpw env q (map byte_of s) = Inr b)))"
  "bcrypt_ok env \<Longrightarrow> bc_checkpw env p h = Inl e \<Longrightarrow> is_value_error e \<or> is_type_error e"
  by (simp_all add: bcrypt_ok_def)

text \<open>A hash that \<open>hash_password\<close> has returned, in this process or another one with the same packages.\<close>

definition real_hash :: "crypto_env \<Rightarrow> pystr \<Rightarrow> bool" where
  "real_hash env h \<longleftrightarrow> (\<exists>pw st st'. encodable pw \<and> hash_password env pw st = (Inr h, st'))"

text \<open>Hashing an encodable password: one bcrypt computation, 16 bytes drawn, an ASCII hash.\<close>

lemma hash_password_ok:
  assumes "bcrypt_ok env" "encodable pw"
  obtains p s where "prehash pw = Inr p" and "list_all (\<lambda>c. c < 128) s"
    and "bc_rounds env (map byte_of s) = 12" and "bc_checkpw env p (map byte_of s) = Inr True"
    and "\<forall>q. length q \<le> 72 \<and> 0 \<notin> set q \<longrightarrow> (\<exists>b. bc_checkpw env q (map byte_of s) = Inr b)"
    and "hash_password env pw st = (Inr s, st\<lparr>drawn := drawn st + 16, bcrypt_calls := bcrypt_calls st @ [12]\<rparr>)"
proof -
  obtain p where p: "prehash pw = Inr p" using assms(2) prehash_ok by blast
  let ?r = "draw env (drawn st) 16"
  have "length p \<le> 72" "0 \<notin> set p" using prehash_shape[OF p] by simp_all
  then obtain s where s: "list_all (\<lambda>c. c < 128) s" "bc_hashpw env p (bc_gensalt env ?r) = Inr (map byte_of s)"
    "bc_rounds env (map byte_of s) = 12" "bc_checkpw env p (map byte_of s) = Inr True"
    "\<forall>q. length q \<le> 72 \<and> 0 \<notin> set q \<longrightarrow> (\<exists>b. bc_checkpw env q (map byte_of s) = Inr b)"
    and "bc_rounds env (bc_gensalt env ?r) = 12"
    using bcrypt_okD(1)[OF assms(1), of p ?r] by auto
  then have "hash_password env pw st = (Inr s, st\<lparr>drawn := drawn st + 16, bcrypt_calls := bcrypt_calls st @ [12]\<rparr>)"
    by (simp add: hash_password_def op_defs p token_bytes_def count_bcrypt_def ascii_bytes)
  then show ?thesis using that p s by blast
qed

text \<open>What it returned verifies at any later time.\<close>

lemma hash_verifies:
  assumes "bcrypt_ok env" "encodable pw" "hash_password env pw st = (Inr h, st')"
  shows "verify_password env pw h st2 = (Inr True, st2\<lparr>bcrypt_calls := bcrypt_calls st2 @ [12]\<rparr>)"
proof -
  obtain p s where p: "prehash pw = Inr p" and s: "list_all (\<lambda>c. c < 128) s"
    and ok: "bc_rounds env (map byte_of s) = 12" "bc_checkpw env p (map byte_of s) = Inr True"
    and "hash_password env pw st = (Inr s, st\<lparr>drawn := drawn st + 16, bcrypt_calls := bcrypt_calls st @ [12]\<rparr>)"
    using assms(1,2) by (rule hash_password_ok)
  then have "h = s" using assms(3) by simp
  then show ?thesis
    by (simp add: verify_password_def check_password_def op_defs p ascii_bytes(2)[OF s] count_bcrypt_def ok)
qed

text \<open>Checking any encodable password against a real hash is one computation of the default cost.\<close>

lemma real_hash_rounds:
  assumes "bcrypt_ok env" "real_hash env h"
  obtains bs where "utf8_encode h = Inr bs" and "bc_rounds env bs = 12"
    and "\<forall>q. length q \<le> 72 \<and> 0 \<notin> set q \<longrightarrow> (\<exists>b. bc_checkpw env q bs = Inr b)"
proof -
  obtain pw st st' where pw: "encodable pw" and h: "hash_password env pw st = (Inr h, st')"
    using assms(2) by (auto simp: real_hash_def)
  obtain p s where s: "list_all (\<lambda>c. c < 128) s" "bc_rounds env (map byte_of s) = 12"
    and check: "\<forall>q. length q \<le> 72 \<and> 0 \<notin> set q \<longrightarrow> (\<exists>b. bc_checkpw env q (map byte_of s) = Inr b)"
    and "hash_password env pw st = (Inr s, st\<lparr>drawn := drawn st + 16, bcrypt_calls := bcrypt_calls st @ [12]\<rparr>)"
    using assms(1) pw by (rule hash_password_ok)
  then have "h = s" using h by simp
  then show ?thesis using that[OF _ s(2) check] ascii_bytes(2)[OF s(1)] by simp
qed

lemma verify_password_calls:
  assumes "bcrypt_ok env" "encodable pw" "real_hash env h"
  shows "\<exists>b. verify_password env pw h st = (Inr b, st\<lparr>bcrypt_calls := bcrypt_calls st @ [12]\<rparr>)"
proof -
  obtain p where p: "prehash pw = Inr p" using assms(2) prehash_ok by blast
  obtain bs where bs: "utf8_encode h = Inr bs" "bc_rounds env bs = 12"
    and check: "\<forall>q. length q \<le> 72 \<and> 0 \<notin> set q \<longrightarrow> (\<exists>b. bc_checkpw env q bs = Inr b)"
    using assms(1,3) by (rule real_hash_rounds)
  have "length p \<le> 72" "0 \<notin> set p" using prehash_shape[OF p] by simp_all
  then obtain b where "bc_checkpw env p bs = Inr b" using check by blast
  then show ?thesis
    using p bs by (simp add: verify_password_def check_password_def op_defs count_bcrypt_def)
qed

lemma check_password_error:
  assumes "bcrypt_ok env" and "check_password env pw h st = (Inl e, st')"
  shows "is_value_error e \<or> is_type_error e"
  using assms(2) by (auto simp: check_password_def op_defs prehash_def count_bcrypt_def res_bind_def
      dest: utf8_encode_error bcrypt_okD(2)[OF assms(1)] split: sum.splits)

lemma aes_gcm_okD:
  "aes_gcm_ok env \<Longrightarrow> length k = 32 \<Longrightarrow> length n = 12 \<Longrightarrow>
     \<exists>c. aes_encrypt env k n p = Inr c \<and> length c = length p + 16 \<and> aes_decrypt env k n c = Inr p"
  by (simp add: aes_gcm_ok_def)

text \<open>An encryption that succeeds: a fresh nonce, then what any later process with that key decrypts.\<close>

lemma encrypt_str_ok:
  assumes "aes_gcm_ok env" and "decode_key (encryption_key env) = Inr k"
    and "key_memo st = None \<or> key_memo st = Some k" and "utf8_encode s = Inr bs"
  obtains c where "length c = length bs + 16"
    and "encrypt_str env s st = (Inr (draw env (drawn st) 12 @ c), st\<lparr>drawn := drawn st + 12, key_memo := Some k\<rparr>)"
    and "\<And>st'. key_memo st' = None \<or> key_memo st' = Some k \<Longrightarrow>
      decrypt_str env (draw env (drawn st) 12 @ c) st' = (Inr s, st'\<lparr>key_memo := Some k\<rparr>)"
proof -
  let ?n = "draw env (drawn st) 12"
  let ?st1 = "st\<lparr>drawn := drawn st + 12\<rparr>"
  have "length k = 32" using assms(2) by (simp add: decode_key_Inr)
  then obtain c where c: "aes_encrypt env k ?n bs = Inr c" "length c = length bs + 16" "aes_decrypt env k ?n c = Inr bs"
    using aes_gcm_okD[OF assms(1), of k ?n bs] by auto
  have key: "vault_key env st' = (Inr k, st'\<lparr>key_memo := Some k\<rparr>)" if "key_memo st' = None \<or> key_memo st' = Some k" for st'
    using vault_key_ok[OF assms(2) that] .
  have "encrypt_str env s st = (Inr (?n @ c), st\<lparr>drawn := drawn st + 12, key_memo := Some k\<rparr>)"
    using key[of ?st1] assms(3) by (simp add: encrypt_str_def encrypt_bytes_def op_defs assms(4) token_bytes_def c)
  moreover have "decrypt_str env (?n @ c) st' = (Inr s, st'\<lparr>key_memo := Some k\<rparr>)"
    if "key_memo st' = None \<or> key_memo st' = Some k" for st'
    using c(2) utf8_decode_encode[OF assms(4)]
    by (simp add: decrypt_str_def decrypt_bytes_def op_defs key[OF that] c)
  ultimately show ?thesis using that[OF c(2)] by blast
qed

section \<open>URL-safe tokens\<close>

lemma alphabet_intro: "n < 64 \<Longrightarrow> \<exists>m < 64. b64_char n = b64_char m"
  by blast

lemmas group_alphabet = group_bounds[THEN alphabet_intro]

lemma b64_core:
  "\<exists>core. b64encode bs = core @ replicate ((3 - length bs mod 3) mod 3) 61 \<and> (\<forall>c \<in> set core. \<exists>n < 64. c = b64_char n)"
proof (induction bs rule: b64encode.induct)
  case 1
  then show ?case by simp
next
  case (2 a)
  show ?case
    by (rule exI[of _ "[b64_char (unat a div 4), b64_char (unat a mod 4 * 16)]"])
      (simp add: numeral_2_eq_2 group_alphabet)
next
  case (3 a b)
  show ?case
    by (rule exI[of _ "[b64_char (unat a div 4), b64_char (unat a mod 4 * 16 + unat b div 16), b64_char (unat b mod 16 * 4)]"])
      (simp add: numeral_2_eq_2 group_alphabet)
next
  case (4 a b c rest)
  then obtain core where core: "b64encode rest = core @ replicate ((3 - length rest mod 3) mod 3) 61"
    "\<forall>c \<in> set core. \<exists>n < 64. c = b64_char n" by blast
  have "length (a # b # c # rest) mod 3 = length rest mod 3" by simp
  then show ?case using core
    by (intro exI[of _ "b64_char (unat a div 4) # b64_char (unat a mod 4 * 16 + unat b div 16)
       # b64_char (unat b mod 16 * 4 + unat c div 64) # b64_char (unat c mod 64) # core"])
      (simp add: group_alphabet)
qed

definition urlsafe_alphabet :: "nat \<Rightarrow> bool" where
  "urlsafe_alphabet c \<longleftrightarrow> (48 \<le> c \<and> c \<le> 57) \<or> (65 \<le> c \<and> c \<le> 90) \<or> (97 \<le> c \<and> c \<le> 122) \<or> c = 45 \<or> c = 95"

lemma urlsafe_b64_char: "n < 64 \<Longrightarrow> urlsafe_alphabet (urlsafe_char (b64_char n))"
  by (auto simp: urlsafe_alphabet_def urlsafe_char_def b64_char_def)

lemma urlsafe_inj: "inj_on urlsafe_char (b64_char ` {..<64})"
  by (rule inj_on_inverseI[where g = "\<lambda>c. if c = 45 then 43 else if c = 95 then 47 else c"])
    (auto simp: urlsafe_char_def b64_char_def)

lemma dropWhile_replicate: "P x \<Longrightarrow> dropWhile P (replicate n x @ ys) = dropWhile P ys"
  by (induction n) auto

lemma rstrip_pad_append: "\<forall>c \<in> set xs. c \<noteq> 61 \<Longrightarrow> rstrip_pad (xs @ replicate n 61) = xs"
  by (cases xs rule: rev_cases) (auto simp: rstrip_pad_def rstrip_of_def dropWhile_replicate
      dropWhile_replicate[where ys = "[]", simplified])

lemma token_core:
  assumes "length bs mod 3 = 2"
  obtains core where "b64encode bs = core @ [61]" "\<forall>c \<in> set core. \<exists>n < 64. c = b64_char n"
    "token_urlsafe_of bs = map urlsafe_char core"
proof -
  obtain core where core: "b64encode bs = core @ [61]" "\<forall>c \<in> set core. \<exists>n < 64. c = b64_char n"
    using b64_core[of bs] assms by auto
  have "\<forall>c \<in> set (map urlsafe_char core). c \<noteq> 61"
    using core(2) urlsafe_b64_char by (fastforce simp: urlsafe_alphabet_def)
  then have "token_urlsafe_of bs = map urlsafe_char core"
    using rstrip_pad_append[of "map urlsafe_char core" 1]
    by (simp add: token_urlsafe_of_def core(1) urlsafe_char_def)
  with core that show ?thesis by blast
qed

lemma map_urlsafe_inj:
  assumes "\<forall>c \<in> set xs. \<exists>n < 64. c = b64_char n" "\<forall>c \<in> set ys. \<exists>n < 64. c = b64_char n"
    and "map urlsafe_char xs = map urlsafe_char ys"
  shows "xs = ys"
proof -
  have "set xs \<union> set ys \<subseteq> b64_char ` {..<64}" using assms(1,2) by blast
  then have "inj_on urlsafe_char (set xs \<union> set ys)" by (rule inj_on_subset[OF urlsafe_inj])
  with assms(3) show ?thesis by (rule map_inj_on)
qed

lemma token_inj:
  assumes "length xs = 32" "length ys = 32" "token_urlsafe_of xs = token_urlsafe_of ys"
  shows "xs = ys"
proof -
  obtain a where a: "b64encode xs = a @ [61]" "\<forall>c \<in> set a. \<exists>n < 64. c = b64_char n"
    "token_urlsafe_of xs = map urlsafe_char a" by (rule token_core[of xs]) (simp_all add: assms(1))
  obtain b where b: "b64encode ys = b @ [61]" "\<forall>c \<in> set b. \<exists>n < 64. c = b64_char n"
    "token_urlsafe_of ys = map urlsafe_char b" by (rule token_core[of ys]) (simp_all add: assms(2))
  have "map urlsafe_char a = map urlsafe_char b" using a(3) b(3) assms(3) by simp
  then have "a = b" by (rule map_urlsafe_inj[OF a(2) b(2)])
  then have "b64encode xs = b64encode ys" using a(1) b(1) by simp
  then show ?thesis by (rule b64encode_inj)
qed

lemma token_shape:
  assumes "length bs = 32"
  shows "length (token_urlsafe_of bs) = 43" and "list_all urlsafe_alphabet (token_urlsafe_of bs)"
proof -
  obtain a where a: "b64encode bs = a @ [61]" "\<forall>c \<in> set a. \<exists>n < 64. c = b64_char n"
    "token_urlsafe_of bs = map urlsafe_char a" by (rule token_core[of bs]) (simp_all add: assms)
  have "length (b64encode bs) = 44" using assms by (simp add: length_b64encode)
  then show "length (token_urlsafe_of bs) = 43" using a by simp
  show "list_all urlsafe_alphabet (token_urlsafe_of bs)"
    using a urlsafe_b64_char by (auto simp: list_all_iff)
qed

end
