(* ===== verification/SecurityProps.thy ===== *)
theory SecurityProps
  imports Security
begin

text \<open>
  The properties of the vault, of secrets and of passwords. The environment of the witnesses stands
  for the two packages with functions that satisfy what is assumed of them; it claims nothing of
  their security.
\<close>

section \<open>An environment in which the assumptions hold\<close>

definition demo_env :: crypto_env where
  "demo_env = \<lparr>entropy = (\<lambda>i. of_nat i),
     aes_encrypt = (\<lambda>k n p. Inr (p @ replicate 16 0)),
     aes_decrypt = (\<lambda>k n c. if length c < 16 then Inl (InvalidTag '''') else Inr (take (length c - 16) c)),
     bc_gensalt = (\<lambda>r. r),
     bc_hashpw = (\<lambda>p salt. Inr (map byte_of (36 # hexdigest p))),
     bc_checkpw = (\<lambda>p h. if h = [] \<or> hd h \<noteq> byte_of 36 then Inl (ValueError ''Invalid salt'')
       else Inr (h = map byte_of (36 # hexdigest p))),
     bc_rounds = (\<lambda>_. 12),
     encryption_key = b64encode (replicate 32 7), secret_key = lit ''secret''\<rparr>"

definition demo_state :: sec_state where
  "demo_state = \<lparr>key_memo = None, decoy_memo = None, drawn = 0, bcrypt_calls = []\<rparr>"

lemma demo_aes: "aes_gcm_ok demo_env"
  by (simp add: aes_gcm_ok_def demo_env_def)

lemma demo_key: "decode_key (encryption_key demo_env) = Inr (replicate 32 7)"
  by (simp add: decode_key_Inr demo_env_def b64decode_b64encode)

lemma demo_bcrypt: "bcrypt_ok demo_env"
proof -
  have "list_all (\<lambda>c. c < 128) (36 # hexdigest p)" for p
    using hexdigest_chars[of _ p] by (fastforce simp: list_all_iff)
  moreover have "bc_checkpw demo_env p (map byte_of (36 # hexdigest p)) = Inr True" for p
    by (simp add: demo_env_def)
  moreover have "\<exists>b. bc_checkpw demo_env q (map byte_of (36 # hexdigest p)) = Inr b" for p q
    by (simp add: demo_env_def)
  moreover have "bc_rounds demo_env bs = 12" for bs by (simp add: demo_env_def)
  moreover have "bc_hashpw demo_env p r = Inr (map byte_of (36 # hexdigest p))" for p r
    by (simp add: demo_env_def)
  moreover have "is_value_error e \<or> is_type_error e" if "bc_checkpw demo_env p h = Inl e" for p h e
    using that by (auto simp: demo_env_def split: if_splits)
  ultimately show ?thesis unfolding bcrypt_ok_def by blast
qed

section \<open>The vault\<close>

text \<open>C15: What \<open>encrypt_str\<close> stores \<open>decrypt_str\<close> reads back, for every text that UTF-8 can encode and with
  any key the settings validly hold. The blob is the nonce, the ciphertext and the tag, and the nonce
  is 12 bytes of entropy that are drawn anew: the next encryption starts after them.\<close>

theorem vault_round_trip:
  assumes "aes_gcm_ok env" and "decode_key (encryption_key env) = Inr k"
    and "key_memo st = None \<or> key_memo st = Some k" and "utf8_encode s = Inr bs"
  shows "\<exists>blob st'. encrypt_str env s st = (Inr blob, st') \<and> decrypt_str env blob st' = (Inr s, st')
     \<and> length blob = 12 + length bs + 16 \<and> take 12 blob = draw env (drawn st) 12
     \<and> drawn st' = drawn st + 12"
proof -
  let ?st' = "st\<lparr>drawn := drawn st + 12, key_memo := Some k\<rparr>"
  obtain c where "length c = length bs + 16" "encrypt_str env s st = (Inr (draw env (drawn st) 12 @ c), ?st')"
    "\<And>st'. key_memo st' = None \<or> key_memo st' = Some k \<Longrightarrow>
      decrypt_str env (draw env (drawn st) 12 @ c) st' = (Inr s, st'\<lparr>key_memo := Some k\<rparr>)"
    using encrypt_str_ok[OF assms] by blast
  then show ?thesis by (intro exI[of _ "draw env (drawn st) 12 @ c"] exI[of _ ?st']) simp
qed

theorem vault_round_trip_witness:
  "\<exists>blob st'. encrypt_str demo_env (lit ''0123456789'') demo_state = (Inr blob, st')
     \<and> decrypt_str demo_env blob st' = (Inr (lit ''0123456789''), st') \<and> length blob = 38"
proof -
  have "utf8_encode (lit ''0123456789'') = Inr (map byte_of (lit ''0123456789''))"
    by (rule utf8_encode_ascii) (simp add: lit_simps)
  moreover have "key_memo demo_state = None" by (simp add: demo_state_def)
  ultimately show ?thesis
    using vault_round_trip[OF demo_aes demo_key, of demo_state "lit ''0123456789''"] by (fastforce simp: lit_simps)
qed

text \<open>Exactly the strict base64 encodings of 32 bytes are vault keys; every 32 bytes have one; and
  everything else, non-ASCII text and wrong padding included, is a \<open>ValueError\<close>.\<close>

theorem vault_key_accepts_iff:
  "(decode_key s = Inr k) = (b64decode s = Inr k \<and> length k = 32)
     \<and> (decode_key (b64encode k) = Inr k) = (length k = 32)
     \<and> (case decode_key s of Inl e \<Rightarrow> \<exists>m. e = ValueError m | Inr _ \<Rightarrow> True)"
  using decode_key_Inl[of s] by (auto simp: decode_key_Inr b64decode_b64encode split: sum.splits)

text \<open>The key is resolved once: after a use that succeeded every later use gives the same key and
  changes nothing, whatever the setting has become; a use that failed is not remembered, so a setting
  that is repaired takes effect.\<close>

theorem vault_key_resolved_once:
  "case vault_key env st of
     (Inr k, st') \<Rightarrow> vault_key env' st' = (Inr k, st')
   | (Inl e, st') \<Rightarrow> st' = st \<and> fst (vault_key env' st') = decode_key (encryption_key env')"
  by (auto simp: vault_key_def split: option.splits sum.splits)

section \<open>Passwords\<close>

text \<open>What bcrypt is given never depends on the length of the password: 44 bytes without a NUL, below
  bcrypt's 72. Only a password that UTF-8 cannot encode fails, with \<open>UnicodeEncodeError\<close>.\<close>

theorem prehash_normalises:
  "case prehash password of
     Inr p \<Rightarrow> length p = 44 \<and> 0 \<notin> set p \<and> encodable password
   | Inl e \<Rightarrow> e = UnicodeEncodeError \<and> \<not> encodable password"
proof (cases "prehash password")
  case (Inr p)
  then show ?thesis using prehash_shape[OF Inr] prehash_ok[of password] by auto
next
  case (Inl e)
  then have "utf8_encode password = Inl e" by (simp add: prehash_def res_bind_eq_Inl)
  then show ?thesis using Inl utf8_encode_error prehash_ok[of password] by auto
qed

text \<open>No part of a password is ignored: two passwords give bcrypt the same input only if their full
  UTF-8 encodings have the same SHA-256 digest.\<close>

theorem prehash_keeps_every_byte:
  assumes "utf8_encode a = Inr as" and "utf8_encode b = Inr bs"
  shows "(prehash a = prehash b) = (sha256 as = sha256 bs)"
  using prehash_same[OF assms] assms by (auto simp: prehash_def)

theorem prehash_keeps_every_byte_witness:
  "(prehash (lit ''ab'') = prehash (lit ''ac''))
     = (sha256 (map byte_of (lit ''ab'')) = sha256 (map byte_of (lit ''ac'')))"
proof -
  have "utf8_encode (lit ''ab'') = Inr (map byte_of (lit ''ab''))"
    by (rule utf8_encode_ascii) (simp add: lit_simps)
  moreover have "utf8_encode (lit ''ac'') = Inr (map byte_of (lit ''ac''))"
    by (rule utf8_encode_ascii) (simp add: lit_simps)
  ultimately show ?thesis by (rule prehash_keeps_every_byte)
qed

text \<open>A password verifies against its own hash: for every password that can be encoded \<open>hash_password\<close>
  succeeds, and \<open>verify_password\<close> of the same password against what it returned is true, at the cost of
  one bcrypt computation each.\<close>

theorem password_round_trip:
  assumes "bcrypt_ok env" and "encodable password"
  shows "\<exists>h st'. hash_password env password st = (Inr h, st')
     \<and> bcrypt_calls st' = bcrypt_calls st @ [12]
     \<and> verify_password env password h st' = (Inr True, st'\<lparr>bcrypt_calls := bcrypt_calls st' @ [12]\<rparr>)"
proof -
  obtain p s where h: "hash_password env password st
      = (Inr s, st\<lparr>drawn := drawn st + 16, bcrypt_calls := bcrypt_calls st @ [12]\<rparr>)"
    using assms by (rule hash_password_ok)
  show ?thesis using h hash_verifies[OF assms h] by simp
qed

lemma demo_password: "encodable (lit ''correct horse'')"
  by (simp add: encodable_def lit_simps)

theorem password_round_trip_witness:
  "\<exists>h st'. hash_password demo_env (lit ''correct horse'') demo_state = (Inr h, st')
     \<and> fst (verify_password demo_env (lit ''correct horse'') h st') = Inr True"
  using password_round_trip[OF demo_bcrypt demo_password, of demo_state] by auto

text \<open>\<open>verify_password\<close> never raises: malformed hashes and passwords that cannot be encoded are failed
  logins. It is true only when bcrypt accepts.\<close>

theorem verify_password_total:
  assumes "bcrypt_ok env"
  shows "\<exists>b st'. verify_password env password h st = (Inr b, st')
     \<and> (b = (\<exists>p bs. prehash password = Inr p \<and> utf8_encode h = Inr bs \<and> bc_checkpw env p bs = Inr True))"
proof (cases "check_password env password h st")
  case (Pair r st')
  show ?thesis
  proof (cases r)
    case (Inl e)
    then have "is_value_error e \<or> is_type_error e"
      using check_password_error[OF assms] Pair by blast
    then show ?thesis using Pair Inl
      by (auto simp: verify_password_def check_password_def op_defs count_bcrypt_def split: sum.splits)
  next
    case (Inr b)
    then show ?thesis using Pair
      by (auto simp: verify_password_def check_password_def op_defs count_bcrypt_def split: sum.splits)
  qed
qed

theorem verify_password_total_witness:
  "\<exists>b st'. verify_password demo_env [55296] (lit ''not-a-hash'') demo_state = (Inr b, st')"
  using verify_password_total[OF demo_bcrypt, of "[55296]" "lit ''not-a-hash''" demo_state] by blast

text \<open>An absent account never logs in: with no hash the answer is never true, whatever bcrypt, the
  entropy, the caches and the password are.\<close>

theorem absent_account_never_verifies:
  "fst (verify_password_equal_time env password None st) \<noteq> Inr True"
  by (auto simp: verify_password_equal_time_def op_defs split: prod.splits sum.splits)

section \<open>The life of a process\<close>

text \<open>The calls of the module that touch its state, in any order.\<close>

datatype sec_call =
    EncryptStr pystr
  | DecryptStr bytes
  | GenerateSecret pystr
  | HashPassword pystr
  | VerifyPassword pystr pystr
  | VerifyEqualTime pystr "pystr option"

fun sec_step :: "crypto_env \<Rightarrow> sec_state \<Rightarrow> sec_call \<Rightarrow> sec_state option" where
  "sec_step env st (EncryptStr s) = Some (snd (encrypt_str env s st))"
| "sec_step env st (DecryptStr b) = Some (snd (decrypt_str env b st))"
| "sec_step env st (GenerateSecret p) = Some (snd (generate_secret env p st))"
| "sec_step env st (HashPassword p) = Some (snd (hash_password env p st))"
| "sec_step env st (VerifyPassword p h) = Some (snd (verify_password env p h st))"
| "sec_step env st (VerifyEqualTime p h) = Some (snd (verify_password_equal_time env p h st))"

lemma decoy_secret:
  "\<exists>s. generate_secret env (lit ''decoy'') st = (Inr s, st\<lparr>drawn := drawn st + 32\<rparr>) \<and> encodable s"
proof -
  let ?bs = "draw env (drawn st) 32"
  have "list_all urlsafe_alphabet (token_urlsafe_of ?bs)" by (rule token_shape) simp
  then have "encodable (lit ''decoy'' @ 95 # token_urlsafe_of ?bs)"
    by (auto simp: encodable_def list_all_iff urlsafe_alphabet_def lit_simps)
  moreover have "generate_secret env (lit ''decoy'') st
      = (Inr (lit ''decoy'' @ 95 # token_urlsafe_of ?bs), st\<lparr>drawn := drawn st + 32\<rparr>)"
    by (simp add: generate_secret_def op_defs token_bytes_def)
  ultimately show ?thesis by blast
qed

text \<open>What the cache of the decoy holds is a real hash: the decoy is made by \<open>hash_password\<close>.\<close>

definition decoy_real :: "crypto_env \<Rightarrow> sec_state \<Rightarrow> bool" where
  "decoy_real env st = (case decoy_memo st of None \<Rightarrow> True | Some d \<Rightarrow> real_hash env d)"

lemma decoy_made:
  assumes "bcrypt_ok env" "decoy_memo st = None"
  obtains d st' where "decoy_password_hash env st = (Inr d, st')" and "real_hash env d" and "decoy_memo st' = Some d"
    and "bcrypt_calls st' = bcrypt_calls st @ [12]"
proof -
  obtain s where s: "generate_secret env (lit ''decoy'') st = (Inr s, st\<lparr>drawn := drawn st + 32\<rparr>)" "encodable s"
    using decoy_secret by blast
  let ?st1 = "st\<lparr>drawn := drawn st + 32\<rparr>"
  obtain p d where h: "hash_password env s ?st1
      = (Inr d, ?st1\<lparr>drawn := drawn ?st1 + 16, bcrypt_calls := bcrypt_calls ?st1 @ [12]\<rparr>)"
    using assms(1) s(2) by (rule hash_password_ok)
  then have "real_hash env d" using s(2) by (auto simp: real_hash_def)
  then show ?thesis using that s(1) h assms(2) by (simp add: decoy_password_hash_def op_defs)
qed

lemma decoy_kept:
  "decoy_memo (snd (encrypt_str env s st)) = decoy_memo st"
  "decoy_memo (snd (decrypt_str env b st)) = decoy_memo st"
  "decoy_memo (snd (generate_secret env p st)) = decoy_memo st"
  "decoy_memo (snd (hash_password env p st)) = decoy_memo st"
  "decoy_memo (snd (verify_password env p h st)) = decoy_memo st"
  by (auto simp: encrypt_str_def encrypt_bytes_def decrypt_str_def decrypt_bytes_def generate_secret_def hash_password_def
      verify_password_def check_password_def token_bytes_def vault_key_def count_bcrypt_def op_defs
      split: sum.splits prod.splits option.splits if_splits)

lemma equal_time_decoy:
  assumes "bcrypt_ok env" "decoy_real env st"
  shows "decoy_real env (snd (verify_password_equal_time env p h st))"
proof (cases h)
  case (Some g)
  then show ?thesis using assms(2) by (simp add: verify_password_equal_time_def decoy_real_def decoy_kept)
next
  case None
  obtain d st' where d: "decoy_password_hash env st = (Inr d, st')" "decoy_memo st' = Some d" "real_hash env d"
  proof (cases "decoy_memo st")
    case None
    then show ?thesis using that decoy_made[OF assms(1)] by metis
  next
    case (Some e)
    then show ?thesis using that[of e st] assms(2) by (simp add: decoy_password_hash_def decoy_real_def)
  qed
  have "decoy_memo (snd (verify_password_equal_time env p h st)) = Some d"
    using decoy_kept(5)[of env p d st'] None d
    by (auto simp: verify_password_equal_time_def op_defs split: prod.splits sum.splits)
  then show ?thesis using d(3) by (simp add: decoy_real_def)
qed

lemma sec_step_decoy:
  assumes "decoy_real env st" "bcrypt_ok env" "sec_step env st c = Some st'"
  shows "decoy_real env st'"
  using assms equal_time_decoy by (cases c) (auto simp: decoy_real_def decoy_kept)

interpretation crypto_process: step_invariant "sec_step env" "\<lambda>st. bcrypt_ok env \<and> decoy_real env st" for env
  by unfold_locales (blast intro: sec_step_decoy)

text \<open>C29: An absent account costs what a real one does, once the process has made its decoy: in every state
  that the calls of the module can reach, checking an encodable password against no hash makes one
  bcrypt computation, of the cost factor of the one that a check against a real hash makes, and answers
  false; neither raises instead. The first absent account of a process costs one more, the hashing of
  the decoy, and leaves a decoy in the cache that is a real hash.\<close>

theorem absent_account_costs_the_same:
  assumes "bcrypt_ok env" and "encodable password" and "real_hash env h"
    and "decoy_memo st0 = None" and "run (sec_step env) st0 calls = Some st"
  shows "bcrypt_calls (snd (verify_password_equal_time env password (Some h) st)) = bcrypt_calls st @ [12]
     \<and> bcrypt_calls (snd (verify_password_equal_time env password None st))
         = bcrypt_calls st @ (if decoy_memo st = None then [12, 12] else [12])
     \<and> fst (verify_password_equal_time env password None st) = Inr False
     \<and> (\<exists>d. decoy_memo (snd (verify_password_equal_time env password None st)) = Some d \<and> real_hash env d)"
proof -
  have "decoy_real env st0" using assms(4) by (simp add: decoy_real_def)
  then have real: "decoy_real env st" using crypto_process.run_inv[OF _ assms(5)] assms(1) by blast
  obtain d st' where d: "decoy_password_hash env st = (Inr d, st')" "real_hash env d" "decoy_memo st' = Some d"
    and calls: "bcrypt_calls st' = bcrypt_calls st @ (if decoy_memo st = None then [12] else [])"
  proof (cases "decoy_memo st")
    case None
    then show ?thesis using that decoy_made[OF assms(1)] by auto
  next
    case (Some e)
    then show ?thesis using that[of e st] real by (simp add: decoy_password_hash_def decoy_real_def)
  qed
  obtain b where b: "verify_password env password h st = (Inr b, st\<lparr>bcrypt_calls := bcrypt_calls st @ [12]\<rparr>)"
    using verify_password_calls[OF assms(1-3)] by blast
  obtain b' where b': "verify_password env password d st' = (Inr b', st'\<lparr>bcrypt_calls := bcrypt_calls st' @ [12]\<rparr>)"
    using verify_password_calls[OF assms(1,2) d(2)] by blast
  have "verify_password_equal_time env password None st = (Inr False, st'\<lparr>bcrypt_calls := bcrypt_calls st' @ [12]\<rparr>)"
    using b' by (simp add: verify_password_equal_time_def op_defs d(1))
  moreover have "verify_password_equal_time env password (Some h) st = (Inr b, st\<lparr>bcrypt_calls := bcrypt_calls st @ [12]\<rparr>)"
    using b by (simp add: verify_password_equal_time_def)
  ultimately show ?thesis using calls d(2,3) by simp
qed

text \<open>A process that has answered for an absent account before.\<close>

theorem absent_account_costs_the_same_witness:
  "\<exists>st. run (sec_step demo_env) demo_state [VerifyEqualTime (lit ''correct horse'') None] = Some st
     \<and> bcrypt_calls st = [12, 12]
     \<and> bcrypt_calls (snd (verify_password_equal_time demo_env (lit ''correct horse'') None st)) = [12, 12, 12]"
proof -
  obtain h st' where "hash_password demo_env (lit ''correct horse'') demo_state = (Inr h, st')"
    using hash_password_ok[OF demo_bcrypt demo_password, of demo_state] by metis
  then have h: "real_hash demo_env h" using demo_password by (auto simp: real_hash_def)
  have fresh: "decoy_memo demo_state = None" by (simp add: demo_state_def)
  let ?st = "snd (verify_password_equal_time demo_env (lit ''correct horse'') None demo_state)"
  note costs = absent_account_costs_the_same[OF demo_bcrypt demo_password h fresh]
  have "run (sec_step demo_env) demo_state [] = Some demo_state" by simp
  from costs[OF this] have first: "bcrypt_calls ?st = [12, 12]" "decoy_memo ?st \<noteq> None"
    by (auto simp: demo_state_def)
  have later: "run (sec_step demo_env) demo_state [VerifyEqualTime (lit ''correct horse'') None] = Some ?st" by simp
  from costs[OF this] first later show ?thesis by auto
qed

text \<open>The first absent account of a process costs twice as much: the decoy is hashed and then checked,
  two bcrypt computations against the one of a real account.\<close>

theorem first_absent_account_costs_two:
  assumes "bcrypt_ok env" and "encodable password" and "decoy_memo st = None"
  shows "bcrypt_calls (snd (verify_password_equal_time env password None st)) = bcrypt_calls st @ [12, 12]"
proof -
  obtain d st' where d: "decoy_password_hash env st = (Inr d, st')" "real_hash env d"
    and calls: "bcrypt_calls st' = bcrypt_calls st @ [12]"
    using decoy_made[OF assms(1,3)] by metis
  obtain b where "verify_password env password d st' = (Inr b, st'\<lparr>bcrypt_calls := bcrypt_calls st' @ [12]\<rparr>)"
    using verify_password_calls[OF assms(1,2) d(2)] by blast
  then show ?thesis using calls by (simp add: verify_password_equal_time_def op_defs d(1))
qed

theorem first_absent_account_costs_two_witness:
  "bcrypt_calls (snd (verify_password_equal_time demo_env (lit ''correct horse'') None demo_state)) = [12, 12]"
  using first_absent_account_costs_two[OF demo_bcrypt demo_password, of demo_state] by (simp add: demo_state_def)

section \<open>Secrets\<close>

text \<open>A generated secret is its prefix, an underscore and 43 characters of the URL-safe alphabet, made of
  32 fresh bytes of entropy; two of them with the same prefix are equal only if those bytes are.\<close>

theorem generated_secret_shape:
  "\<exists>token. generate_secret env prefix st = (Inr (prefix @ 95 # token), st\<lparr>drawn := drawn st + 32\<rparr>)
     \<and> length token = 43 \<and> list_all urlsafe_alphabet token
     \<and> (fst (generate_secret env prefix st) = fst (generate_secret env prefix st2))
         = (draw env (drawn st) 32 = draw env (drawn st2) 32)"
proof -
  let ?a = "draw env (drawn st) 32"
  let ?b = "draw env (drawn st2) 32"
  have gen: "generate_secret env prefix st = (Inr (prefix @ 95 # token_urlsafe_of ?a), st\<lparr>drawn := drawn st + 32\<rparr>)"
    "generate_secret env prefix st2 = (Inr (prefix @ 95 # token_urlsafe_of ?b), st2\<lparr>drawn := drawn st2 + 32\<rparr>)"
    by (simp_all add: generate_secret_def op_defs token_bytes_def)
  have "token_urlsafe_of ?a = token_urlsafe_of ?b \<longleftrightarrow> ?a = ?b"
    using token_inj[of ?a ?b] by auto
  then show ?thesis
    using gen token_shape[of ?a] by (intro exI[of _ "token_urlsafe_of ?a"]) (simp)
qed

definition is_digest :: "pystr \<Rightarrow> bool" where
  "is_digest d \<longleftrightarrow> length d = 64 \<and> list_all (\<lambda>c. (48 \<le> c \<and> c \<le> 57) \<or> (97 \<le> c \<and> c \<le> 102)) d"

lemma hexdigest_is_digest: "length bs = 32 \<Longrightarrow> is_digest (hexdigest bs)"
  using hexdigest_chars[of _ bs] by (auto simp: is_digest_def list_all_iff)

text \<open>A stored digest is 64 lowercase hexadecimal characters, for long secrets and for short codes, and
  two long secrets have the same digest exactly when SHA-256 gives their encodings the same value.\<close>

theorem digests_well_formed:
  assumes "utf8_encode a = Inr as" and "utf8_encode b = Inr bs" and "encodable (secret_key env)"
  shows "(\<exists>d. hash_secret a = Inr d \<and> is_digest d) \<and> (\<exists>d. hash_short_code env a = Inr d \<and> is_digest d)
     \<and> (hash_secret a = hash_secret b) = (sha256 as = sha256 bs)"
proof -
  obtain k where "utf8_encode (secret_key env) = Inr k" using assms(3) utf8_encode_ok by blast
  then show ?thesis
    using assms hexdigest_inj[of "sha256 as" "sha256 bs"]
    by (auto simp: hash_secret_def hash_short_code_def hexdigest_is_digest)
qed

theorem digests_well_formed_witness:
  "\<exists>d. hash_short_code demo_env (lit ''123456'') = Inr d \<and> is_digest d"
proof -
  have "utf8_encode (lit ''123456'') = Inr (map byte_of (lit ''123456''))"
    by (rule utf8_encode_ascii) (simp add: lit_simps)
  moreover have "encodable (secret_key demo_env)" by (simp add: demo_env_def encodable_def lit_simps)
  ultimately show ?thesis using digests_well_formed[of "lit ''123456''" _ "lit ''123456''" _ demo_env] by blast
qed

end
