(* ===== verification/Storage.thy ===== *)
theory Storage
  imports SecurityProps LedgerProps
begin

text \<open>
  Cryptography and the database together: what \<open>api/core/security.py\<close> produces goes into the columns
  that the models provide for it, \<open>users.password_hash\<close> (255 characters) and
  \<open>subaccounts.account_number_encrypted\<close> (bytes), and comes out of them as it went in.
\<close>

section \<open>Columns\<close>

text \<open>The documented form of a bcrypt hash: 60 printable ASCII characters.\<close>

definition bcrypt_form :: "crypto_env \<Rightarrow> bool" where
  "bcrypt_form env \<longleftrightarrow> (\<forall>p r h. bc_hashpw env p (bc_gensalt env r) = Inr h \<longrightarrow>
     length h = 60 \<and> list_all (\<lambda>b. 33 \<le> unat b \<and> unat b \<le> 126) h)"

lemma users_columns:
  "List.find (\<lambda>k. cname k = ''password_hash'') (tcolumns users_table) = Some (col ''password_hash'' (Varchar 255))"
  by (simp add: users_table_def users_ddl_def col_def)

lemma subaccounts_columns:
  "List.find (\<lambda>k. cname k = ''account_number_encrypted'') (tcolumns subaccounts_table)
     = Some (col ''account_number_encrypted'' Bytea)"
  by (simp add: subaccounts_table_def subaccounts_ddl_def col_def)

text \<open>A value of the column's type is stored by an accepted insertion as it is.\<close>

lemma inserted_value:
  assumes "exec balotly_schema now (Insert n vals) db = Inr db'" and "find_table balotly_schema n = Some t"
    and "distinct (map fst vals)" and "(c, v) \<in> set vals"
    and "List.find (\<lambda>k. cname k = c) (tcolumns t) = Some (col c ty)" and "has_type ty v"
  shows "\<exists>r. db' n = db n @ [r] \<and> r c = v"
proof -
  obtain r where r: "assign t vals (default_row t now) = Inr r" "db' = db(n := db n @ [r])"
    using assms(1,2) by (auto simp: exec_Inr)
  have "coerce c ty v = Inr (r c)" using assign_value[OF r(1) assms(3,4)] assms(5) by (simp add: col_def)
  then show ?thesis using r(2) coerce_id[OF assms(6)] by auto
qed

lemma hash_storable:
  assumes "bcrypt_ok env" "bcrypt_form env" "encodable pw" "hash_password env pw st = (Inr h, st')"
  shows "has_type (Varchar 255) (VText h)"
proof -
  obtain p where p: "prehash pw = Inr p" using assms(3) prehash_ok by blast
  let ?r = "draw env (drawn st) 16"
  obtain s where s: "list_all (\<lambda>c. c < 128) s" "bc_hashpw env p (bc_gensalt env ?r) = Inr (map byte_of s)"
    using bcrypt_okD(1)[OF assms(1), of p ?r] prehash_shape[OF p] by auto
  then have "h = s" using assms(4)
    by (simp add: hash_password_def op_defs p token_bytes_def count_bcrypt_def ascii_bytes)
  moreover have "length s = 60" "\<forall>c \<in> set s. 0 < c"
    using assms(2) s unfolding bcrypt_form_def by (fastforce simp: list_all_iff)+
  ultimately show ?thesis using s(1) by (fastforce simp: has_type_def text_storable_def list_all_iff)
qed

section \<open>Concrete rows\<close>

text \<open>Stand-ins for the two packages in which the assumptions hold.\<close>

definition printable :: "byte \<Rightarrow> byte" where
  "printable b = (if 33 \<le> unat b \<and> unat b \<le> 126 then b else 36)"

definition demo_hash :: "bytes \<Rightarrow> bytes" where
  "demo_hash p = map printable (take 60 (p @ replicate 60 36))"

definition demo_store :: crypto_env where
  "demo_store = demo_env\<lparr>bc_hashpw := (\<lambda>p salt. Inr (demo_hash p)), bc_checkpw := (\<lambda>p h. Inr (h = demo_hash p))\<rparr>"

lemma demo_hash_form: "length (demo_hash p) = 60" "list_all (\<lambda>b. 33 \<le> unat b \<and> unat b \<le> 126) (demo_hash p)"
  by (auto simp: demo_hash_def printable_def list_all_iff)

lemma demo_store_bcrypt: "bcrypt_ok demo_store" "bcrypt_form demo_store"
proof -
  have small: "list_all (\<lambda>c. c < 128) (map unat (demo_hash p))" for p
    using demo_hash_form(2)[of p] by (fastforce simp: list_all_iff)
  have same: "map byte_of (map unat bs) = bs" for bs by (simp add: comp_def)
  have "\<exists>s. list_all (\<lambda>c. c < 128) s \<and> bc_hashpw demo_store p (bc_gensalt demo_store r) = Inr (map byte_of s)
      \<and> bc_rounds demo_store (map byte_of s) = 12 \<and> bc_checkpw demo_store p (map byte_of s) = Inr True
      \<and> (\<forall>q. length q \<le> 72 \<and> 0 \<notin> set q \<longrightarrow> (\<exists>b. bc_checkpw demo_store q (map byte_of s) = Inr b))" for p r
    by (rule exI[of _ "map unat (demo_hash p)"], unfold same) (simp add: small demo_store_def demo_env_def)
  moreover have "bc_rounds demo_store bs = 12" for bs by (simp add: demo_store_def demo_env_def)
  ultimately show "bcrypt_ok demo_store" by (simp add: bcrypt_ok_def demo_store_def)
  show "bcrypt_form demo_store" using demo_hash_form by (simp add: bcrypt_form_def demo_store_def)
qed

text \<open>A user with a given hash, inserted into the empty database.\<close>

definition demo_user :: "pystr \<Rightarrow> (string \<times> sval) list" where
  "demo_user h = [(''id'', VUuid 20), (''email'', VText (lit ''a'')), (''password_hash'', VText h),
     (''role'', VText (lit ''admin''))]"

lemma demo_user_accepted:
  assumes "has_type (Varchar 255) (VText h)"
  shows "\<exists>db'. exec balotly_schema 1 (Insert ''users'' (demo_user h)) empty_db = Inr db'"
proof -
  have "\<exists>r. assign users_table (demo_user h) (default_row users_table 1) = Inr r \<and> row_ok users_table r
      \<and> r ''organization_id'' = Null"
    using assms
    by (simp add: demo_user_def assign_def users_table_def users_ddl_def timestamps_def col_def col_null_def
        col_default_def coerce_id coerce_def default_row_def default_value_def row_ok_def has_type_def
        text_storable_def lit_simps text_in_def compare_def)
  then obtain r where r: "assign users_table (demo_user h) (default_row users_table 1) = Inr r" "row_ok users_table r"
    "r ''organization_id'' = Null" by blast
  have "row_fits empty_db users_table r"
    using r(2,3) by (simp add: row_fits_def users_table_def users_ddl_def fkey_def fk_ok_def empty_db_def list_all_iff)
  then show ?thesis
    using insert_accepted_iff[OF balotly_names balotly_find_table(6) empty_db_ok r(1)] by blast
qed

text \<open>A subaccount with a given blob for the first candidate of the concrete history.\<close>

definition demo_subaccount :: "bytes \<Rightarrow> (string \<times> sval) list" where
  "demo_subaccount b = [(''id'', VUuid 21), (''candidate_id'', VUuid 4), (''bank_code'', VText (lit ''058'')),
     (''account_number_encrypted'', VBytes b)]"

lemma demo_subaccount_accepted:
  "\<exists>db'. exec balotly_schema 9 (Insert ''subaccounts'' (demo_subaccount b)) demo_db = Inr db'"
proof -
  have "\<exists>r. assign subaccounts_table (demo_subaccount b) (default_row subaccounts_table 9) = Inr r
      \<and> row_ok subaccounts_table r \<and> r ''candidate_id'' = VUuid 4"
    by (simp add: demo_subaccount_def assign_def subaccounts_table_def subaccounts_ddl_def timestamps_def col_def
        col_null_def col_default_def coerce_def default_row_def default_value_def row_ok_def has_type_def
        text_storable_def lit_simps text_in_def text_default_def percent_range_def compare_def tv_of_def tv_order)
  then obtain r where r: "assign subaccounts_table (demo_subaccount b) (default_row subaccounts_table 9) = Inr r"
    "row_ok subaccounts_table r" "r ''candidate_id'' = VUuid 4" by blast
  have rows: "demo_db ''subaccounts'' = []" "\<exists>c d. demo_db ''candidates'' = [c, d] \<and> c ''id'' = VUuid 4"
    using demo_evaluated by (auto simp: demo_view_def)
  have "row_fits demo_db subaccounts_table r"
    using r(2,3) rows by (auto simp: row_fits_def subaccounts_table_def subaccounts_ddl_def fkey_def fk_ok_def list_all_iff)
  moreover have "db_ok balotly_schema demo_db" by (simp add: demo_db_def reachable_ok)
  ultimately show ?thesis
    using insert_accepted_iff[OF balotly_names balotly_find_table(4) _ r(1)] by blast
qed

section \<open>Properties\<close>

text \<open>C28: A stored password works: when the hash of a password goes into \<open>users.password_hash\<close> and the
  insertion is accepted, the new row holds the whole hash, and the password verifies against what the
  row holds, at any later time.\<close>

theorem stored_password_verifies:
  assumes "bcrypt_ok env" and "bcrypt_form env" and "encodable password"
    and "hash_password env password st = (Inr h, st')"
    and "distinct (map fst vals)" and "(''password_hash'', VText h) \<in> set vals"
    and "exec balotly_schema now (Insert ''users'' vals) db = Inr db'"
  shows "\<exists>u g. db' ''users'' = db ''users'' @ [u] \<and> u ''password_hash'' = VText g
     \<and> fst (verify_password env password g st2) = Inr True"
  using inserted_value[OF assms(7) balotly_find_table(6) assms(5,6) users_columns hash_storable[OF assms(1-4)]]
    hash_verifies[OF assms(1,3,4), of st2] by auto

theorem stored_password_verifies_witness:
  "\<exists>h db' u. exec balotly_schema 1 (Insert ''users'' (demo_user h)) empty_db = Inr db' \<and> db' ''users'' = [u]
     \<and> (\<exists>g. u ''password_hash'' = VText g \<and> fst (verify_password demo_store (lit ''correct horse'') g demo_state) = Inr True)"
proof -
  obtain h st' where h: "hash_password demo_store (lit ''correct horse'') demo_state = (Inr h, st')"
    using hash_password_ok[OF demo_store_bcrypt(1) demo_password, of demo_state] by metis
  obtain db' where db': "exec balotly_schema 1 (Insert ''users'' (demo_user h)) empty_db = Inr db'"
    using demo_user_accepted[OF hash_storable[OF demo_store_bcrypt demo_password h]] by blast
  have "distinct (map fst (demo_user h))" "(''password_hash'', VText h) \<in> set (demo_user h)"
    by (simp_all add: demo_user_def)
  then show ?thesis
    using stored_password_verifies[OF demo_store_bcrypt demo_password h _ _ db', of demo_state] db'
    by (auto simp: empty_db_def)
qed

text \<open>C16: A stored account number can be read back, and is not stored in the clear: when the encryption of a
  number goes into \<open>subaccounts.account_number_encrypted\<close> and the insertion is accepted, the new row
  holds bytes that are longer than the number and that decrypt to it, also in a process that starts
  later with the same key.\<close>

theorem stored_account_number_decrypts:
  assumes "aes_gcm_ok env" and "decode_key (encryption_key env) = Inr k"
    and "key_memo st = None \<or> key_memo st = Some k" and "utf8_encode number = Inr bs"
    and "encrypt_str env number st = (Inr blob, st')"
    and "distinct (map fst vals)" and "(''account_number_encrypted'', VBytes blob) \<in> set vals"
    and "exec balotly_schema now (Insert ''subaccounts'' vals) db = Inr db'"
    and "key_memo st2 = None \<or> key_memo st2 = Some k"
  shows "\<exists>r stored. db' ''subaccounts'' = db ''subaccounts'' @ [r] \<and> r ''account_number_encrypted'' = VBytes stored
     \<and> length stored = length bs + 28 \<and> fst (decrypt_str env stored st2) = Inr number"
proof -
  obtain c where c: "length c = length bs + 16"
    "encrypt_str env number st = (Inr (draw env (drawn st) 12 @ c), st\<lparr>drawn := drawn st + 12, key_memo := Some k\<rparr>)"
    "\<And>st'. key_memo st' = None \<or> key_memo st' = Some k \<Longrightarrow>
      decrypt_str env (draw env (drawn st) 12 @ c) st' = (Inr number, st'\<lparr>key_memo := Some k\<rparr>)"
    using encrypt_str_ok[OF assms(1-4)] by blast
  then have "blob = draw env (drawn st) 12 @ c" using assms(5) by simp
  moreover have "has_type Bytea (VBytes blob)" by (simp add: has_type_def)
  ultimately show ?thesis
    using inserted_value[OF assms(8) balotly_find_table(4) assms(6,7) subaccounts_columns] c(1,3) assms(9) by auto
qed

theorem stored_account_number_decrypts_witness:
  "\<exists>blob db' r. exec balotly_schema 9 (Insert ''subaccounts'' (demo_subaccount blob)) demo_db = Inr db'
     \<and> db' ''subaccounts'' = [r]
     \<and> (\<exists>b. r ''account_number_encrypted'' = VBytes b \<and> fst (decrypt_str demo_env b demo_state) = Inr (lit ''0123456789''))"
proof -
  have utf8: "utf8_encode (lit ''0123456789'') = Inr (map byte_of (lit ''0123456789''))"
    by (rule utf8_encode_ascii) (simp add: lit_simps)
  have key: "key_memo demo_state = None \<or> key_memo demo_state = Some (replicate 32 7)" by (simp add: demo_state_def)
  obtain blob st' where blob: "encrypt_str demo_env (lit ''0123456789'') demo_state = (Inr blob, st')"
    using encrypt_str_ok[OF demo_aes demo_key key utf8] by metis
  obtain db' where db': "exec balotly_schema 9 (Insert ''subaccounts'' (demo_subaccount blob)) demo_db = Inr db'"
    using demo_subaccount_accepted by blast
  have "distinct (map fst (demo_subaccount blob))"
    "(''account_number_encrypted'', VBytes blob) \<in> set (demo_subaccount blob)" "demo_db ''subaccounts'' = []"
    using demo_evaluated by (simp_all add: demo_subaccount_def demo_view_def)
  then show ?thesis
    using stored_account_number_decrypts[OF demo_aes demo_key key utf8 blob _ _ db' key] db' by auto
qed

end
