(* ===== verification/Json.thy ===== *)
theory Json
  imports Utf8
begin

text \<open>
  \<open>json.dumps\<close> of the standard library with its default arguments (\<open>ensure_ascii\<close>, the separators \<open>", "\<close>
  and \<open>": "\<close>, \<open>allow_nan\<close>), with its errors: an object that it does not know, an integer that is too long, a
  container inside itself, and the end of the interpreter's room for nested calls. And \<open>json.loads\<close> as the
  reader that says what a text means; it has room for every text.
\<close>

section \<open>Values\<close>

text \<open>A float is given by the text that stands for it: \<open>float.__repr__\<close>, \<open>NaN\<close>, \<open>Infinity\<close> or \<open>-Infinity\<close>.
  \<open>POther\<close> and \<open>KOther\<close> are objects of any class that \<open>json\<close> does not know. An object is given as it looks
  on the way down from the payload: \<open>PCycle\<close> is a list or a dict that the path to it is already inside of.\<close>

datatype pykey = KStr pystr | KInt int | KBool bool | KNone | KFloat pystr | KOther

datatype pyval =
    PNone
  | PBool bool
  | PInt int
  | PFloat pystr
  | PStr pystr
  | PList "pyval list"
  | PDict "(pykey \<times> pyval) list"
  | PCycle
  | POther

section \<open>Writing\<close>

definition hex_lower :: "nat \<Rightarrow> nat" where
  "hex_lower d = (if d < 10 then 48 + d else 87 + d)"

text \<open>\<open>'\\u{0:04x}'.format(n)\<close>\<close>

definition u_escape :: "nat \<Rightarrow> pystr" where
  "u_escape n = [92, 117, hex_lower (n div 4096), hex_lower (n div 256 mod 16), hex_lower (n div 16 mod 16), hex_lower (n mod 16)]"

definition escape_ascii :: "nat \<Rightarrow> pystr" where
  "escape_ascii c =
     (if c = 92 then [92, 92]
      else if c = 34 then [92, 34]
      else if c = 8 then [92, 98]
      else if c = 9 then [92, 116]
      else if c = 10 then [92, 110]
      else if c = 12 then [92, 102]
      else if c = 13 then [92, 114]
      else if 32 \<le> c \<and> c \<le> 126 then [c]
      else if c < 65536 then u_escape c
      else u_escape (55296 + (c - 65536) div 1024) @ u_escape (56320 + (c - 65536) mod 1024))"

definition json_string :: "pystr \<Rightarrow> pystr" where
  "json_string s = 34 # concat (map escape_ascii s) @ [34]"

text \<open>\<open>int.__repr__\<close>, with the limit of CPython on the digits it converts.\<close>

definition int_repr :: "int \<Rightarrow> (py_error, pystr) result" where
  "int_repr i = (if length (nat_str (nat \<bar>i\<bar>)) \<le> 4300 then Inr (int_str i)
     else Inl (ValueError ''Exceeds the limit for integer string conversion''))"

definition json_bool :: "bool \<Rightarrow> pystr" where
  "json_bool b = (if b then lit ''true'' else lit ''false'')"

fun json_key :: "pykey \<Rightarrow> (py_error, pystr) result" where
  "json_key (KStr s) = Inr (json_string s)"
| "json_key (KInt i) = res_bind (int_repr i) (\<lambda>t. Inr (json_string t))"
| "json_key (KBool b) = Inr (json_string (json_bool b))"
| "json_key KNone = Inr (json_string (lit ''null''))"
| "json_key (KFloat t) = Inr (json_string t)"
| "json_key KOther = Inl (TypeError ''keys must be str, int, float, bool or None'')"

text \<open>\<open>json_items\<close> and \<open>json_members\<close> write what follows the first element or member, the bracket included.
  \<open>room\<close> is how many calls the interpreter lets the writer nest from here. It enters one for each list and
  dict, before it looks whether it is inside of it already, and one for \<open>default\<close>, which raises the
  \<open>TypeError\<close>.\<close>

definition recursion_error :: py_error where
  "recursion_error = OtherError ''RecursionError''"

fun dumps :: "nat \<Rightarrow> pyval \<Rightarrow> (py_error, pystr) result"
  and json_items :: "nat \<Rightarrow> pyval list \<Rightarrow> (py_error, pystr) result"
  and json_members :: "nat \<Rightarrow> (pykey \<times> pyval) list \<Rightarrow> (py_error, pystr) result" where
  "dumps room PNone = Inr (lit ''null'')"
| "dumps room (PBool b) = Inr (json_bool b)"
| "dumps room (PInt i) = int_repr i"
| "dumps room (PFloat t) = Inr t"
| "dumps room (PStr s) = Inr (json_string s)"
| "dumps 0 (PList vs) = Inl recursion_error"
| "dumps (Suc room) (PList []) = Inr [91, 93]"
| "dumps (Suc room) (PList (v # vs)) =
     res_bind (dumps room v) (\<lambda>t. res_bind (json_items room vs) (\<lambda>u. Inr (91 # t @ u)))"
| "dumps 0 (PDict ms) = Inl recursion_error"
| "dumps (Suc room) (PDict []) = Inr [123, 125]"
| "dumps (Suc room) (PDict ((k, v) # ms)) =
     res_bind (json_key k) (\<lambda>n. res_bind (dumps room v) (\<lambda>t. res_bind (json_members room ms) (\<lambda>u.
       Inr (123 # n @ [58, 32] @ t @ u))))"
| "dumps 0 PCycle = Inl recursion_error"
| "dumps (Suc room) PCycle = Inl (ValueError ''Circular reference detected'')"
| "dumps 0 POther = Inl recursion_error"
| "dumps (Suc room) POther = Inl (TypeError ''is not JSON serializable'')"
| "json_items room [] = Inr [93]"
| "json_items room (v # vs) =
     res_bind (dumps room v) (\<lambda>t. res_bind (json_items room vs) (\<lambda>u. Inr ([44, 32] @ t @ u)))"
| "json_members room [] = Inr [125]"
| "json_members room ((k, v) # ms) =
     res_bind (json_key k) (\<lambda>n. res_bind (dumps room v) (\<lambda>t. res_bind (json_members room ms) (\<lambda>u.
       Inr ([44, 32] @ n @ [58, 32] @ t @ u))))"

section \<open>Reading\<close>

definition hex_value :: "nat \<Rightarrow> nat option" where
  "hex_value c = (if 48 \<le> c \<and> c \<le> 57 then Some (c - 48) else if 97 \<le> c \<and> c \<le> 102 then Some (c - 87)
     else if 65 \<le> c \<and> c \<le> 70 then Some (c - 55) else None)"

definition u_value :: "nat \<Rightarrow> nat \<Rightarrow> nat \<Rightarrow> nat \<Rightarrow> nat option" where
  "u_value a b c d = (case (hex_value a, hex_value b, hex_value c, hex_value d) of
     (Some w, Some x, Some y, Some z) \<Rightarrow> Some (w * 4096 + x * 256 + y * 16 + z) | _ \<Rightarrow> None)"

definition unescape :: "nat \<Rightarrow> nat option" where
  "unescape e = map_of [(92, 92), (34, 34), (47, 47), (98, 8), (116, 9), (110, 10), (102, 12), (114, 13)] e"

definition high_surrogate :: "nat \<Rightarrow> bool" where
  "high_surrogate c \<longleftrightarrow> 55296 \<le> c \<and> c \<le> 56319"

definition low_surrogate :: "nat \<Rightarrow> bool" where
  "low_surrogate c \<longleftrightarrow> 56320 \<le> c \<and> c \<le> 57343"

definition push_char :: "nat \<Rightarrow> (pystr \<times> pystr) option \<Rightarrow> (pystr \<times> pystr) option" where
  "push_char c r = map_option (\<lambda>(s, rest). (c # s, rest)) r"

text \<open>The rest of a string whose opening quote is read, and what follows it. Two escapes that form a
  surrogate pair are one character.\<close>

fun scan_string :: "pystr \<Rightarrow> (pystr \<times> pystr) option" where
  "scan_string [] = None"
| "scan_string (x # s) =
     (if x = 34 then Some ([], s)
      else if x \<noteq> 92 then (if x < 32 then None else push_char x (scan_string s))
      else (case s of
          [] \<Rightarrow> None
        | e # s1 \<Rightarrow>
            if e \<noteq> 117 then (case unescape e of None \<Rightarrow> None | Some y \<Rightarrow> push_char y (scan_string s1))
            else (case s1 of
                a # b # c # d # s2 \<Rightarrow>
                  (case u_value a b c d of
                     None \<Rightarrow> None
                   | Some n \<Rightarrow>
                       (case s2 of
                          x' # e' # a' # b' # c' # d' # s3 \<Rightarrow>
                            (case u_value a' b' c' d' of
                               Some m \<Rightarrow>
                                 if high_surrogate n \<and> x' = 92 \<and> e' = 117 \<and> low_surrogate m
                                 then push_char (65536 + (n - 55296) * 1024 + (m - 56320)) (scan_string s3)
                                 else push_char n (scan_string s2)
                             | None \<Rightarrow> push_char n (scan_string s2))
                        | _ \<Rightarrow> push_char n (scan_string s2)))
              | _ \<Rightarrow> None)))"

definition skip_ws :: "pystr \<Rightarrow> pystr" where
  "skip_ws s = dropWhile (\<lambda>c. c \<in> {32, 9, 10, 13}) s"

text \<open>Numbers and the names \<open>null\<close>, \<open>true\<close>, \<open>false\<close>, \<open>NaN\<close> and \<open>Infinity\<close> are runs of these characters. A number
  with a point or an exponent is a float; the reader keeps its text and accepts more of them than JSON.\<close>

definition token_char :: "nat \<Rightarrow> bool" where
  "token_char c \<longleftrightarrow> 48 \<le> c \<and> c \<le> 57 \<or> 97 \<le> c \<and> c \<le> 122 \<or> 65 \<le> c \<and> c \<le> 90 \<or> c \<in> {43, 45, 46}"

definition digits :: "pystr \<Rightarrow> bool" where
  "digits t \<longleftrightarrow> t \<noteq> [] \<and> list_all (\<lambda>c. 48 \<le> c \<and> c \<le> 57) t"

definition float_text :: "pystr \<Rightarrow> bool" where
  "float_text t \<longleftrightarrow> t \<in> {lit ''NaN'', lit ''Infinity'', lit ''-Infinity''}
     \<or> list_all (\<lambda>c. 48 \<le> c \<and> c \<le> 57 \<or> c \<in> {43, 45, 46, 69, 101}) t \<and> list_ex (\<lambda>c. c \<in> {46, 69, 101}) t"

definition token_value :: "pystr \<Rightarrow> pyval option" where
  "token_value t =
     (if t = lit ''null'' then Some PNone
      else if t = lit ''true'' then Some (PBool True)
      else if t = lit ''false'' then Some (PBool False)
      else if digits t then Some (PInt (int (digits_val t 0)))
      else if t \<noteq> [] \<and> hd t = 45 \<and> digits (tl t) then Some (PInt (- int (digits_val (tl t) 0)))
      else if float_text t then Some (PFloat t)
      else None)"

text \<open>The fuel bounds the depth of the recursion; \<open>loads\<close> gives the length of the text, and each call
  consumes a character.\<close>

fun read_value :: "nat \<Rightarrow> pystr \<Rightarrow> (pyval \<times> pystr) option"
  and read_items :: "nat \<Rightarrow> pystr \<Rightarrow> (pyval list \<times> pystr) option"
  and read_members :: "nat \<Rightarrow> pystr \<Rightarrow> ((pykey \<times> pyval) list \<times> pystr) option" where
  "read_value 0 s = None"
| "read_value (Suc k) s =
     (case s of
        [] \<Rightarrow> None
      | c # r \<Rightarrow>
          if c = 34 then map_option (\<lambda>(t, rest). (PStr t, rest)) (scan_string r)
          else if c = 91 then
            (if skip_ws r \<noteq> [] \<and> hd (skip_ws r) = 93 then Some (PList [], tl (skip_ws r))
             else map_option (\<lambda>(vs, rest). (PList vs, rest)) (read_items k (skip_ws r)))
          else if c = 123 then
            (if skip_ws r \<noteq> [] \<and> hd (skip_ws r) = 125 then Some (PDict [], tl (skip_ws r))
             else map_option (\<lambda>(ms, rest). (PDict ms, rest)) (read_members k (skip_ws r)))
          else map_option (\<lambda>v. (v, dropWhile token_char s)) (token_value (takeWhile token_char s)))"
| "read_items 0 s = None"
| "read_items (Suc k) s =
     (case read_value k s of
        None \<Rightarrow> None
      | Some (v, r) \<Rightarrow>
          (case skip_ws r of
             [] \<Rightarrow> None
           | c # r' \<Rightarrow>
               if c = 93 then Some ([v], r')
               else if c = 44 then map_option (\<lambda>(vs, rest). (v # vs, rest)) (read_items k (skip_ws r'))
               else None))"
| "read_members 0 s = None"
| "read_members (Suc k) s =
     (case s of
        [] \<Rightarrow> None
      | q # r \<Rightarrow>
          if q \<noteq> 34 then None
          else (case scan_string r of
              None \<Rightarrow> None
            | Some (n, r1) \<Rightarrow>
                if skip_ws r1 = [] \<or> hd (skip_ws r1) \<noteq> 58 then None
                else (case read_value k (skip_ws (tl (skip_ws r1))) of
                    None \<Rightarrow> None
                  | Some (v, r2) \<Rightarrow>
                      (case skip_ws r2 of
                         [] \<Rightarrow> None
                       | c # r3 \<Rightarrow>
                           if c = 125 then Some ([(KStr n, v)], r3)
                           else if c = 44 then
                             map_option (\<lambda>(ms, rest). ((KStr n, v) # ms, rest)) (read_members k (skip_ws r3))
                           else None))))"

definition loads :: "pystr \<Rightarrow> (py_error, pyval) result" where
  "loads t = (case read_value (Suc (length t)) (skip_ws t) of
     Some (v, rest) \<Rightarrow> if skip_ws rest = [] then Inr v else Inl (ValueError ''Extra data'')
   | None \<Rightarrow> Inl (ValueError ''Expecting value''))"

section \<open>Which values are written\<close>

definition int_ok :: "int \<Rightarrow> bool" where
  "int_ok i \<longleftrightarrow> length (nat_str (nat \<bar>i\<bar>)) \<le> 4300"

fun key_ok :: "pykey \<Rightarrow> bool" where
  "key_ok (KInt i) = int_ok i"
| "key_ok KOther = False"
| "key_ok _ = True"

fun serialisable :: "pyval \<Rightarrow> bool"
  and serialisable_items :: "pyval list \<Rightarrow> bool"
  and serialisable_members :: "(pykey \<times> pyval) list \<Rightarrow> bool" where
  "serialisable (PInt i) = int_ok i"
| "serialisable (PList vs) = serialisable_items vs"
| "serialisable (PDict ms) = serialisable_members ms"
| "serialisable PCycle = False"
| "serialisable POther = False"
| "serialisable _ = True"
| "serialisable_items [] = True"
| "serialisable_items (v # vs) = (serialisable v \<and> serialisable_items vs)"
| "serialisable_members [] = True"
| "serialisable_members ((k, v) # ms) = (key_ok k \<and> serialisable v \<and> serialisable_members ms)"

text \<open>How many calls the writer nests.\<close>

fun nesting :: "pyval \<Rightarrow> nat"
  and nesting_items :: "pyval list \<Rightarrow> nat"
  and nesting_members :: "(pykey \<times> pyval) list \<Rightarrow> nat" where
  "nesting (PList vs) = Suc (nesting_items vs)"
| "nesting (PDict ms) = Suc (nesting_members ms)"
| "nesting PCycle = 1"
| "nesting POther = 1"
| "nesting _ = 0"
| "nesting_items [] = 0"
| "nesting_items (v # vs) = max (nesting v) (nesting_items vs)"
| "nesting_members [] = 0"
| "nesting_members ((k, v) # ms) = max (nesting v) (nesting_members ms)"

text \<open>What holds of the text of every float: it is a token, and not that of an integer.\<close>

definition float_formed :: "pystr \<Rightarrow> bool" where
  "float_formed t \<longleftrightarrow> float_text t \<and> \<not> digits t \<and> list_all token_char t"

fun key_formed :: "pykey \<Rightarrow> bool" where
  "key_formed (KFloat t) = float_formed t"
| "key_formed (KStr s) = list_all (\<lambda>c. c < 1114112) s"
| "key_formed _ = True"

fun formed :: "pyval \<Rightarrow> bool"
  and formed_items :: "pyval list \<Rightarrow> bool"
  and formed_members :: "(pykey \<times> pyval) list \<Rightarrow> bool" where
  "formed (PFloat t) = float_formed t"
| "formed (PStr s) = list_all (\<lambda>c. c < 1114112) s"
| "formed (PList vs) = formed_items vs"
| "formed (PDict ms) = formed_members ms"
| "formed _ = True"
| "formed_items [] = True"
| "formed_items (v # vs) = (formed v \<and> formed_items vs)"
| "formed_members [] = True"
| "formed_members ((k, v) # ms) = (key_formed k \<and> formed v \<and> formed_members ms)"

text \<open>The values that JSON has: the keys of objects are strings, floats have the form of one, and no string
  spells one character as two surrogates.\<close>

fun no_pair :: "pystr \<Rightarrow> bool" where
  "no_pair (a # b # s) = (\<not> (high_surrogate a \<and> low_surrogate b) \<and> no_pair (b # s))"
| "no_pair _ = True"

definition plain_text :: "pystr \<Rightarrow> bool" where
  "plain_text s \<longleftrightarrow> list_all (\<lambda>c. c < 1114112) s \<and> no_pair s"

fun plain_key :: "pykey \<Rightarrow> bool" where
  "plain_key (KStr s) = plain_text s"
| "plain_key _ = False"

fun native :: "pyval \<Rightarrow> bool"
  and native_items :: "pyval list \<Rightarrow> bool"
  and native_members :: "(pykey \<times> pyval) list \<Rightarrow> bool" where
  "native (PInt i) = int_ok i"
| "native (PFloat t) = float_formed t"
| "native (PStr s) = plain_text s"
| "native (PList vs) = native_items vs"
| "native (PDict ms) = native_members ms"
| "native PCycle = False"
| "native POther = False"
| "native _ = True"
| "native_items [] = True"
| "native_items (v # vs) = (native v \<and> native_items vs)"
| "native_members [] = True"
| "native_members ((k, v) # ms) = (plain_key k \<and> native v \<and> native_members ms)"

section \<open>Strings\<close>

lemma hex_value_lower: "d < 16 \<Longrightarrow> hex_value (hex_lower d) = Some d"
  by (auto simp: hex_value_def hex_lower_def)

lemma four_digits:
  "16 * a + b = (n :: nat) \<Longrightarrow> 16 * c + d = a \<Longrightarrow> 16 * e + f = c \<Longrightarrow> e * 4096 + f * 256 + d * 16 + b = n"
  by simp

lemma u_value_escape:
  assumes "n < 65536"
  shows "u_value (hex_lower (n div 4096)) (hex_lower (n div 256 mod 16)) (hex_lower (n div 16 mod 16)) (hex_lower (n mod 16)) = Some n"
proof -
  have d: "n div 256 = n div 16 div 16" "n div 4096 = n div 16 div 16 div 16" by (simp_all add: div_mult2_eq[symmetric])
  have "n div 4096 < 16" using assms by (simp add: div_less_iff_less_mult)
  then have "n div 16 div 16 div 16 < 16" by (simp only: d)
  moreover have "n div 16 div 16 div 16 * 4096 + n div 16 div 16 mod 16 * 256 + n div 16 mod 16 * 16 + n mod 16 = n"
    by (rule four_digits[OF mult_div_mod_eq mult_div_mod_eq mult_div_mod_eq])
  ultimately show ?thesis by (simp only: d u_value_def hex_value_lower mod_less_divisor zero_less_numeral option.case prod.case)
qed

definition starts_low :: "pystr \<Rightarrow> bool" where
  "starts_low s \<longleftrightarrow> (\<exists>a b c d r m. s = 92 # 117 # a # b # c # d # r \<and> u_value a b c d = Some m \<and> low_surrogate m)"

lemmas scan_once = scan_string.simps(2)

declare scan_string.simps [simp del]

lemma scan_u:
  assumes "u_value a b c d = Some n" "high_surrogate n \<Longrightarrow> \<not> starts_low s"
  shows "scan_string (92 # 117 # a # b # c # d # s) = push_char n (scan_string s)"
  using assms by (subst scan_once) (auto simp: starts_low_def split: list.split option.split)

lemma scan_pair:
  assumes "u_value a b c d = Some n" "high_surrogate n" "u_value a' b' c' d' = Some m" "low_surrogate m"
  shows "scan_string (92 # 117 # a # b # c # d # 92 # 117 # a' # b' # c' # d' # s)
    = push_char (65536 + (n - 55296) * 1024 + (m - 56320)) (scan_string s)"
  using assms by (subst scan_once) simp

lemma scan_plain:
  "32 \<le> x \<Longrightarrow> x \<noteq> 34 \<Longrightarrow> x \<noteq> 92 \<Longrightarrow> scan_string (x # s) = push_char x (scan_string s)"
  "scan_string (34 # s) = Some ([], s)"
  "e \<noteq> 117 \<Longrightarrow> unescape e = Some y \<Longrightarrow> scan_string (92 # e # s) = push_char y (scan_string s)"
  by (subst scan_once, simp)+

lemma starts_low_u: 
  assumes "n < 65536"
  shows "starts_low (u_escape n @ s) \<longleftrightarrow> low_surrogate n"
  using u_value_escape[OF assms] unfolding starts_low_def u_escape_def by simp

lemma starts_low_escape: "c < 1114112 \<Longrightarrow> starts_low (escape_ascii c @ s) \<Longrightarrow> low_surrogate c"
proof -
  assume c: "c < 1114112" and st: "starts_low (escape_ascii c @ s)"
  have short: "\<not> starts_low (92 # x # r)" if "x \<noteq> 117" for x r using that by (simp add: starts_low_def)
  have plain: "\<not> starts_low (x # r)" if "x \<noteq> 92" for x r using that by (simp add: starts_low_def)
  have "(c - 65536) div 1024 < 1024" using c by (simp add: div_less_iff_less_mult)
  then have high: "\<not> low_surrogate (55296 + (c - 65536) div 1024)" and less: "55296 + (c - 65536) div 1024 < 65536"
    by (simp_all add: low_surrogate_def)
  show "low_surrogate c"
    using st starts_low_u[of c s] starts_low_u[OF less, of "u_escape (56320 + (c - 65536) mod 1024) @ s"] high
    by (auto simp: escape_ascii_def short plain split: if_splits)
qed

lemma scan_escape:
  assumes c: "c < 1114112" and pair: "high_surrogate c \<Longrightarrow> \<not> starts_low s"
  shows "scan_string (escape_ascii c @ s) = push_char c (scan_string s)"
proof (cases "c < 65536")
  case True
  have u: "scan_string (u_escape c @ s) = push_char c (scan_string s)"
    using scan_u[OF u_value_escape[OF True] pair] unfolding u_escape_def by simp
  then show ?thesis using True by (auto simp: escape_ascii_def unescape_def scan_plain)
next
  case False
  let ?h = "55296 + (c - 65536) div 1024" and ?l = "56320 + (c - 65536) mod 1024"
  have "(c - 65536) div 1024 < 1024" using c by (simp add: div_less_iff_less_mult)
  then have h: "?h < 65536" "high_surrogate ?h" by (simp_all add: high_surrogate_def)
  have "(c - 65536) mod 1024 < 1024" by simp
  then have l: "?l < 65536" "low_surrogate ?l" by (simp_all add: low_surrogate_def del: mod_less_divisor)
  have "65536 + (?h - 55296) * 1024 + (?l - 56320) = c" using False div_mult_mod_eq[of "c - 65536" 1024] by simp
  then show ?thesis using False scan_pair[OF u_value_escape[OF h(1)] h(2) u_value_escape[OF l(1)] l(2)]
    unfolding u_escape_def escape_ascii_def by simp
qed

lemma scan_json_string:
  "plain_text s \<Longrightarrow> scan_string (concat (map escape_ascii s) @ 34 # rest) = Some (s, rest)"
proof (induction s)
  case Nil
  then show ?case by (simp add: scan_plain)
next
  case (Cons c s)
  have c: "c < 1114112" and s: "plain_text s" using Cons.prems by (cases s; simp add: plain_text_def)+
  have "\<not> starts_low (concat (map escape_ascii s) @ 34 # rest)" if "high_surrogate c"
  proof (cases s)
    case Nil
    then show ?thesis by (simp add: starts_low_def)
  next
    case (Cons d s')
    then show ?thesis using Cons.prems that starts_low_escape[of d "concat (map escape_ascii s') @ 34 # rest"]
      by (auto simp: plain_text_def)
  qed
  then show ?case using scan_escape[OF c] Cons.IH[OF s] by (simp add: push_char_def)
qed

section \<open>Tokens\<close>

lemma skip_ws_id: "s \<noteq> [] \<Longrightarrow> hd s \<notin> {32, 9, 10, 13} \<Longrightarrow> skip_ws s = s"
  by (cases s) (auto simp: skip_ws_def)

lemma skip_ws_space: "skip_ws (32 # s) = skip_ws s"
  by (simp add: skip_ws_def)

text \<open>What may follow a value: nothing that would lengthen its last token.\<close>

definition ends :: "pystr \<Rightarrow> bool" where
  "ends rest \<longleftrightarrow> rest = [] \<or> \<not> token_char (hd rest)"

lemma token_split:
  assumes "list_all token_char t" "ends rest"
  shows "takeWhile token_char (t @ rest) = t" "dropWhile token_char (t @ rest) = rest"
  using assms by (induction t) (auto simp: ends_def takeWhile_eq_Nil_iff dropWhile_eq_self_iff)

lemma read_token:
  assumes "list_all token_char t" "t \<noteq> []" "token_value t = Some v" "ends rest"
  shows "read_value (Suc k) (t @ rest) = Some (v, rest)"
proof -
  have "hd (t @ rest) \<notin> {34, 91, 123}" using assms(1,2) by (cases t) (auto simp: token_char_def)
  then show ?thesis using assms(2,3) token_split[OF assms(1,4)] by (cases "t @ rest") auto
qed

lemma nat_str_not_Nil: "nat_str n \<noteq> []"
  by (subst nat_str.simps) simp

lemma digits_nat_str: "digits (nat_str n)"
  using nat_str_digits[of _ n] by (auto simp: digits_def nat_str_not_Nil list_all_iff)

lemma digits_token: "digits t \<Longrightarrow> list_all token_char t"
  by (auto simp: digits_def token_char_def list_all_iff)

lemma names_not_digits:
  "\<not> digits (lit ''null'')" "\<not> digits (lit ''true'')" "\<not> digits (lit ''false'')" "\<not> digits (45 # t)"
  by (simp_all add: digits_def lit_simps)

lemma token_int: "token_value (int_str i) = Some (PInt i)"
proof (cases "i < 0")
  case True
  then have "int_str i = 45 # nat_str (nat (- i))" by (simp add: int_str_def)
  moreover have "45 # nat_str (nat (- i)) \<notin> {lit ''null'', lit ''true'', lit ''false''}" by (simp add: lit_simps)
  ultimately show ?thesis using True digits_nat_str[of "nat (- i)"]
    by (simp add: token_value_def names_not_digits digits_val_nat_str)
next
  case False
  then have "int_str i = nat_str (nat i)" by (simp add: int_str_def)
  moreover have "nat_str (nat i) \<notin> {lit ''null'', lit ''true'', lit ''false''}"
    using digits_nat_str[of "nat i"] names_not_digits by auto
  ultimately show ?thesis using False digits_nat_str[of "nat i"] by (simp add: token_value_def digits_val_nat_str)
qed

lemma token_float:
  assumes "float_text t" "\<not> digits t"
  shows "token_value t = Some (PFloat t)" "t \<noteq> []"
proof -
  have n: "t \<noteq> lit ''null'' \<and> t \<noteq> lit ''true'' \<and> t \<noteq> lit ''false'' \<and> t \<noteq> []"
    using assms(1) by (auto simp: float_text_def lit_simps)
  have "\<not> digits (tl t)" if "hd t = 45"
  proof
    assume "digits (tl t)"
    then have "c = 45 \<or> 48 \<le> c \<and> c \<le> 57" if "c \<in> set t" for c
      using that n \<open>hd t = 45\<close> by (cases t) (auto simp: digits_def list_all_iff)
    moreover consider "t \<in> {lit ''NaN'', lit ''Infinity'', lit ''-Infinity''}" | "list_ex (\<lambda>c. c \<in> {46, 69, 101}) t"
      using assms(1) by (auto simp: float_text_def)
    then have "list_ex (\<lambda>c. c \<in> {46, 69, 73, 78, 101}) t"
    proof cases
      case 1
      then show ?thesis by (elim insertE emptyE) (simp_all add: lit_simps)
    next
      case 2
      then show ?thesis by (auto simp: list_ex_iff)
    qed
    ultimately show False by (fastforce simp: list_ex_iff)
  qed
  then show "token_value t = Some (PFloat t)" "t \<noteq> []" using assms n by (auto simp: token_value_def)
qed

lemma int_str_token: "list_all token_char (int_str i)" "int_str i \<noteq> []"
  using digits_token[OF digits_nat_str] by (simp_all add: int_str_def nat_str_not_Nil token_char_def)

lemma name_tokens:
  "token_value (lit ''null'') = Some PNone" "token_value (json_bool b) = Some (PBool b)"
  "list_all token_char (lit ''null'')" "list_all token_char (json_bool b)" "json_bool b \<noteq> []"
  by (auto simp: token_value_def json_bool_def lit_simps token_char_def)

section \<open>Reading what was written\<close>

definition reads :: "pyval \<Rightarrow> pystr \<Rightarrow> bool" where
  "reads v t \<longleftrightarrow> t \<noteq> [] \<and> hd t \<notin> {32, 9, 10, 13, 93, 125}
     \<and> (\<forall>k rest. length t < k \<longrightarrow> ends rest \<longrightarrow> read_value k (t @ rest) = Some (v, rest))"

lemma reads_value: "reads v t \<Longrightarrow> length t < k \<Longrightarrow> ends rest \<Longrightarrow> read_value k (t @ rest) = Some (v, rest)"
  by (simp add: reads_def)

lemma reads_start: "reads v t \<Longrightarrow> skip_ws (t @ s) = t @ s \<and> t @ s \<noteq> [] \<and> hd (t @ s) \<notin> {93, 125}"
  by (auto simp: reads_def skip_ws_id)

lemma reads_token: "list_all token_char t \<Longrightarrow> t \<noteq> [] \<Longrightarrow> token_value t = Some v \<Longrightarrow> reads v t"
proof -
  assume t: "list_all token_char t" "t \<noteq> []" "token_value t = Some v"
  then have "hd t \<notin> {32, 9, 10, 13, 93, 125}" by (cases t) (auto simp: token_char_def)
  moreover have "read_value k (t @ rest) = Some (v, rest)" if "length t < k" "ends rest" for k rest
    using that read_token[OF t that(2), of "k - 1"] by (cases k) auto
  ultimately show ?thesis using t(2) by (simp add: reads_def)
qed

lemma reads_string: "plain_text s \<Longrightarrow> reads (PStr s) (json_string s)"
proof -
  assume s: "plain_text s"
  have "read_value k (json_string s @ rest) = Some (PStr s, rest)" if "length (json_string s) < k" for k rest
    using that scan_json_string[OF s, of rest] by (cases k) (auto simp: json_string_def)
  then show ?thesis by (auto simp: reads_def json_string_def)
qed

text \<open>The rest of a list or of an object behind its first part.\<close>

lemma read_items_step:
  assumes "reads v t" "length t < k" "u = c # u'" "c \<in> {44, 93}"
  shows "read_items (Suc k) (t @ u @ rest) =
    (if c = 93 then Some ([v], u' @ rest)
     else map_option (\<lambda>(vs, r). (v # vs, r)) (read_items k (skip_ws (u' @ rest))))"
proof -
  have "ends (u @ rest)" "skip_ws (u @ rest) = u @ rest" using assms(3,4) by (auto simp: ends_def token_char_def skip_ws_def)
  then show ?thesis using reads_value[OF assms(1,2), of "u @ rest"] assms(3,4) by auto
qed

lemma read_members_step:
  assumes "plain_text n" "reads v t" "length t < k" "u = c # u'" "c \<in> {44, 125}"
  shows "read_members (Suc k) (json_string n @ 58 # 32 # t @ u @ rest) =
    (if c = 125 then Some ([(KStr n, v)], u' @ rest)
     else map_option (\<lambda>(ms, r). ((KStr n, v) # ms, r)) (read_members k (skip_ws (u' @ rest))))"
proof -
  have "ends (u @ rest)" "skip_ws (u @ rest) = u @ rest" using assms(4,5) by (auto simp: ends_def token_char_def skip_ws_def)
  moreover have "skip_ws (58 # 32 # t @ u @ rest) = 58 # 32 # t @ u @ rest" by (simp add: skip_ws_def)
  moreover have "skip_ws (32 # t @ u @ rest) = t @ u @ rest"
    using reads_start[OF assms(2), of "u @ rest"] by (simp add: skip_ws_space)
  moreover have "json_string n @ 58 # 32 # t @ u @ rest = 34 # concat (map escape_ascii n) @ 34 # 58 # 32 # t @ u @ rest"
    by (simp add: json_string_def)
  ultimately show ?thesis
    using reads_value[OF assms(2,3), of "u @ rest"] scan_json_string[OF assms(1), of "58 # 32 # t @ u @ rest"] assms(4,5)
    by auto
qed

lemma written_reads:
  "native v \<Longrightarrow> dumps room v = Inr t \<Longrightarrow> reads v t"
  "native_items vs \<Longrightarrow> json_items room vs = Inr u \<Longrightarrow> reads w x \<Longrightarrow> length (x @ u) < k \<Longrightarrow>
     read_items k (x @ u @ rest) = Some (w # vs, rest)"
  "native_members ms \<Longrightarrow> json_members room ms = Inr u \<Longrightarrow> plain_text n \<Longrightarrow> reads w x \<Longrightarrow> length (x @ u) < k \<Longrightarrow>
     read_members k (json_string n @ 58 # 32 # x @ u @ rest) = Some ((KStr n, w) # ms, rest)"
proof (induction room v and room vs and room ms arbitrary: t and u w x k rest and u n w x k rest
    rule: dumps_json_items_json_members.induct)
  case (1 room)
  then show ?case by (auto intro!: reads_token name_tokens)
next
  case (2 room b)
  then show ?case by (auto intro!: reads_token name_tokens)
next
  case (3 room i)
  then show ?case by (auto simp: int_repr_def intro!: reads_token token_int int_str_token split: if_splits)
next
  case (4 room f)
  then show ?case using token_float[of f] by (auto simp: float_formed_def intro!: reads_token)
next
  case (5 room s)
  then show ?case by (auto intro: reads_string)
next
  case (7 room)
  have "read_value k ([91, 93] @ rest) = Some (PList [], rest)" if "length [91, 93 :: nat] < k" for k rest
    using that by (cases k) (auto simp: skip_ws_def)
  then show ?case using 7 by (auto simp: reads_def)
next
  case (8 room v vs)
  then obtain x u where t: "dumps room v = Inr x" "json_items room vs = Inr u" "t = 91 # x @ u" by auto
  then have x: "reads v x" using 8 by simp
  have "read_value k (t @ rest) = Some (PList (v # vs), rest)" if "length t < k" for k rest
    using that t 8 x reads_start[OF x, of "u @ rest"] by (cases k) auto
  then show ?case using t(3) by (simp add: reads_def)
next
  case (10 room)
  have "read_value k ([123, 125] @ rest) = Some (PDict [], rest)" if "length [123, 125 :: nat] < k" for k rest
    using that by (cases k) (auto simp: skip_ws_def)
  then show ?case using 10 by (auto simp: reads_def)
next
  case (11 room key v ms)
  then obtain n x u where t: "key = KStr n" "plain_text n" "dumps room v = Inr x" "json_members room ms = Inr u"
      "t = 123 # json_string n @ 58 # 32 # x @ u" by (cases key) auto
  then have x: "reads v x" using 11 by simp
  have "skip_ws (json_string n @ y) = json_string n @ y" for y by (simp add: json_string_def skip_ws_def)
  moreover have "json_string n @ y \<noteq> []" "hd (json_string n @ y) = 34" for y by (simp_all add: json_string_def)
  ultimately have "read_value k (t @ rest) = Some (PDict ((key, v) # ms), rest)" if "length t < k" for k rest
    using that t 11 x by (cases k) auto
  then show ?case using t(5) by (simp add: reads_def)
next
  case (16 room)
  then show ?case using read_items_step[of w x "k - 1" "[93]" 93 "[]" rest] by (cases k) auto
next
  case (17 room v vs)
  then obtain y z where u: "dumps room v = Inr y" "json_items room vs = Inr z" "u = 44 # 32 # y @ z" by auto
  then have y: "reads v y" using 17 by simp
  have "skip_ws (32 # y @ z @ rest) = y @ z @ rest" using reads_start[OF y, of "z @ rest"] by (simp add: skip_ws_space)
  then show ?case using 17 u y read_items_step[of w x "k - 1" u 44 "32 # y @ z" rest] by (cases k) auto
next
  case (18 room)
  then show ?case using read_members_step[of n w x "k - 1" "[125]" 125 "[]" rest] by (cases k) auto
next
  case (19 room key v ms)
  then obtain m y z where u: "key = KStr m" "plain_text m" "dumps room v = Inr y" "json_members room ms = Inr z"
      "u = 44 # 32 # json_string m @ 58 # 32 # y @ z" by (cases key) auto
  then have y: "reads v y" using 19 by simp
  have "skip_ws (32 # json_string m @ s) = json_string m @ s" for s by (simp add: json_string_def skip_ws_def)
  then show ?case
    using 19 u y read_members_step[of n w x "k - 1" u 44 "32 # json_string m @ 58 # 32 # y @ z" rest] by (cases k) auto
qed simp_all

lemma loads_dumps: "native v \<Longrightarrow> dumps room v = Inr t \<Longrightarrow> loads t = Inr v"
proof -
  assume v: "native v" "dumps room v = Inr t"
  have r: "reads v t" using written_reads(1) v by blast
  have "read_value (Suc (length t)) (t @ []) = Some (v, [])" by (rule reads_value[OF r]) (simp_all add: ends_def)
  then show ?thesis using reads_start[OF r, of "[]"] by (simp add: loads_def skip_ws_def)
qed

section \<open>What is written\<close>

lemma int_repr_ok: "(\<exists>t. int_repr i = Inr t) \<longleftrightarrow> int_ok i"
  by (simp add: int_repr_def int_ok_def)

lemma json_key_ok: "(\<exists>t. json_key k = Inr t) \<longleftrightarrow> key_ok k"
  by (cases k) (auto simp: int_repr_def int_ok_def)

text \<open>A text is written exactly for the values that can be serialised and do not nest too deeply.\<close>

lemma dumps_ok:
  "(\<exists>t. dumps room v = Inr t) \<longleftrightarrow> serialisable v \<and> nesting v \<le> room"
  "(\<exists>t. json_items room vs = Inr t) \<longleftrightarrow> serialisable_items vs \<and> nesting_items vs \<le> room"
  "(\<exists>t. json_members room ms = Inr t) \<longleftrightarrow> serialisable_members ms \<and> nesting_members ms \<le> room"
proof (induction room v and room vs and room ms rule: dumps_json_items_json_members.induct)
  case (11 room k v ms)
  then show ?case using json_key_ok[of k] by auto
next
  case (19 room k v ms)
  then show ?case using json_key_ok[of k] by auto
qed (auto simp: int_repr_ok)

text \<open>Whatever fails is a \<open>TypeError\<close> or a \<open>ValueError\<close>, unless the room ends.\<close>

definition dumps_fails :: "bool \<Rightarrow> py_error \<Rightarrow> bool" where
  "dumps_fails deep e \<longleftrightarrow> is_type_error e \<or> is_value_error e \<or> deep \<and> e = recursion_error"

lemma json_key_error: "json_key k = Inl e \<Longrightarrow> dumps_fails deep e"
  by (cases k) (auto simp: int_repr_def dumps_fails_def split: if_splits)

lemma dumps_fails_mono: "dumps_fails a e \<Longrightarrow> (a \<Longrightarrow> b) \<Longrightarrow> dumps_fails b e"
  by (auto simp: dumps_fails_def)

lemma dumps_error:
  "dumps room v = Inl e \<Longrightarrow> dumps_fails (room < nesting v) e"
  "json_items room vs = Inl e \<Longrightarrow> dumps_fails (room < nesting_items vs) e"
  "json_members room ms = Inl e \<Longrightarrow> dumps_fails (room < nesting_members ms) e"
proof (induction room v and room vs and room ms rule: dumps_json_items_json_members.induct)
  case (3 room i)
  then show ?case by (auto simp: int_repr_def dumps_fails_def split: if_splits)
next
  case (8 room v vs)
  then show ?case by (auto simp: res_bind_eq_Inl elim!: dumps_fails_mono)
next
  case (11 room k v ms)
  then show ?case using json_key_error[of k] by (auto simp: res_bind_eq_Inl elim!: dumps_fails_mono)
next
  case (17 room v vs)
  then show ?case by (auto simp: res_bind_eq_Inl elim!: dumps_fails_mono)
next
  case (19 room k v ms)
  then show ?case using json_key_error[of k] by (auto simp: res_bind_eq_Inl elim!: dumps_fails_mono)
qed (auto simp: dumps_fails_def)

text \<open>The text is ASCII, whatever characters the strings have.\<close>

definition ascii :: "pystr \<Rightarrow> bool" where
  "ascii s \<longleftrightarrow> list_all (\<lambda>c. c < 128) s"

lemma ascii_append [simp]: "ascii (s @ t) \<longleftrightarrow> ascii s \<and> ascii t"
  by (simp add: ascii_def)

lemma ascii_Cons [simp]: "ascii (c # t) \<longleftrightarrow> c < 128 \<and> ascii t" "ascii []"
  by (simp_all add: ascii_def)

lemma ascii_tokens: "list_all token_char t \<Longrightarrow> ascii t"
  by (auto simp: ascii_def token_char_def list_all_iff)

lemma ascii_names: "ascii (lit ''null'')" "ascii (json_bool b)"
  by (simp_all add: ascii_tokens name_tokens)

lemma ascii_u_escape: "n < 65536 \<Longrightarrow> ascii (u_escape n)"
proof -
  assume "n < 65536"
  then have "n div 4096 < 16" by (simp add: div_less_iff_less_mult)
  moreover have "hex_lower d < 128" if "d < 16" for d using that by (simp add: hex_lower_def)
  ultimately show ?thesis by (simp add: u_escape_def)
qed

lemma ascii_escape: "c < 1114112 \<Longrightarrow> ascii (escape_ascii c)"
proof -
  assume "c < 1114112"
  then have "(c - 65536) div 1024 < 1024" by (simp add: div_less_iff_less_mult)
  moreover have "(c - 65536) mod 1024 < 1024" by simp
  ultimately show ?thesis by (simp add: escape_ascii_def ascii_u_escape del: mod_less_divisor)
qed

lemma ascii_json_string: "list_all (\<lambda>c. c < 1114112) s \<Longrightarrow> ascii (json_string s)"
proof -
  assume "list_all (\<lambda>c. c < 1114112) s"
  then have "ascii (concat (map escape_ascii s))" by (induction s) (simp_all add: ascii_escape)
  then show ?thesis by (simp add: json_string_def)
qed

lemma tokens_characters: "list_all token_char t \<Longrightarrow> list_all (\<lambda>c. c < 1114112) t"
  by (auto simp: token_char_def list_all_iff)

lemma ascii_key: "json_key k = Inr t \<Longrightarrow> key_formed k \<Longrightarrow> ascii t"
  by (cases k) (auto simp: int_repr_def float_formed_def split: if_splits
      intro!: ascii_json_string tokens_characters name_tokens int_str_token)

lemma ascii_dumps:
  "dumps room v = Inr t \<Longrightarrow> formed v \<Longrightarrow> ascii t"
  "json_items room vs = Inr t \<Longrightarrow> formed_items vs \<Longrightarrow> ascii t"
  "json_members room ms = Inr t \<Longrightarrow> formed_members ms \<Longrightarrow> ascii t"
proof (induction room v and room vs and room ms arbitrary: t and t and t rule: dumps_json_items_json_members.induct)
  case (3 room i)
  then show ?case by (auto simp: int_repr_def split: if_splits intro!: ascii_tokens int_str_token)
next
  case (11 room k v ms)
  then show ?case using ascii_key[of k] by auto
next
  case (19 room k v ms)
  then show ?case using ascii_key[of k] by auto
qed (simp_all add: ascii_names ascii_json_string ascii_tokens float_formed_def, auto)

text \<open>A value that JSON has is well formed and can be serialised.\<close>

lemma native_ok:
  "native v \<Longrightarrow> formed v \<and> serialisable v"
  "native_items vs \<Longrightarrow> formed_items vs \<and> serialisable_items vs"
  "native_members ms \<Longrightarrow> formed_members ms \<and> serialisable_members ms"
proof (induction v and vs and ms rule: native_native_items_native_members.induct)
  case (12 k v ms)
  then show ?case by (cases k) (auto simp: plain_text_def)
qed (auto simp: plain_text_def)

end
