(* ===== verification/Mq.thy ===== *)
theory Mq
  imports Effects Json
begin

text \<open>
  \<open>api/core/mq.py\<close>. The module's global \<open>_connection\<close> under interleaving: the code between two \<open>await\<close>s
  is one step, so a call of \<open>connect\<close> is the test of \<open>_connection\<close> and, if it dials, the assignment
  after \<open>connect_robust\<close>; \<open>close\<close> is the test and the assignment after \<open>_connection.close()\<close>. Whether a
  dial or a \<open>close()\<close> succeeds and when a connection is closed for good is the environment's choice. And \<open>_publish\<close>
  as an effect on the broker. aio-pika is not part of the repository.
\<close>

section \<open>The shared connection\<close>

text \<open>\<open>dialling\<close> counts the coroutines suspended in \<open>connect_robust\<close>; \<open>closing\<close> are the connections
  whose \<open>close()\<close> is awaited.\<close>

record mq =
  connection :: "nat option"
  open_conns :: "nat list"
  next_conn :: nat
  dialling :: nat
  closing :: "nat list"

definition mq_init :: mq where
  "mq_init = \<lparr>connection = None, open_conns = [], next_conn = 0, dialling = 0, closing = []\<rparr>"

datatype mq_event =
    ConnectBegin
  | ConnectEnd bool
  | CloseBegin
  | CloseEnd nat bool
  | Dropped nat

definition usable :: "mq \<Rightarrow> bool" where
  "usable m \<longleftrightarrow> (case connection m of None \<Rightarrow> False | Some c \<Rightarrow> c \<in> set (open_conns m))"

definition connect_begin :: "mq \<Rightarrow> mq" where
  "connect_begin m = (if usable m then m else m\<lparr>dialling := Suc (dialling m)\<rparr>)"

definition connect_end :: "bool \<Rightarrow> mq \<Rightarrow> mq" where
  "connect_end ok m =
     (if ok then m\<lparr>dialling := dialling m - 1, connection := Some (next_conn m),
                   open_conns := next_conn m # open_conns m, next_conn := Suc (next_conn m)\<rparr>
      else m\<lparr>dialling := dialling m - 1\<rparr>)"

definition close_begin :: "mq \<Rightarrow> mq" where
  "close_begin m =
     (case connection m of None \<Rightarrow> m
      | Some c \<Rightarrow> if c \<in> set (open_conns m) then m\<lparr>closing := closing m @ [c]\<rparr> else m\<lparr>connection := None\<rparr>)"

text \<open>When the awaited \<open>close()\<close> raises or is cancelled, the global keeps its value.\<close>

definition close_end :: "nat \<Rightarrow> bool \<Rightarrow> mq \<Rightarrow> mq" where
  "close_end c ok m =
     (if ok then m\<lparr>closing := remove1 c (closing m), open_conns := removeAll c (open_conns m), connection := None\<rparr>
      else m\<lparr>closing := remove1 c (closing m)\<rparr>)"

fun mq_step :: "mq \<Rightarrow> mq_event \<Rightarrow> mq option" where
  "mq_step m ConnectBegin = Some (connect_begin m)"
| "mq_step m (ConnectEnd ok) = (if dialling m = 0 then None else Some (connect_end ok m))"
| "mq_step m CloseBegin = Some (close_begin m)"
| "mq_step m (CloseEnd c ok) = (if c \<in> set (closing m) then Some (close_end c ok m) else None)"
| "mq_step m (Dropped c) = Some (m\<lparr>open_conns := removeAll c (open_conns m)\<rparr>)"

section \<open>Calls that nobody interrupts\<close>

datatype mq_op = Connect bool | Close bool | Drop nat

definition connect_alone :: "bool \<Rightarrow> mq \<Rightarrow> mq" where
  "connect_alone ok m = (if usable m then m else connect_end ok (connect_begin m))"

definition close_alone :: "bool \<Rightarrow> mq \<Rightarrow> mq" where
  "close_alone ok m = (if usable m then close_end (the (connection m)) ok (close_begin m) else close_begin m)"

fun mq_op_step :: "mq \<Rightarrow> mq_op \<Rightarrow> mq option" where
  "mq_op_step m (Connect ok) = Some (connect_alone ok m)"
| "mq_op_step m (Close ok) = Some (close_alone ok m)"
| "mq_op_step m (Drop c) = Some (m\<lparr>open_conns := removeAll c (open_conns m)\<rparr>)"

text \<open>Nothing is open but what the global refers to, and no call is under way.\<close>

definition no_leak :: "mq \<Rightarrow> bool" where
  "no_leak m \<longleftrightarrow> dialling m = 0 \<and> closing m = []
     \<and> (open_conns m = [] \<or> (\<exists>c. connection m = Some c \<and> open_conns m = [c]))"

lemma no_leak_step:
  assumes "no_leak m" "mq_op_step m e = Some m'"
  shows "no_leak m'"
proof (cases e)
  case (Connect ok)
  then show ?thesis using assms
    by (auto simp: no_leak_def connect_alone_def connect_begin_def connect_end_def usable_def split: option.splits)
next
  case (Close ok)
  then show ?thesis using assms
    by (auto simp: no_leak_def close_alone_def close_begin_def close_end_def usable_def split: option.splits if_splits)
next
  case (Drop c)
  then show ?thesis using assms by (auto simp: no_leak_def split: if_splits)
qed

interpretation mq_calls: step_invariant mq_op_step no_leak
  by unfold_locales (rule no_leak_step)

text \<open>Under any interleaving the identities stay fresh.\<close>

definition ids_fresh :: "mq \<Rightarrow> bool" where
  "ids_fresh m \<longleftrightarrow> (\<forall>c \<in> set (open_conns m). c < next_conn m) \<and> distinct (open_conns m)"

lemma ids_fresh_step: "ids_fresh m \<Longrightarrow> mq_step m e = Some m' \<Longrightarrow> ids_fresh m'"
  by (cases e) (auto simp: ids_fresh_def connect_begin_def connect_end_def close_begin_def close_end_def
      less_SucI distinct_removeAll split: if_splits option.splits)

interpretation mq_machine: step_invariant mq_step ids_fresh
  by unfold_locales (rule ids_fresh_step)

section \<open>Publishing\<close>

datatype delivery = Persistent | Transient

datatype broker_call =
    GetConnection
  | OpenChannel
  | DeclareQueue pystr bool
  | Publish pystr bytes delivery
  | CloseChannel

text \<open>\<open>room\<close> is the depth of calls that the interpreter has left for \<open>json.dumps\<close>.\<close>

definition json_body :: "nat \<Rightarrow> pyval \<Rightarrow> (py_error, bytes) result" where
  "json_body room payload = res_bind (dumps room payload) utf8_encode"

definition publish :: "nat \<Rightarrow> pystr \<Rightarrow> pyval \<Rightarrow> (broker_call, unit) eff" where
  "publish room queue payload =
     andthen (call GetConnection)
       (andthen (call OpenChannel)
          (try_finally
             (andthen (call (DeclareQueue queue True))
                (case json_body room payload of Inl _ \<Rightarrow> raise_exc | Inr b \<Rightarrow> call (Publish queue b Persistent)))
             (call CloseChannel)))"

definition publish_webhook_event :: "nat \<Rightarrow> pystr \<Rightarrow> pyval \<Rightarrow> (broker_call, unit) eff" where
  "publish_webhook_event room webhook_queue_name payload = publish room webhook_queue_name payload"

lemma json_body_ok: "formed v \<Longrightarrow> (\<exists>b. json_body room v = Inr b) \<longleftrightarrow> serialisable v \<and> nesting v \<le> room"
proof -
  assume v: "formed v"
  have "utf8_encode t = Inr (map byte_of t)" if "dumps room v = Inr t" for t
    using ascii_dumps(1)[OF that v] by (intro utf8_encode_ascii) (simp add: ascii_def list_all_iff)
  then show ?thesis using dumps_ok(1)[of room v] by (auto simp: json_body_def)
qed

lemma json_body_error: "json_body room v = Inl e \<Longrightarrow> dumps_fails (room < nesting v) e"
  by (auto simp: json_body_def res_bind_eq_Inl dumps_fails_def[of _ e] dest: dumps_error utf8_encode_error)

lemma json_body_ascii: "formed v \<Longrightarrow> json_body room v = Inr b \<Longrightarrow> list_all (\<lambda>x. unat x < 128) b"
proof -
  assume v: "formed v" "json_body room v = Inr b"
  then obtain t where t: "dumps room v = Inr t" "utf8_encode t = Inr b" by (auto simp: json_body_def)
  have a: "ascii t" by (rule ascii_dumps(1)[OF t(1) v(1)])
  then have "b = map byte_of t" using t(2) utf8_encode_ascii[of t] by (simp add: ascii_def list_all_iff)
  then show ?thesis using a by (auto simp: ascii_def list_all_iff)
qed

text \<open>The message body is a codec on the values that JSON has, with the reader of the standard library.\<close>

interpretation message: codec "\<lambda>v. if native v then json_body room v else Inl (TypeError ''not a JSON value'')"
  "\<lambda>b. res_bind (utf8_decode b) loads" for room
  by unfold_locales (auto simp: json_body_def utf8_decode_encode loads_dumps split: if_splits)

lemma json_body_reads_back: "native v \<Longrightarrow> json_body room v = Inr b \<Longrightarrow> res_bind (utf8_decode b) loads = Inr v"
  by (rule message.dec_enc[where room = room]) simp

section \<open>Properties\<close>

text \<open>While no two calls of \<open>connect\<close> and \<open>close\<close> overlap, the module never leaks: at most one
  connection is open, it is the one the module refers to, \<open>connect\<close> reuses it instead of dialling
  again, and after a \<open>close\<close> that succeeds none is open and none is referred to.\<close>

theorem connection_is_shared:
  assumes "run mq_op_step mq_init ops = Some m"
  shows "length (open_conns m) \<le> 1 \<and> (usable m = (open_conns m \<noteq> []))
     \<and> (connect_alone ok m = m \<or> open_conns m = [])
     \<and> usable (connect_alone True m) \<and> open_conns (close_alone True m) = [] \<and> connection (close_alone True m) = None"
proof -
  have "no_leak mq_init" by (simp add: no_leak_def mq_init_def)
  then have "no_leak m" using assms by (rule mq_calls.run_inv)
  then show ?thesis
    by (auto simp: no_leak_def usable_def connect_alone_def connect_begin_def connect_end_def close_alone_def
        close_begin_def close_end_def split: option.splits)
qed

theorem connection_is_shared_witness:
  "\<exists>m. run mq_op_step mq_init [Connect False, Connect True, Close False, Connect True] = Some m \<and> usable (connect_alone True m)"
proof -
  have "\<exists>m. run mq_op_step mq_init [Connect False, Connect True, Close False, Connect True] = Some m"
    by (simp add: split: option.splits)
  then show ?thesis using connection_is_shared by blast
qed

text \<open>Two coroutines that find no connection both dial, because the test and the assignment of
  \<open>connect\<close> are separated by an \<open>await\<close>: the second assignment drops the first connection, which stays
  open, and \<open>close\<close> at shutdown closes only the other one.\<close>

theorem concurrent_connects_leak:
  "\<exists>m. run mq_step mq_init [ConnectBegin, ConnectBegin, ConnectEnd True, ConnectEnd True, CloseBegin, CloseEnd 1 True] = Some m
     \<and> connection m = None \<and> open_conns m = [0] \<and> dialling m = 0 \<and> closing m = []"
  by (simp add: mq_init_def connect_begin_def usable_def connect_end_def close_begin_def close_end_def)

text \<open>C30: \<open>_publish\<close> closes the channel it opened on every path, exactly once and last, also when the
  payload cannot be written as JSON or the coroutine is cancelled; it publishes at most one message, persistent and
  on a queue it has declared durable before; and it returns normally only if the message was published.\<close>

theorem publish_is_clean:
  "let (calls, end, _) = publish room queue payload env s in
     (env GetConnection = Done \<and> env OpenChannel = Done) =
       (\<exists>mid. calls = [GetConnection, OpenChannel, DeclareQueue queue True] @ mid @ [CloseChannel]
          \<and> (mid = [] \<or> (\<exists>b. json_body room payload = Inr b \<and> mid = [Publish queue b Persistent])))
     \<and> (end = Done) = (\<exists>b. json_body room payload = Inr b \<and>
          calls = [GetConnection, OpenChannel, DeclareQueue queue True, Publish queue b Persistent, CloseChannel]
          \<and> list_all (\<lambda>c. env c = Done) calls)"
  by (cases "json_body room payload"; cases "env GetConnection"; cases "env OpenChannel"; cases "env (DeclareQueue queue True)")
    (auto simp: publish_def effects split: sum.splits)

text \<open>C31: The consumer of a webhook event reads what the handler queued: for every payload that JSON has and
  that does not nest deeper than the interpreter has room for, whatever characters its strings hold,
  the body is written, is ASCII, and means the payload; and no message with another body, on another
  queue or that does not survive a restart of the broker is published, however the calls end.\<close>

theorem queued_event_reads_back:
  assumes "native payload" "nesting payload \<le> room"
  shows "\<exists>b. json_body room payload = Inr b \<and> list_all (\<lambda>x. unat x < 128) b
     \<and> res_bind (utf8_decode b) loads = Inr payload
     \<and> calls_of (publish_webhook_event room queue payload (\<lambda>_. Done) s)
         = [GetConnection, OpenChannel, DeclareQueue queue True, Publish queue b Persistent, CloseChannel]
     \<and> list_all (\<lambda>c. case c of Publish q b' d \<Rightarrow> q = queue \<and> b' = b \<and> d = Persistent | _ \<Rightarrow> True)
         (calls_of (publish_webhook_event room queue payload env s))"
proof -
  obtain b where b: "json_body room payload = Inr b" using json_body_ok native_ok(1)[OF assms(1)] assms(2) by blast
  have "list_all (\<lambda>x. unat x < 128) b" using json_body_ascii b native_ok(1)[OF assms(1)] by blast
  moreover have "list_all (\<lambda>c. case c of Publish q b' d \<Rightarrow> q = queue \<and> b' = b \<and> d = Persistent | _ \<Rightarrow> True)
      (calls_of (publish_webhook_event room queue payload env s))"
    by (cases "env GetConnection"; cases "env OpenChannel"; cases "env (DeclareQueue queue True)")
      (simp_all add: publish_webhook_event_def publish_def effects b)
  moreover have "calls_of (publish_webhook_event room queue payload (\<lambda>_. Done) s)
      = [GetConnection, OpenChannel, DeclareQueue queue True, Publish queue b Persistent, CloseChannel]"
    by (simp add: publish_webhook_event_def publish_def effects b)
  ultimately show ?thesis using b json_body_reads_back[OF assms(1) b] by blast
qed

definition demo_event :: pyval where
  "demo_event = PDict [(KStr (lit ''event''), PStr (lit ''charge.success'')),
     (KStr (lit ''data''), PDict [(KStr (lit ''amount''), PInt 50000), (KStr (lit ''fees''), PFloat (lit ''1.5'')),
       (KStr (lit ''customer''), PStr [128512, 233, 34, 10]), (KStr (lit ''log''), PNone), (KStr (lit ''split''), PList [])])]"

theorem queued_event_reads_back_witness:
  "\<exists>b. json_body 3 demo_event = Inr b \<and> res_bind (utf8_decode b) loads = Inr demo_event"
proof -
  have "native demo_event"
    by (simp add: demo_event_def plain_text_def lit_simps high_surrogate_def low_surrogate_def int_ok_def
        nat_str.simps float_formed_def float_text_def digits_def token_char_def)
  moreover have "nesting demo_event \<le> 3" by (simp add: demo_event_def)
  ultimately show ?thesis using queued_event_reads_back by blast
qed

text \<open>C32: Exactly which payloads cannot be queued: those with an object that \<open>json\<close> does not know, a key of such a
  class, an integer of more than 4300 digits or a container inside itself, and those that nest deeper
  than the interpreter has room for. Then \<open>_publish\<close> raises behind the declaration of the queue, a
  \<open>TypeError\<close> or a \<open>ValueError\<close>, or \<open>RecursionError\<close> where the nesting is too deep; no message is sent, and the
  channel is closed. No string makes it fail, a lone surrogate included.\<close>

theorem unserialisable_event_is_not_sent:
  assumes "formed payload"
  shows "if serialisable payload \<and> nesting payload \<le> room then \<exists>b. json_body room payload = Inr b
     else (\<exists>e. json_body room payload = Inl e
           \<and> (is_type_error e \<or> is_value_error e \<or> room < nesting payload \<and> e = recursion_error))
       \<and> calls_of (publish_webhook_event room queue payload (\<lambda>_. Done) s)
           = [GetConnection, OpenChannel, DeclareQueue queue True, CloseChannel]
       \<and> outcome_of (publish_webhook_event room queue payload (\<lambda>_. Done) s) = Exc"
proof (cases "json_body room payload")
  case (Inl e)
  then show ?thesis using json_body_ok[OF assms, of room] json_body_error[OF Inl]
    by (simp add: publish_webhook_event_def publish_def effects dumps_fails_def)
next
  case (Inr b)
  then have "serialisable payload \<and> nesting payload \<le> room" using json_body_ok[OF assms] by blast
  then show ?thesis using Inr by simp
qed

theorem unserialisable_event_is_not_sent_witness:
  "let e = [GetConnection, OpenChannel, DeclareQueue [] True, CloseChannel] in
     calls_of (publish_webhook_event 900 [] (PDict [(KStr [], POther)]) (\<lambda>_. Done) ()) = e
   \<and> calls_of (publish_webhook_event 900 [] (PDict [(KStr [], PList [PCycle])]) (\<lambda>_. Done) ()) = e
   \<and> json_body 1 (PDict [(KStr [], PList [])]) = Inl recursion_error
   \<and> calls_of (publish_webhook_event 1 [] (PDict [(KStr [], PList [])]) (\<lambda>_. Done) ()) = e
   \<and> (\<exists>b. json_body 900 (PStr [55357]) = Inr b)"
  using unserialisable_event_is_not_sent[of "PDict [(KStr [], POther)]" 900 "[]" "()"]
    unserialisable_event_is_not_sent[of "PDict [(KStr [], PList [PCycle])]" 900 "[]" "()"]
    unserialisable_event_is_not_sent[of "PDict [(KStr [], PList [])]" 1 "[]" "()"]
    unserialisable_event_is_not_sent[of "PStr [55357]" 900 "[]" "()"] by (simp add: json_body_def)

end
