(* ===== verification/Logs.thy ===== *)
theory Logs
  imports Prelude
begin

text \<open>
  Logging: the part of Python's \<open>logging\<close> that decides whether a record is written (levels inherited
  along the hierarchy, propagation to the handlers of the ancestors, the handler of last resort), the
  module \<open>api/utils/logger.py\<close>, and the logging lines of \<open>main.py\<close>.
\<close>

section \<open>The hierarchy of loggers\<close>

text \<open>A logger \<open>a.b\<close> is the list \<open>[b, a]\<close>, so that its parent is the tail; the root is \<open>[]\<close>. A logger
  nobody has touched has level \<open>NOTSET\<close> (0), no handlers, and propagates. A handler is its level.\<close>

type_synonym logger_name = "string list"

record logger =
  lg_level :: nat
  lg_handlers :: "nat list"
  lg_propagate :: bool

type_synonym loggers = "logger_name \<Rightarrow> logger"

definition fresh_logger :: logger where
  "fresh_logger = \<lparr>lg_level = 0, lg_handlers = [], lg_propagate = True\<rparr>"

abbreviation "DEBUG \<equiv> (10 :: nat)"
abbreviation "INFO \<equiv> (20 :: nat)"
abbreviation "WARNING \<equiv> (30 :: nat)"

text \<open>The loggers of a process that has configured nothing.\<close>

definition unconfigured :: loggers where
  "unconfigured = (\<lambda>_. fresh_logger)([] := fresh_logger\<lparr>lg_level := WARNING\<rparr>)"

text \<open>\<open>getEffectiveLevel\<close>, the handlers that \<open>callHandlers\<close> finds, and those that write a record.\<close>

fun effective_level :: "loggers \<Rightarrow> logger_name \<Rightarrow> nat" where
  "effective_level ls [] = lg_level (ls [])"
| "effective_level ls (c # p) =
     (if lg_level (ls (c # p)) \<noteq> 0 then lg_level (ls (c # p)) else effective_level ls p)"

fun found_handlers :: "loggers \<Rightarrow> logger_name \<Rightarrow> nat list" where
  "found_handlers ls [] = lg_handlers (ls [])"
| "found_handlers ls (c # p) =
     lg_handlers (ls (c # p)) @ (if lg_propagate (ls (c # p)) then found_handlers ls p else [])"

definition written_by :: "loggers \<Rightarrow> logger_name \<Rightarrow> nat \<Rightarrow> nat list" where
  "written_by ls n level =
     (if level < effective_level ls n then []
      else filter (\<lambda>h. h \<le> level) (if found_handlers ls n = [] then [WARNING] else found_handlers ls n))"

definition set_level :: "logger_name \<Rightarrow> nat \<Rightarrow> loggers \<Rightarrow> loggers" where
  "set_level n level ls = ls(n := (ls n)\<lparr>lg_level := level\<rparr>)"

definition add_handler :: "logger_name \<Rightarrow> nat \<Rightarrow> loggers \<Rightarrow> loggers" where
  "add_handler n h ls = ls(n := (ls n)\<lparr>lg_handlers := lg_handlers (ls n) @ [h]\<rparr>)"

definition set_propagate :: "logger_name \<Rightarrow> bool \<Rightarrow> loggers \<Rightarrow> loggers" where
  "set_propagate n b ls = ls(n := (ls n)\<lparr>lg_propagate := b\<rparr>)"

text \<open>\<open>logging.basicConfig(level=...)\<close>: it does nothing when the root has handlers already.\<close>

definition basic_config :: "nat \<Rightarrow> loggers \<Rightarrow> loggers" where
  "basic_config level ls = (if lg_handlers (ls []) = [] then set_level [] level (add_handler [] 0 ls) else ls)"

section \<open>The program's configuration\<close>

definition balotly_logger :: logger_name where
  "balotly_logger = [''balotly'']"

definition noisy_loggers :: "logger_name list" where
  "noisy_loggers = [[''httpx''], [''httpcore''], [''aio_pika''], [''aiormq'']]"

definition logger_module :: "loggers \<Rightarrow> loggers" where
  "logger_module ls =
     add_handler balotly_logger 0 (set_propagate balotly_logger False (set_level balotly_logger INFO ls))"

definition silence_noisy_loggers :: "loggers \<Rightarrow> loggers" where
  "silence_noisy_loggers ls = fold (\<lambda>n. set_level n WARNING) noisy_loggers ls"

definition main_logging :: "loggers \<Rightarrow> loggers" where
  "main_logging ls = silence_noisy_loggers (basic_config INFO (logger_module ls))"

section \<open>Lemmas\<close>

text \<open>The loggers strictly below \<open>p\<close> on the way to \<open>n @ p\<close>; where they set no level, that of \<open>p\<close> is inherited.\<close>

fun between :: "logger_name \<Rightarrow> logger_name \<Rightarrow> logger_name list" where
  "between [] p = []"
| "between (c # n) p = (c # n @ p) # between n p"

lemma effective_level_inherited:
  "\<forall>q \<in> set (between n p). lg_level (ls q) = 0 \<Longrightarrow> effective_level ls (n @ p) = effective_level ls p"
  by (induction n p rule: between.induct) auto

lemma between_longer: "q \<in> set (between n p) \<Longrightarrow> length p < length q"
  by (induction n p rule: between.induct) auto

lemma silenced_level:
  "lg_level (silence_noisy_loggers ls n) = (if n \<in> set noisy_loggers then WARNING else lg_level (ls n))"
  "lg_handlers (silence_noisy_loggers ls n) = lg_handlers (ls n)"
  "lg_propagate (silence_noisy_loggers ls n) = lg_propagate (ls n)"
  by (auto simp: silence_noisy_loggers_def noisy_loggers_def set_level_def)

lemma basic_config_level: "n \<noteq> [] \<Longrightarrow> basic_config level ls n = ls n"
  by (simp add: basic_config_def set_level_def add_handler_def)

lemma logger_module_other: "n \<noteq> balotly_logger \<Longrightarrow> logger_module ls n = ls n"
  by (simp add: logger_module_def set_level_def add_handler_def set_propagate_def)

lemma logger_module_own:
  "logger_module ls balotly_logger = (ls balotly_logger)
     \<lparr>lg_level := INFO, lg_propagate := False, lg_handlers := lg_handlers (ls balotly_logger) @ [0]\<rparr>"
  by (simp add: logger_module_def set_level_def add_handler_def set_propagate_def)

lemma noisy_names: "p \<in> set noisy_loggers \<Longrightarrow> \<exists>c. p = [c] \<and> c \<noteq> ''balotly''"
  by (auto simp: noisy_loggers_def)

text \<open>Whatever sets the level of a noisy logger to \<open>WARNING\<close> and leaves its descendants alone keeps their
  records below \<open>WARNING\<close> from every handler.\<close>

lemma quiet:
  assumes "p \<in> set noisy_loggers" "lg_level (ls p) = WARNING" "level < WARNING"
    and "\<forall>q \<in> set (between n p). lg_level (ls q) = 0"
  shows "written_by ls (n @ p) level = []"
proof -
  obtain c where "p = [c]" using noisy_names[OF assms(1)] by blast
  then have "effective_level ls p = WARNING" using assms(2) by simp
  then show ?thesis using effective_level_inherited[OF assms(4)] assms(3) by (simp add: written_by_def)
qed

lemma below_noisy:
  assumes "p \<in> set noisy_loggers" "q \<in> set (between n p)"
  shows "q \<notin> set noisy_loggers" "q \<noteq> []" "q \<noteq> balotly_logger"
proof -
  obtain c where c: "p = [c]" using noisy_names[OF assms(1)] by blast
  have "2 \<le> length q" using between_longer[OF assms(2)] c by simp
  then show "q \<notin> set noisy_loggers" "q \<noteq> []" "q \<noteq> balotly_logger"
    by (auto simp: noisy_loggers_def balotly_logger_def)
qed

section \<open>Properties\<close>

text \<open>The libraries whose request lines carry credentials.\<close>

lemma libraries_noisy:
  "p \<in> {[''httpx''], [''httpcore''], [''aio_pika''], [''aiormq'']} \<Longrightarrow> p \<in> set noisy_loggers"
  by (elim insertE emptyE) (simp_all add: noisy_loggers_def)

text \<open>C35: Request lines of the HTTP and broker libraries, which carry credentials, are not written: from
  whatever logging configuration \<open>main.py\<close> starts in which no logger under \<open>httpx\<close>, \<open>httpcore\<close>, \<open>aio_pika\<close>
  or \<open>aiormq\<close>, on the way to the one that logs, has a level of its own, after the logging lines of \<open>main.py\<close>
  no handler writes a record below \<open>WARNING\<close> of one of these four loggers or of one under them. The same holds with \<open>silence_noisy_loggers\<close> before \<open>basicConfig\<close>, so the
  comment that it must run after it is stricter than needed.\<close>

theorem credentials_stay_out_of_logs:
  assumes "p \<in> {[''httpx''], [''httpcore''], [''aio_pika''], [''aiormq'']}" and "level < WARNING"
    and "\<forall>q \<in> set (between n p). lg_level (ls q) = 0"
  shows "written_by (main_logging ls) (n @ p) level = []
     \<and> written_by (basic_config INFO (silence_noisy_loggers (logger_module ls))) (n @ p) level = []"
proof -
  have noisy: "p \<in> set noisy_loggers" by (rule libraries_noisy[OF assms(1)])
  have p: "p \<noteq> []" using noisy_names[OF noisy] by auto
  have "lg_level (main_logging ls p) = WARNING"
    "lg_level (basic_config INFO (silence_noisy_loggers (logger_module ls)) p) = WARNING"
    using noisy p by (simp_all add: main_logging_def basic_config_level silenced_level)
  moreover have "lg_level (main_logging ls q) = 0"
    "lg_level (basic_config INFO (silence_noisy_loggers (logger_module ls)) q) = 0"
    if "q \<in> set (between n p)" for q
    using below_noisy[OF noisy that] assms(3) that
    by (simp_all add: main_logging_def basic_config_level silenced_level logger_module_other)
  ultimately show ?thesis using quiet[OF noisy _ assms(2)] by blast
qed

theorem credentials_stay_out_of_logs_witness:
  "written_by (main_logging unconfigured) [''http11'', ''httpcore''] INFO = []
     \<and> written_by (basic_config INFO unconfigured) [''http11'', ''httpcore''] INFO = [0]"
proof -
  have "[''httpcore''] \<in> {[''httpx''], [''httpcore''], [''aio_pika''], [''aiormq'']}" by simp
  moreover have "\<forall>q \<in> set (between [''http11''] [''httpcore'']).
      lg_level (unconfigured q) = 0"
    by (simp add: unconfigured_def fresh_logger_def)
  ultimately have "written_by (main_logging unconfigured) ([''http11''] @ [''httpcore'']) INFO = []"
    using credentials_stay_out_of_logs[of "[''httpcore'']" INFO "[''http11'']" unconfigured] by simp
  then show ?thesis
    by (simp add: written_by_def basic_config_def set_level_def add_handler_def unconfigured_def fresh_logger_def)
qed

text \<open>The application's own records are written exactly once, by its own handler, whatever handlers the
  root has; debug records, such as the one of every queued webhook event, are not written at all.\<close>

theorem own_records_written_once:
  assumes "lg_handlers (ls balotly_logger) = []"
  shows "written_by (main_logging ls) balotly_logger level = (if level < INFO then [] else [0])"
proof -
  have "balotly_logger \<notin> set noisy_loggers" "balotly_logger \<noteq> []"
    by (simp_all add: balotly_logger_def noisy_loggers_def)
  then have "lg_level (main_logging ls balotly_logger) = INFO"
    "lg_handlers (main_logging ls balotly_logger) = [0]" "\<not> lg_propagate (main_logging ls balotly_logger)"
    using assms by (simp_all add: main_logging_def silenced_level basic_config_level logger_module_own)
  then show ?thesis by (simp add: written_by_def balotly_logger_def)
qed

theorem own_records_written_once_witness:
  "written_by (main_logging unconfigured) balotly_logger INFO = [0]"
  using own_records_written_once[of unconfigured INFO] by (simp add: unconfigured_def fresh_logger_def balotly_logger_def)

end
