(* ===== verification/Deployment.thy ===== *)
theory Deployment
  imports App RuntimeProps
begin

text \<open>
  The lifespan of \<open>main.py\<close> and a background service side by side. The lifespan is the list of calls
  it still makes and those it has made; between any two of them, and while it waits for \<open>stop()\<close>, the
  service does what it does. The lifespan knows the service by its operations alone, the interface
  \<open>background_service\<close>; the worker runtime provides it.
\<close>

section \<open>The interface of a background service\<close>

text \<open>\<open>sv_ask\<close> is the part of \<open>stop()\<close> before it waits, \<open>None\<close> when there is nothing to wait for,
  \<open>sv_returns\<close> the part after; \<open>sv_cancel\<close> is a cancellation of the waiting caller and \<open>sv_aborts\<close> how
  the call then ends; \<open>sv_work\<close> is a step of its own. \<open>app\<close> is what the lifespan has made of \<open>app.state\<close>:
  the runtime is published once \<open>start()\<close> has returned, and withdrawn once \<open>stop()\<close> has returned or
  raised.\<close>

record ('r, 'e) service_ops =
  sv_begin :: "'r \<Rightarrow> 'r option"
  sv_ask :: "'r \<Rightarrow> 'r option"
  sv_returns :: "'r \<Rightarrow> 'r option"
  sv_cancel :: "'r \<Rightarrow> 'r option"
  sv_aborts :: "'r \<Rightarrow> 'r option"
  sv_work :: "'r \<Rightarrow> 'e \<Rightarrow> 'r option"

record 'r sys =
  todo :: "app_call list"
  made :: "app_call list"
  waiting :: bool
  app :: app_state
  service :: 'r

datatype 'e sys_event = Proceed | StartFails | StopReturns | StopCancelled | StopFails | ServiceWorks 'e

text \<open>The current call ends; \<open>f\<close> is what the lifespan does to \<open>app.state\<close> after it.\<close>

definition advance :: "(app_state \<Rightarrow> app_state) \<Rightarrow> 'r sys \<Rightarrow> 'r \<Rightarrow> 'r sys" where
  "advance f s r = s\<lparr>todo := tl (todo s), made := made s @ [hd (todo s)], waiting := False,
     app := f (app s), service := r\<rparr>"

fun sys_step :: "('r, 'e) service_ops \<Rightarrow> (app_call \<Rightarrow> outcome) \<Rightarrow> 'r sys \<Rightarrow> 'e sys_event \<Rightarrow> 'r sys option" where
  "sys_step sv env s Proceed =
     (if waiting s then None else case todo s of [] \<Rightarrow> None
      | c # cs \<Rightarrow>
          if c = RuntimeStart then
            map_option (advance (if env c = Done then publish_runtime else id) s) (sv_begin sv (service s))
          else if c = RuntimeStop then
            (case sv_ask sv (service s) of None \<Rightarrow> Some (advance withdraw_runtime s (service s))
             | Some r \<Rightarrow> Some (s\<lparr>waiting := True, service := r\<rparr>))
          else Some (advance id s (service s)))"
| "sys_step sv env s StartFails =
     (case todo s of [] \<Rightarrow> None
      | c # cs \<Rightarrow> if c = RuntimeStart \<and> env c \<noteq> Done then Some (advance id s (service s)) else None)"
| "sys_step sv env s StopReturns =
     (if waiting s \<and> env RuntimeStop = Done then map_option (advance withdraw_runtime s) (sv_returns sv (service s)) else None)"
| "sys_step sv env s StopCancelled =
     (if waiting s \<and> env RuntimeStop \<noteq> Done then map_option (\<lambda>r. s\<lparr>service := r\<rparr>) (sv_cancel sv (service s)) else None)"
| "sys_step sv env s StopFails =
     (if waiting s \<and> env RuntimeStop \<noteq> Done then map_option (advance withdraw_runtime s) (sv_aborts sv (service s)) else None)"
| "sys_step sv env s (ServiceWorks e) =
     map_option (\<lambda>r. s\<lparr>service := r\<rparr>) (sv_work sv (service s) e)"

definition boot :: "app_call list \<Rightarrow> 'r \<Rightarrow> 'r sys" where
  "boot cs r = \<lparr>todo = cs, made = [], waiting = False, app = \<lparr>has_runtime = False, published = False\<rparr>, service = r\<rparr>"

section \<open>The order of the calls\<close>

lemma orderly_stop:
  "orderly (xs @ RuntimeStop # ys) \<Longrightarrow> RuntimeStart \<in> set xs \<and> RuntimeStop \<notin> set xs"
  unfolding orderly_def by (auto simp: append_eq_append_conv2 Cons_eq_append_conv append_eq_Cons_conv split: if_splits)

lemma orderly_start: "orderly (xs @ RuntimeStart # ys) \<Longrightarrow> RuntimeStop \<notin> set xs"
  unfolding orderly_def by (auto simp: append_eq_append_conv2 Cons_eq_append_conv append_eq_Cons_conv split: if_splits)

lemma orderly_close:
  "orderly (xs @ ys) \<Longrightarrow> c \<in> set xs \<Longrightarrow> c \<in> {MqClose, RedisClose, EngineDispose} \<Longrightarrow> RuntimeStart \<in> set xs \<Longrightarrow>
     RuntimeStop \<in> set xs"
  unfolding orderly_def by (auto simp: append_eq_append_conv2 Cons_eq_append_conv append_eq_Cons_conv split: if_splits)

section \<open>What the lifespan makes of the interface\<close>

locale background_service =
  fixes sv :: "('r, 'e) service_ops" and good :: "'r \<Rightarrow> bool" and idle :: "'r \<Rightarrow> bool"
  assumes begin_good: "good r \<Longrightarrow> sv_begin sv r = Some r' \<Longrightarrow> good r'"
    and ask_good: "good r \<Longrightarrow> sv_ask sv r = Some r' \<Longrightarrow> good r'"
    and returns_good: "good r \<Longrightarrow> sv_returns sv r = Some r' \<Longrightarrow> good r'"
    and cancel_good: "good r \<Longrightarrow> sv_cancel sv r = Some r' \<Longrightarrow> good r'"
    and aborts_good: "good r \<Longrightarrow> sv_aborts sv r = Some r' \<Longrightarrow> good r'"
    and work_good: "good r \<Longrightarrow> sv_work sv r e = Some r' \<Longrightarrow> good r'"
    and work_idle: "good r \<Longrightarrow> idle r \<Longrightarrow> sv_work sv r e = None"
    and nothing_to_wait_for: "good r \<Longrightarrow> sv_ask sv r = None \<Longrightarrow> idle r"
    and returns_idle: "good r \<Longrightarrow> sv_returns sv r = Some r' \<Longrightarrow> idle r'"
    and aborts_idle: "good r \<Longrightarrow> sv_aborts sv r = Some r' \<Longrightarrow> idle r'"
begin

text \<open>Unless it is idle, the service has been started and its \<open>stop\<close> has not returned.\<close>

definition sys_inv :: "app_call list \<Rightarrow> 'r sys \<Rightarrow> bool" where
  "sys_inv cs s \<longleftrightarrow> good (service s) \<and> orderly cs \<and> made s @ todo s = cs
     \<and> (waiting s \<longrightarrow> (\<exists>ds. todo s = RuntimeStop # ds))
     \<and> (idle (service s) \<or> RuntimeStart \<in> set (made s) \<and> RuntimeStop \<notin> set (made s))"

lemma sys_inv_advance:
  assumes "sys_inv cs s" "todo s = c # ds" "good r"
    and "idle r \<or> RuntimeStart \<in> set (made s @ [c]) \<and> RuntimeStop \<notin> set (made s @ [c])"
  shows "sys_inv cs (advance f s r)"
  using assms by (auto simp: sys_inv_def advance_def)

lemma proceed_inv:
  assumes "sys_inv cs s" "sys_step sv env s Proceed = Some t"
  shows "sys_inv cs t"
proof -
  obtain c ds where c: "todo s = c # ds" and w: "\<not> waiting s"
    using assms(2) by (auto split: if_splits list.splits)
  have g: "good (service s)" and o: "orderly (made s @ c # ds)"
    using assms(1) c by (auto simp: sys_inv_def)
  consider "c = RuntimeStart" | "c = RuntimeStop" | "c \<noteq> RuntimeStart" "c \<noteq> RuntimeStop" by blast
  then show ?thesis
  proof cases
    case 1
    then obtain r f where "sv_begin sv (service s) = Some r" "t = advance f s r"
      using assms(2) c w by auto
    then show ?thesis
      using sys_inv_advance[OF assms(1) c] begin_good[OF g] orderly_start[of "made s" ds] o 1 by auto
  next
    case 2
    then have "RuntimeStart \<in> set (made s)" "RuntimeStop \<notin> set (made s)" using orderly_stop o by auto
    then show ?thesis
      using assms c w 2 sys_inv_advance[OF assms(1) c g] nothing_to_wait_for[OF g] ask_good[OF g]
      by (auto simp: sys_inv_def split: option.splits)
  next
    case 3
    then have t: "t = advance id s (service s)" using assms(2) c w by auto
    have "idle (service s) \<or> RuntimeStart \<in> set (made s) \<and> RuntimeStop \<notin> set (made s)"
      using assms(1) by (simp add: sys_inv_def)
    then show ?thesis using sys_inv_advance[OF assms(1) c g] 3 t by auto
  qed
qed

lemma sys_step_inv:
  assumes inv: "sys_inv cs s" and step: "sys_step sv env s e = Some t"
  shows "sys_inv cs t"
proof -
  have g: "good (service s)" using inv by (simp add: sys_inv_def)
  have stop: "sys_inv cs (advance f s r)" if w: "waiting s" and r: "good r" "idle r" for f r
  proof -
    obtain ds where "todo s = RuntimeStop # ds" using inv w by (auto simp: sys_inv_def)
    then show ?thesis using sys_inv_advance[OF inv] r by blast
  qed
  show ?thesis
  proof (cases e)
    case Proceed
    then show ?thesis using proceed_inv inv step by blast
  next
    case StartFails
    then obtain ds where c: "todo s = RuntimeStart # ds" and t: "t = advance id s (service s)"
      using step by (auto split: list.splits if_splits)
    have "orderly (made s @ RuntimeStart # ds)" using inv c by (auto simp: sys_inv_def)
    then show ?thesis using sys_inv_advance[OF inv c g] orderly_start t by auto
  next
    case StopReturns
    then show ?thesis using step stop returns_good[OF g] returns_idle[OF g] by (auto split: if_splits)
  next
    case StopCancelled
    then obtain r where r: "waiting s" "sv_cancel sv (service s) = Some r" and t: "t = s\<lparr>service := r\<rparr>"
      using step by (auto split: if_splits)
    then obtain ds where "orderly (made s @ RuntimeStop # ds)" using inv by (auto simp: sys_inv_def)
    then have "RuntimeStart \<in> set (made s) \<and> RuntimeStop \<notin> set (made s)" by (rule orderly_stop)
    then show ?thesis using inv t cancel_good[OF g r(2)] by (simp add: sys_inv_def)
  next
    case StopFails
    then show ?thesis using step stop aborts_good[OF g] aborts_idle[OF g] by (auto split: if_splits)
  next
    case (ServiceWorks e)
    then obtain r where r: "sv_work sv (service s) e = Some r" and t: "t = s\<lparr>service := r\<rparr>"
      using step by auto
    have "\<not> idle (service s)" "good r" using work_idle[OF g] work_good[OF g] r by auto
    then show ?thesis using inv t by (simp add: sys_inv_def)
  qed
qed

lemma sys_run_inv: "sys_inv cs s \<Longrightarrow> run (sys_step sv env) s es = Some t \<Longrightarrow> sys_inv cs t"
  by (induction es arbitrary: s) (auto split: option.splits intro: sys_step_inv)

text \<open>The client's guarantee: what the service may use is closed only when the service is idle.\<close>

lemma closed_when_idle:
  assumes "orderly cs" "good r" "idle r"
    and "run (sys_step sv env) (boot cs r) es = Some s"
    and "c \<in> set (made s)" "c \<in> {MqClose, RedisClose, EngineDispose}"
  shows "idle (service s)"
proof -
  have "sys_inv cs (boot cs r)" using assms(1-3) by (simp add: sys_inv_def boot_def)
  then have "sys_inv cs s" using sys_run_inv assms(4) by blast
  then show ?thesis using orderly_close[of "made s" "todo s" c] assms(5,6) by (auto simp: sys_inv_def)
qed

end

section \<open>The worker runtime as the service\<close>

fun worker_event :: "event \<Rightarrow> bool" where
  "worker_event StartCall = False"
| "worker_event StopCall = False"
| "worker_event StopReturn = False"
| "worker_event StopCancel = False"
| "worker_event StopAbort = False"
| "worker_event _ = True"

text \<open>A \<open>stop\<close> that finds another one under way waits for its lock.\<close>

definition runtime_ops :: "(runtime, event) service_ops" where
  "runtime_ops = \<lparr>sv_begin = (\<lambda>rt. runtime_step rt StartCall),
     sv_ask = (\<lambda>rt. if started rt then runtime_step rt StopCall else if stopping rt then Some rt else None),
     sv_returns = (\<lambda>rt. runtime_step rt StopReturn), sv_cancel = (\<lambda>rt. runtime_step rt StopCancel),
     sv_aborts = (\<lambda>rt. runtime_step rt StopAbort),
     sv_work = (\<lambda>rt e. if worker_event e then runtime_step rt e else None)\<rparr>"

definition runtime_idle :: "runtime \<Rightarrow> bool" where
  "runtime_idle rt \<longleftrightarrow> (\<forall>w. \<not> unfinished rt w)"

lemma idle_stuck: "runtime_idle rt \<Longrightarrow> worker_event e \<Longrightarrow> runtime_step rt e = None"
proof (cases e)
qed (auto simp: runtime_idle_def unfinished_def dest: spec split: option.splits task.splits task_pc.splits bool.splits)

lemma down_idle:
  assumes "runtime_inv rt" "\<not> started rt" "\<not> stopping rt"
  shows "runtime_idle rt"
proof -
  have "\<not> unfinished rt w" for w
    using runtime_inv_worker(2)[OF assms(1), of w] assms(2,3)
    by (cases "tasks rt w") (auto simp: unfinished_def)
  then show ?thesis by (simp add: runtime_idle_def)
qed

lemma stop_ends_idle:
  assumes "runtime_inv rt" "runtime_step rt e = Some rt'" "e = StopReturn \<or> e = StopAbort"
  shows "runtime_idle rt'"
proof (rule down_idle)
  show "runtime_inv rt'" by (rule runtime_step_inv[OF assms(1,2)])
  show "\<not> started rt'" "\<not> stopping rt'"
    using assms by (auto simp: runtime_inv_def stop_finish_def stop_abort_def split: if_splits)
qed

lemma runtime_ops_simps:
  "sv_begin runtime_ops rt = runtime_step rt StartCall"
  "sv_ask runtime_ops rt = (if started rt then runtime_step rt StopCall else if stopping rt then Some rt else None)"
  "sv_returns runtime_ops rt = runtime_step rt StopReturn"
  "sv_cancel runtime_ops rt = runtime_step rt StopCancel"
  "sv_aborts runtime_ops rt = runtime_step rt StopAbort"
  "sv_work runtime_ops rt e = (if worker_event e then runtime_step rt e else None)"
  by (simp_all add: runtime_ops_def)

interpretation workers: background_service runtime_ops runtime_inv runtime_idle
proof
  fix r r' assume r: "runtime_inv r"
  note step = runtime_step_inv[OF r]
  show "sv_begin runtime_ops r = Some r' \<Longrightarrow> runtime_inv r'" unfolding runtime_ops_simps by (rule step)
  show "sv_ask runtime_ops r = Some r' \<Longrightarrow> runtime_inv r'"
    using step r unfolding runtime_ops_simps by (metis option.distinct(1) option.inject)
  show "sv_returns runtime_ops r = Some r' \<Longrightarrow> runtime_inv r'" unfolding runtime_ops_simps by (rule step)
  show "sv_cancel runtime_ops r = Some r' \<Longrightarrow> runtime_inv r'" unfolding runtime_ops_simps by (rule step)
  show "sv_aborts runtime_ops r = Some r' \<Longrightarrow> runtime_inv r'" unfolding runtime_ops_simps by (rule step)
  show "sv_ask runtime_ops r = None \<Longrightarrow> runtime_idle r"
    using down_idle[OF r] r by (auto simp: runtime_ops_simps runtime_inv_def split: if_splits)
  show "sv_returns runtime_ops r = Some r' \<Longrightarrow> runtime_idle r'"
    using stop_ends_idle[OF r, of StopReturn] unfolding runtime_ops_simps by blast
  show "sv_aborts runtime_ops r = Some r' \<Longrightarrow> runtime_idle r'"
    using stop_ends_idle[OF r, of StopAbort] unfolding runtime_ops_simps by blast
next
  fix r r' e assume r: "runtime_inv r"
  show "runtime_idle r \<Longrightarrow> sv_work runtime_ops r e = None"
    using idle_stuck unfolding runtime_ops_simps by simp
  show "sv_work runtime_ops r e = Some r' \<Longrightarrow> runtime_inv r'"
    using runtime_step_inv[OF r] by (auto simp: runtime_ops_simps split: if_splits)
qed

section \<open>Properties\<close>

text \<open>C17: Shutdown cannot race a worker: in every interleaving of the lifespan with the workers, whatever
  the other calls do and however the workers exit, once the broker, Redis or the engine has been
  closed no supervisor task is unfinished, also when the lifespan is cancelled while it waits for
  \<open>stop()\<close>.\<close>

theorem clients_outlive_workers:
  assumes "init_runtime gap names base mx = Inr rt0"
    and "run (sys_step runtime_ops env) (boot (calls_of (lifespan embedded (Inr (Some rt0)) env st)) rt0) es = Some s"
    and "c \<in> set (made s)" and "c \<in> {MqClose, RedisClose, EngineDispose}"
  shows "\<not> unfinished (service s) w"
proof -
  have inv: "runtime_inv rt0" by (rule init_runtime_inv[OF assms(1)])
  have "runtime_idle rt0"
    using assms(1) by (intro down_idle[OF inv]) (auto simp: init_runtime_def)
  then have "runtime_idle (service s)"
    using workers.closed_when_idle[OF lifespan_orderly inv _ assms(2-4)] by blast
  then show ?thesis by (simp add: runtime_idle_def)
qed

text \<open>One life of the application: two workers, of which one is at work when the shutdown begins.\<close>

definition all_well :: "app_call \<Rightarrow> outcome" where
  "all_well c = Done"

definition demo_calls :: "(app_call \<Rightarrow> outcome) \<Rightarrow> app_call list" where
  "demo_calls env = calls_of (lifespan True (Inr (Some demo_runtime)) env \<lparr>has_runtime = False, published = False\<rparr>)"

definition demo_life :: "event sys_event list" where
  "demo_life = replicate 6 Proceed @ [ServiceWorks (TaskBegin (lit ''poster'')), Proceed, Proceed]"

lemma demo_calls_eq:
  "env EngineConnect = Done \<Longrightarrow> env SelectOne = Done \<Longrightarrow> env ConnectionClose = Done \<Longrightarrow> env RedisPing = Done \<Longrightarrow>
   env MqConnect = Done \<Longrightarrow> env RuntimeStart = Done \<Longrightarrow>
   demo_calls env = [EngineConnect, SelectOne, ConnectionClose, RedisPing, MqConnect, RuntimeStart, Serve,
     RuntimeStop, MqClose, RedisClose, EngineDispose]"
  by (simp add: demo_calls_def lifespan_def startup_and_serve_def start_workers_def shutdown_def effects)

theorem clients_outlive_workers_witness:
  "\<exists>s. run (sys_step runtime_ops all_well) (boot (demo_calls all_well) demo_runtime)
        (demo_life @ [ServiceWorks (TaskBegin (lit ''webhook'')), ServiceWorks (RunnerExit (lit ''poster'') RaisesCancelled),
           StopReturns, Proceed]) = Some s
     \<and> MqClose \<in> set (made s) \<and> \<not> unfinished (service s) (lit ''poster'')"
proof -
  let ?es = "demo_life @ [ServiceWorks (TaskBegin (lit ''webhook'')), ServiceWorks (RunnerExit (lit ''poster'') RaisesCancelled),
           StopReturns, Proceed]"
  have calls: "demo_calls all_well = [EngineConnect, SelectOne, ConnectionClose, RedisPing, MqConnect, RuntimeStart,
     Serve, RuntimeStop, MqClose, RedisClose, EngineDispose]"
    by (rule demo_calls_eq) (simp_all add: all_well_def)
  have "\<exists>s. run (sys_step runtime_ops all_well) (boot (demo_calls all_well) demo_runtime) ?es = Some s
      \<and> MqClose \<in> set (made s)"
    by (simp add: calls boot_def demo_life_def numeral_nat advance_def runtime_ops_simps all_well_def demo_simps)
  then obtain s where s: "run (sys_step runtime_ops all_well) (boot (demo_calls all_well) demo_runtime) ?es = Some s"
    "MqClose \<in> set (made s)" by blast
  show ?thesis
    using clients_outlive_workers[OF demo_init s(1)[unfolded demo_calls_def] s(2)] s by blast
qed

end
