(* ===== verification/Health.thy ===== *)
theory Health
  imports Deployment
begin

text \<open>
  What \<open>/health\<close> answers while the application lives: \<open>health_check\<close> of \<open>main.py\<close> beside the lifespan and the
  workers. The endpoint is no coroutine, so FastAPI runs it in a thread: it reads \<open>app.state\<close> first and
  then, field by field, the runtime it found there, while the event loop goes on.
\<close>

section \<open>A request\<close>

text \<open>\<open>s\<close> is the system when the request reads \<open>app.state\<close>, \<open>seen r\<close> the system at the reading \<open>r\<close>.\<close>

definition app_state_runtime :: "runtime sys \<Rightarrow> runtime option" where
  "app_state_runtime s = (if published (app s) then Some (service s) else None)"

definition health_answer :: "runtime sys \<Rightarrow> (reading \<Rightarrow> runtime sys) \<Rightarrow> health" where
  "health_answer s seen = health_check (app_state_runtime s) (\<lambda>r. service (seen r))"

section \<open>True reports\<close>

text \<open>A reported state against the supervisor's task: it is the state of the task, \<open>stopped\<close> where there is
  none, and possibly \<open>stopping\<close> once the runtime is no longer on. A reported delay: there is one exactly
  while the task sleeps, and it is within the configured bounds.\<close>

definition state_true :: "runtime \<Rightarrow> pystr \<Rightarrow> worker_state \<Rightarrow> bool" where
  "state_true rt w x = (case tasks rt w of None \<Rightarrow> x = Stopped
     | Some t \<Rightarrow> x = expected_state (pc t) \<or> \<not> started rt \<and> x = Stopping)"

definition delay_true :: "runtime \<Rightarrow> pystr \<Rightarrow> rat option \<Rightarrow> bool" where
  "delay_true rt w d = ((d \<noteq> None) = (map_option pc (tasks rt w) = Some InSleep)
     \<and> (case d of None \<Rightarrow> True | Some d \<Rightarrow> base_backoff (config rt) \<le> d \<and> d \<le> max_backoff (config rt)))"

lemma worker_reported:
  assumes "runtime_inv rt" "config_sane (config rt)" "w \<in> set (runners rt)"
  shows "state_true rt w (state (statuses rt w))" and "delay_true rt w (next_retry_seconds (statuses rt w))"
proof -
  note inv = runtime_inv_worker(1)[OF assms(1,3)]
  then show "state_true rt w (state (statuses rt w))"
    by (cases "tasks rt w") (auto simp: state_true_def split: if_splits)
  have "base_backoff (config rt) \<le> d \<and> d \<le> max_backoff (config rt)" if "next_retry_seconds (statuses rt w) = Some d" for d
  proof -
    have "retry_seconds (config rt) (restart_count (statuses rt w) - 1) = Inr d"
      using inv that by (cases "tasks rt w") (auto simp: sleeping_status_def split: if_splits)
    then show ?thesis using retry_seconds_bounds[OF assms(2)] by blast
  qed
  then show "delay_true rt w (next_retry_seconds (statuses rt w))"
    using inv by (cases "tasks rt w") (auto simp: delay_true_def sleeping_status_def split: if_splits option.splits)
qed

text \<open>A worker whose status is the same at all four readings is reported with the status it has, and one
  that backs off then with the delay of its last failure.\<close>

definition undisturbed :: "(reading \<Rightarrow> runtime) \<Rightarrow> pystr \<Rightarrow> bool" where
  "undisturbed seen w \<longleftrightarrow>
     list_all (\<lambda>r. statuses (seen r) w = statuses (seen (ReadState w)) w) [ReadCount w, ReadExit w, ReadRetry w]"

definition item_true :: "backoff_config \<Rightarrow> (reading \<Rightarrow> runtime) \<Rightarrow> pystr \<Rightarrow> worker_status \<Rightarrow> bool" where
  "item_true cfg seen w st \<longleftrightarrow> state_true (seen (ReadState w)) w (state st)
     \<and> delay_true (seen (ReadRetry w)) w (next_retry_seconds st)
     \<and> (undisturbed seen w \<longrightarrow> st = statuses (seen (ReadState w)) w \<and> (state st = Backoff \<longrightarrow> sleeping_status cfg st))"

lemma undisturbed_status: "undisturbed seen w \<Longrightarrow> status_seen seen w = statuses (seen (ReadState w)) w"
  by (simp add: undisturbed_def status_seen_def)

section \<open>The life of the application\<close>

definition life_inv :: "(app_call \<Rightarrow> outcome) \<Rightarrow> app_call list \<Rightarrow> runtime \<Rightarrow> runtime sys \<Rightarrow> bool" where
  "life_inv env cs rt0 s \<longleftrightarrow> env RuntimeStart = Done \<and> orderly cs \<and> made s @ todo s = cs
     \<and> (waiting s \<longrightarrow> (\<exists>ds. todo s = RuntimeStop # ds))
     \<and> runtime_inv (service s) \<and> runners (service s) = runners rt0 \<and> config (service s) = config rt0
     \<and> published (app s) = (RuntimeStart \<in> set (made s) \<and> RuntimeStop \<notin> set (made s))
     \<and> started (service s) = (published (app s) \<and> \<not> waiting s) \<and> stopping (service s) = waiting s"

lemma life_runtime_step:
  "life_inv env cs rt0 s \<Longrightarrow> runtime_step (service s) e = Some r \<Longrightarrow>
     runtime_inv r \<and> runners r = runners rt0 \<and> config r = config rt0"
  using runtime_step_inv[of "service s" e r] runtime_step_constants[of "service s" e r] by (auto simp: life_inv_def)

lemma life_waiting: "life_inv env cs rt0 s \<Longrightarrow> waiting s \<Longrightarrow> published (app s)"
  unfolding life_inv_def by (metis orderly_stop)

lemma worker_flags:
  assumes "runtime_step rt e = Some rt'" "worker_event e"
  shows "started rt' = started rt \<and> stopping rt' = stopping rt"
proof -
  obtain w where "worker_of e = Some w" using assms(2) by (cases e) auto
  with assms(1) obtain p where "rt' = set_worker rt w p" by (rule worker_step_form)
  then show ?thesis by simp
qed

lemma life_proceed:
  assumes inv: "life_inv env cs rt0 s" and step: "sys_step runtime_ops env s Proceed = Some t"
  shows "life_inv env cs rt0 t"
proof -
  obtain c ds where c: "todo s = c # ds" and w: "\<not> waiting s"
    using step by (auto split: if_splits list.splits)
  have cs: "orderly (made s @ c # ds)" and ok: "env RuntimeStart = Done" using inv c by (auto simp: life_inv_def)
  consider "c = RuntimeStart" | "c = RuntimeStop" | "c \<noteq> RuntimeStart" "c \<noteq> RuntimeStop" by blast
  then show ?thesis
  proof cases
    case 1
    then have "RuntimeStop \<notin> set (made s)" using orderly_start cs by blast
    moreover obtain r where r: "runtime_step (service s) StartCall = Some r" "t = advance publish_runtime s r"
      using step c w 1 ok by (auto simp: runtime_ops_simps)
    moreover have "started r" "\<not> stopping r" using r(1) by (auto simp: start_def split: if_splits)
    ultimately show ?thesis
      using inv c 1 w life_runtime_step[OF inv r(1)] by (auto simp: life_inv_def advance_def publish_runtime_def)
  next
    case 2
    then have m: "RuntimeStart \<in> set (made s)" "RuntimeStop \<notin> set (made s)" using orderly_stop cs by auto
    then have on: "started (service s)" "\<not> stopping (service s)" using inv w by (auto simp: life_inv_def)
    then obtain r where r: "runtime_step (service s) StopCall = Some r" "t = s\<lparr>waiting := True, service := r\<rparr>"
      using step c w 2 by (auto simp: runtime_ops_simps split: option.splits if_splits)
    moreover have "\<not> started r" "stopping r" using r(1) on by (auto simp: stop_begin_def split: if_splits)
    ultimately show ?thesis using inv c 2 m life_runtime_step[OF inv r(1)] by (auto simp: life_inv_def)
  next
    case 3
    then have "t = advance id s (service s)" using step c w by auto
    then show ?thesis using inv c w 3 by (auto simp: life_inv_def advance_def)
  qed
qed

lemma life_stop_ends:
  assumes inv: "life_inv env cs rt0 s" and w: "waiting s"
    and r: "runtime_step (service s) e = Some r" "e = StopReturn \<or> e = StopAbort"
  shows "life_inv env cs rt0 (advance withdraw_runtime s r)"
proof -
  have "\<not> started r" "\<not> stopping r"
    using inv w r by (auto simp: life_inv_def stop_finish_def stop_abort_def split: if_splits)
  then show ?thesis
    using inv w life_runtime_step[OF inv r(1)] by (auto simp: life_inv_def advance_def withdraw_runtime_def)
qed

lemma life_step:
  assumes inv: "life_inv env cs rt0 s" and step: "sys_step runtime_ops env s e = Some t"
  shows "life_inv env cs rt0 t"
proof (cases e)
  case Proceed
  then show ?thesis using life_proceed inv step by blast
next
  case StartFails
  then show ?thesis using inv step by (auto simp: life_inv_def split: list.splits if_splits)
next
  case StopReturns
  then obtain r where "waiting s" "runtime_step (service s) StopReturn = Some r" "t = advance withdraw_runtime s r"
    using step unfolding StopReturns sys_step.simps runtime_ops_simps by (auto simp del: runtime_step.simps split: if_splits)
  then show ?thesis using life_stop_ends[OF inv] by blast
next
  case StopCancelled
  then obtain r where r: "waiting s" "runtime_step (service s) StopCancel = Some r" "t = s\<lparr>service := r\<rparr>"
    using step unfolding StopCancelled sys_step.simps runtime_ops_simps by (auto simp del: runtime_step.simps split: if_splits)
  moreover have "started r = started (service s)" "stopping r = stopping (service s)"
    using r(2) by (auto simp: stop_cancel_def split: if_splits)
  ultimately show ?thesis using inv life_runtime_step[OF inv r(2)] by (auto simp: life_inv_def)
next
  case StopFails
  then obtain r where "waiting s" "runtime_step (service s) StopAbort = Some r" "t = advance withdraw_runtime s r"
    using step unfolding StopFails sys_step.simps runtime_ops_simps by (auto simp del: runtime_step.simps split: if_splits)
  then show ?thesis using life_stop_ends[OF inv] by blast
next
  case (ServiceWorks e)
  then obtain r where r: "runtime_step (service s) e = Some r" "worker_event e" "t = s\<lparr>service := r\<rparr>"
    using step unfolding ServiceWorks sys_step.simps runtime_ops_simps by (auto simp del: runtime_step.simps split: if_splits)
  then show ?thesis using inv worker_flags[OF r(1,2)] life_runtime_step[OF inv r(1)] by (auto simp: life_inv_def)
qed

interpretation life: step_invariant "sys_step runtime_ops env" "life_inv env cs rt0" for env cs rt0
  by standard (rule life_step)

lemma life_reached:
  assumes "init_runtime gap names base mx = Inr rt0" and "env RuntimeStart = Done"
    and "run (sys_step runtime_ops env) (boot (calls_of (lifespan embedded (Inr (Some rt0)) env st)) rt0) es = Some s"
  shows "life_inv env (calls_of (lifespan embedded (Inr (Some rt0)) env st)) rt0 s"
proof (rule life.run_inv[OF _ assms(3)])
  have "\<not> started rt0" "\<not> stopping rt0" using assms(1) by (auto simp: init_runtime_def)
  then show "life_inv env (calls_of (lifespan embedded (Inr (Some rt0)) env st)) rt0
      (boot (calls_of (lifespan embedded (Inr (Some rt0)) env st)) rt0)"
    using init_runtime_inv[OF assms(1)] assms(2) lifespan_orderly by (simp add: life_inv_def boot_def)
qed

section \<open>Properties\<close>

text \<open>C14: The health check tells the truth, although it reads field by field while the lifespan and the
  workers go on: in every interleaving, for a runtime that the constructor accepts and whose \<open>start()\<close>
  does not raise, with \<open>log2\<close> as accurate as \<open>log2_gap_ok\<close> states, and whatever steps \<open>fs\<close> the system takes
  during the request. It says \<open>external\<close> only if no supervisor task was unfinished when it looked; when it
  says \<open>embedded\<close> it lists every worker once, in the order of registration; \<open>running\<close> is whether at that
  reading the runtime was published and not being stopped; each state is that of the worker's task at
  its reading, possibly \<open>stopping\<close> once the runtime is no longer on; each delay is within the bounds, and
  shown exactly if the worker slept at its reading; a worker whose status did not change meanwhile is
  reported with exactly that status, and if that is \<open>backoff\<close>, with the delay of its last failure. It
  answers \<open>healthy\<close> whatever the workers do.\<close>

theorem health_is_truthful:
  assumes "init_runtime gap names base mx = Inr rt0"
    and "\<And>b m. base = Fin b \<Longrightarrow> mx = Fin m \<Longrightarrow> log2_gap_ok gap m b" and "env RuntimeStart = Done"
    and "run (sys_step runtime_ops env) (boot (calls_of (lifespan embedded (Inr (Some rt0)) env st)) rt0) es = Some s"
    and "\<And>r. run (sys_step runtime_ops env) s (take (moment r) fs) = Some (seen r)"
  shows "h_status (health_answer s seen) = ''healthy''
     \<and> (case h_workers (health_answer s seen) of
          None \<Rightarrow> h_worker_mode (health_answer s seen) = ''external'' \<and> (\<forall>w. \<not> unfinished (service s) w)
        | Some (running, items) \<Rightarrow> h_worker_mode (health_answer s seen) = ''embedded'' \<and> map fst items = names
            \<and> running = (published (app (seen ReadStarted)) \<and> \<not> waiting (seen ReadStarted))
            \<and> (\<forall>(w, st) \<in> set items. item_true (config rt0) (\<lambda>r. service (seen r)) w st))"
proof -
  note inv = life_reached[OF assms(1,3,4)]
  note later = life.run_inv[OF inv assms(5)]
  have names: "runners rt0 = names" using assms(1) by (auto simp: init_runtime_def)
  have rt: "runtime_inv (service (seen r))" "runners (service (seen r)) = names" "config (service (seen r)) = config rt0" for r
    using later[of r] names by (auto simp: life_inv_def)
  have running: "started (service (seen r)) = (published (app (seen r)) \<and> \<not> waiting (seen r))" for r
    using later[of r] by (simp add: life_inv_def)
  have sane: "config_sane (config rt0)" by (rule init_config_sane[OF assms(1,2)])
  have reported: "state_true (service (seen r)) w (state (statuses (service (seen r)) w))"
    "delay_true (service (seen r)) w (next_retry_seconds (statuses (service (seen r)) w))" if "w \<in> set names" for r w
    using worker_reported[of "service (seen r)" w] rt[of r] sane that by simp_all
  have backoff: "sleeping_status (config rt0) (statuses (service (seen r)) w)"
    if "w \<in> set names" "state (statuses (service (seen r)) w) = Backoff" for r w
    using runtime_inv_worker(1)[OF rt(1), of w r] rt[of r] that backoff_sleeping by simp
  show ?thesis
  proof (cases "published (app s)")
    case True
    have "item_true (config rt0) (\<lambda>r. service (seen r)) w (status_seen (\<lambda>r. service (seen r)) w)"
      if "w \<in> set names" for w
      using reported[OF that] backoff[OF that] undisturbed_status[of "\<lambda>r. service (seen r)" w]
      by (auto simp: item_true_def status_seen_def)
    moreover have "runners (service s) = names" using inv names by (simp add: life_inv_def)
    ultimately show ?thesis using True running
      by (auto simp: health_answer_def app_state_runtime_def health_check_def status_snapshot_def comp_def)
  next
    case False
    then have "runtime_idle (service s)"
      using inv life_waiting[OF inv] down_idle[of "service s"] by (auto simp: life_inv_def)
    then show ?thesis using False
      by (auto simp: health_answer_def app_state_runtime_def health_check_def runtime_idle_def)
  qed
qed

text \<open>While the shutdown waits for the worker at work: still embedded, no longer running.\<close>

theorem health_is_truthful_witness:
  "\<exists>s. run (sys_step runtime_ops all_well) (boot (demo_calls all_well) demo_runtime) demo_life = Some s
     \<and> (case h_workers (health_answer s (\<lambda>_. s)) of None \<Rightarrow> False
        | Some (running, items) \<Rightarrow> \<not> running \<and> map fst items = [lit ''poster'', lit ''webhook'']
            \<and> (\<forall>(w, st) \<in> set items. state_true (service s) w (state st)))"
proof -
  have calls: "demo_calls all_well = [EngineConnect, SelectOne, ConnectionClose, RedisPing, MqConnect, RuntimeStart,
     Serve, RuntimeStop, MqClose, RedisClose, EngineDispose]"
    by (rule demo_calls_eq) (simp_all add: all_well_def)
  have "\<exists>s. run (sys_step runtime_ops all_well) (boot (demo_calls all_well) demo_runtime) demo_life = Some s
      \<and> waiting s \<and> published (app s)"
    by (simp add: calls boot_def demo_life_def numeral_nat advance_def runtime_ops_simps all_well_def demo_simps
        publish_runtime_def)
  then obtain s where s: "run (sys_step runtime_ops all_well) (boot (demo_calls all_well) demo_runtime) demo_life = Some s"
    "waiting s" "published (app s)" by blast
  have ok: "all_well RuntimeStart = Done" by (simp add: all_well_def)
  have "run (sys_step runtime_ops all_well) s (take 0 []) = Some s" by simp
  from health_is_truthful[OF demo_init demo_gap ok s(1)[unfolded demo_calls_def] this] s show ?thesis
    by (auto simp: health_answer_def app_state_runtime_def health_check_def status_snapshot_def item_true_def
        split: option.splits)
qed

text \<open>What the readings of a worker that steps in between can show: its state before a failure, and the
  delay after it.\<close>

theorem health_can_be_torn:
  "\<exists>s t. run (sys_step runtime_ops all_well) (boot (demo_calls all_well) demo_runtime)
        (replicate 6 Proceed @ [ServiceWorks (TaskBegin (lit ''poster''))]) = Some s
     \<and> run (sys_step runtime_ops all_well) s [ServiceWorks (RunnerExit (lit ''poster'') Raises)] = Some t
     \<and> (case h_workers (health_answer s (\<lambda>r. if r = ReadState (lit ''poster'') then s else t)) of None \<Rightarrow> False
        | Some (_, items) \<Rightarrow> state (snd (hd items)) = Running \<and> next_retry_seconds (snd (hd items)) = Some 1)"
proof -
  have calls: "demo_calls all_well = [EngineConnect, SelectOne, ConnectionClose, RedisPing, MqConnect, RuntimeStart,
     Serve, RuntimeStop, MqClose, RedisClose, EngineDispose]"
    by (rule demo_calls_eq) (simp_all add: all_well_def)
  show ?thesis
    by (simp add: calls boot_def numeral_nat advance_def runtime_ops_simps all_well_def demo_simps
        publish_runtime_def health_answer_def app_state_runtime_def health_check_def status_snapshot_def status_seen_def)
qed

end
