(* ===== verification/Broker.thy ===== *)
theory Broker
  imports App Mq
begin

text \<open>
  The lifespan of \<open>main.py\<close> and the connection of \<open>api/core/mq.py\<close> together, with the publishers that call
  \<open>connect\<close> beside it: what the calls that the lifespan makes, and the steps of the publishers while it
  waits for them, leave of the connection. \<open>connect\<close> tests the global before its \<open>await\<close> and assigns it
  after, so two dials can be under way at once; a counter beside the state tells how often.
\<close>

section \<open>The lifespan beside the publishers\<close>

text \<open>How many dials \<open>e\<close> begins while another is under way: none or one.\<close>

definition beside :: "mq \<Rightarrow> mq_event \<Rightarrow> nat" where
  "beside m e = (if e = ConnectBegin \<and> \<not> usable m \<and> dialling m \<noteq> 0 then 1 else 0)"

fun watched_step :: "mq \<times> nat \<Rightarrow> mq_event \<Rightarrow> (mq \<times> nat) option" where
  "watched_step (m, k) e = map_option (\<lambda>m'. (m', k + beside m e)) (mq_step m e)"

text \<open>\<open>traffic c\<close> are the steps of publishers in \<open>connect\<close>, and the drops by the broker, while the lifespan
  waits for \<open>c\<close>. A \<open>connect\<close> or \<open>close\<close> of the lifespan begins before them and ends after them, where it
  waits at all.\<close>

definition broker_events :: "(app_call \<Rightarrow> outcome) \<Rightarrow> (app_call \<Rightarrow> mq_event list) \<Rightarrow> mq \<Rightarrow> app_call \<Rightarrow> mq_event list" where
  "broker_events env traffic m c =
     (case c of
        MqConnect \<Rightarrow> ConnectBegin # traffic c @ (if usable m then [] else [ConnectEnd (env c = Done)])
      | MqClose \<Rightarrow> CloseBegin # traffic c @ (if usable m then [CloseEnd (the (connection m)) (env c = Done)] else [])
      | _ \<Rightarrow> traffic c)"

definition broker_step ::
  "(app_call \<Rightarrow> outcome) \<Rightarrow> (app_call \<Rightarrow> mq_event list) \<Rightarrow> mq \<times> nat \<Rightarrow> app_call \<Rightarrow> (mq \<times> nat) option" where
  "broker_step env traffic mk c = run watched_step mk (broker_events env traffic (fst mk) c)"

fun publisher_event :: "mq_event \<Rightarrow> bool" where
  "publisher_event ConnectBegin = True"
| "publisher_event (ConnectEnd _) = True"
| "publisher_event (Dropped _) = True"
| "publisher_event _ = False"

fun drop_event :: "mq_event \<Rightarrow> bool" where
  "drop_event (Dropped _) = True"
| "drop_event _ = False"

section \<open>Connections and dials\<close>

text \<open>Connections that are open or being dialled: at most one more than were dialled beside another.\<close>

definition accounted :: "mq \<times> nat \<Rightarrow> bool" where
  "accounted mk \<longleftrightarrow> length (open_conns (fst mk)) + dialling (fst mk) \<le> Suc (snd mk)
     \<and> (\<not> usable (fst mk) \<and> dialling (fst mk) = 0 \<longrightarrow> length (open_conns (fst mk)) \<le> snd mk)"

lemma usable_drop: "usable m \<Longrightarrow> \<not> usable (m\<lparr>open_conns := removeAll c (open_conns m)\<rparr>) \<Longrightarrow> c \<in> set (open_conns m)"
  by (auto simp: usable_def split: option.splits)

lemma accounted_drop:
  assumes "accounted (m, k)"
  shows "accounted (m\<lparr>open_conns := removeAll c (open_conns m)\<rparr>, k)"
proof -
  have le: "length (removeAll c (open_conns m)) \<le> length (open_conns m)" by (simp add: removeAll_filter_not_eq)
  moreover have "length (removeAll c (open_conns m)) \<le> k"
    if "\<not> usable (m\<lparr>open_conns := removeAll c (open_conns m)\<rparr>)" "dialling m = 0"
  proof (cases "usable m")
    case True
    then have "length (removeAll c (open_conns m)) < length (open_conns m)"
      using usable_drop that(1) length_removeAll_less by metis
    then show ?thesis using assms that(2) by (simp add: accounted_def)
  next
    case False
    then have "length (open_conns m) \<le> k" using assms that(2) by (simp add: accounted_def)
    then show ?thesis by (rule order_trans[OF le])
  qed
  moreover have "length (removeAll c (open_conns m)) + dialling m \<le> Suc k"
    using assms by (intro order_trans[OF add_right_mono[OF le]]) (simp add: accounted_def)
  ultimately show ?thesis unfolding accounted_def by auto
qed

lemma accounted_publisher:
  assumes "accounted (m, k)" "publisher_event e" "watched_step (m, k) e = Some (m', k')"
  shows "accounted (m', k')"
proof (cases e)
  case ConnectBegin
  then show ?thesis using assms by (auto simp: accounted_def beside_def connect_begin_def usable_def split: if_splits)
next
  case (ConnectEnd ok)
  then show ?thesis using assms
    by (cases ok) (auto simp: accounted_def beside_def connect_end_def usable_def split: if_splits)
next
  case (Dropped c)
  then show ?thesis using assms accounted_drop by (auto simp: beside_def)
qed (use assms(2) in simp_all)

lemma accounted_publishers:
  "accounted mk \<Longrightarrow> list_all publisher_event es \<Longrightarrow> run watched_step mk es = Some mk' \<Longrightarrow> accounted mk'"
proof (induction es arbitrary: mk)
  case Nil
  then show ?case by simp
next
  case (Cons e es)
  obtain m k where mk: "mk = (m, k)" by (cases mk)
  obtain m' k' where step: "watched_step (m, k) e = Some (m', k')" and rest: "run watched_step (m', k') es = Some mk'"
    using Cons.prems(3) mk by (auto split: option.splits)
  have "accounted (m', k')" using accounted_publisher[OF _ _ step] Cons.prems(1,2) mk by simp
  then show ?case using Cons.IH rest Cons.prems(2) by simp
qed

text \<open>While only the broker acts, no dial begins or ends and the global keeps its value.\<close>

lemma drops_frame:
  "run watched_step (m, k) es = Some (m', k') \<Longrightarrow> list_all drop_event es \<Longrightarrow>
     k' = k \<and> connection m' = connection m \<and> closing m' = closing m \<and> dialling m' = dialling m"
proof (induction es arbitrary: m k)
  case Nil
  then show ?case by simp
next
  case (Cons e es)
  then show ?case by (cases e) (auto simp: beside_def)
qed

lemma drop_is_publisher: "list_all drop_event es \<Longrightarrow> list_all publisher_event es"
proof (induction es)
  case (Cons e es)
  then show ?case by (cases e) auto
qed simp

text \<open>The call of \<open>close\<close>, with nothing but drops beside it.\<close>

lemma close_accounted:
  assumes "accounted (m, k)" "list_all drop_event (traffic MqClose)"
    and "broker_step env traffic (m, k) MqClose = Some (m', k')"
  shows "accounted (m', k')" and "env MqClose = Done \<Longrightarrow> connection m' = None"
proof -
  let ?fin = "\<lambda>c. CloseEnd c (env MqClose = Done)"
  let ?b = "close_begin m"
  have b: "accounted (?b, k)"
    using assms(1) by (auto simp: accounted_def close_begin_def usable_def split: option.splits)
  have run: "run watched_step (?b, k) (traffic MqClose @ (if usable m then [?fin (the (connection m))] else [])) = Some (m', k')"
    using assms(3) by (simp add: broker_step_def broker_events_def beside_def)
  obtain u j where u: "run watched_step (?b, k) (traffic MqClose) = Some (u, j)"
    and rest: "run watched_step (u, j) (if usable m then [?fin (the (connection m))] else []) = Some (m', k')"
    using run by (auto simp: run_append split: option.splits)
  have acc: "accounted (u, j)" by (rule accounted_publishers[OF b drop_is_publisher[OF assms(2)] u])
  have frame: "connection u = connection ?b" using drops_frame[OF u assms(2)] by blast
  show "accounted (m', k')"
  proof (cases "usable m \<and> env MqClose = Done")
    case True
    then obtain c where c: "connection m = Some c" "connection u = Some c"
      using frame by (auto simp: usable_def close_begin_def split: option.splits if_splits)
    then have m': "m' = close_end c True u" "k' = j" using rest True by (auto simp: beside_def split: if_splits)
    have "accounted (u\<lparr>open_conns := removeAll c (open_conns u)\<rparr>, j)" by (rule accounted_drop[OF acc])
    then show ?thesis using c(2) m' by (auto simp: accounted_def close_end_def usable_def)
  next
    case False
    then show ?thesis using rest acc
      by (auto simp: beside_def close_end_def accounted_def usable_def split: if_splits option.splits)
  qed
  show "connection m' = None" if "env MqClose = Done"
    using rest that frame by (auto simp: close_end_def beside_def usable_def close_begin_def split: if_splits option.splits)
qed

section \<open>The life of the application\<close>

lemma other_calls_accounted:
  assumes "accounted mk" "c \<noteq> MqClose" "list_all publisher_event (traffic c)"
    and "broker_step env traffic mk c = Some mk'"
  shows "accounted mk'"
proof -
  have "list_all publisher_event (broker_events env traffic (fst mk) c)"
    using assms(2,3) by (auto simp: broker_events_def split: app_call.splits)
  then show ?thesis using accounted_publishers[OF assms(1)] assms(4) by (simp add: broker_step_def)
qed

lemma calls_accounted:
  "accounted mk \<Longrightarrow> MqClose \<notin> set cs \<Longrightarrow> (\<And>c. list_all publisher_event (traffic c)) \<Longrightarrow>
     run (broker_step env traffic) mk cs = Some mk' \<Longrightarrow> accounted mk'"
proof (induction cs arbitrary: mk)
  case Nil
  then show ?case by simp
next
  case (Cons c cs)
  obtain u where step: "broker_step env traffic mk c = Some u" and rest: "run (broker_step env traffic) u cs = Some mk'"
    using Cons.prems(4) by (auto split: option.splits)
  have "accounted u" using other_calls_accounted[OF Cons.prems(1) _ Cons.prems(3) step] Cons.prems(2) by auto
  then show ?case using Cons.IH rest Cons.prems(2,3) by simp
qed

text \<open>C33: How many broker connections outlive the application. Whatever the lifespan and its services do, and
  however publishers call \<open>connect\<close> beside it and beside each other, the connections that are open when
  the application has ended are at most as many as the dials that began while another was under way, and
  one more if the call that closes the connection failed: none, where the publishers take turns. This
  holds with a broker that was down at the start, that dropped the connection, or that was dialled again
  by a publisher. Publishers only connect, and are quiet once the lifespan closes the broker: the
  workers have stopped by then. (\<open>concurrent_connects_leak\<close> is a run in which the bound is reached.)\<close>

theorem connections_that_outlive_the_application:
  assumes "\<And>c. list_all publisher_event (traffic c)"
    and "\<And>c. c \<in> {MqClose, RedisClose, EngineDispose} \<Longrightarrow> list_all drop_event (traffic c)"
    and "run (broker_step env traffic) (mq_init, 0) (calls_of (lifespan embedded built env s)) = Some (m, k)"
  shows "length (open_conns m) + (dialling m - 1) \<le> (if env MqClose = Done then k else Suc k)
     \<and> (if env MqClose = Done then connection m = None else True)"
proof -
  obtain before where life: "calls_of (lifespan embedded built env s) = before @ [MqClose, RedisClose, EngineDispose]"
    and first: "MqClose \<notin> set before"
    using lifespan_orderly[of embedded built env s] unfolding orderly_def by fastforce
  obtain u where u: "run (broker_step env traffic) (mq_init, 0) before = Some u"
    and rest: "run (broker_step env traffic) u [MqClose, RedisClose, EngineDispose] = Some (m, k)"
    using assms(3) by (auto simp: life run_append split: option.splits)
  obtain m1 k1 m2 k2 where closed: "broker_step env traffic u MqClose = Some (m1, k1)"
    and then1: "broker_step env traffic (m1, k1) RedisClose = Some (m2, k2)"
    and then2: "broker_step env traffic (m2, k2) EngineDispose = Some (m, k)"
    using rest by (auto split: option.splits)
  have "accounted (mq_init, 0)" by (simp add: accounted_def mq_init_def)
  then have "accounted u" using calls_accounted u first assms(1) by blast
  then have acc1: "accounted (m1, k1)" and none1: "env MqClose = Done \<Longrightarrow> connection m1 = None"
    using close_accounted[of "fst u" "snd u" traffic env m1 k1] closed assms(2)[of MqClose] by simp_all
  have quiet: "run watched_step (m1, k1) (traffic RedisClose) = Some (m2, k2)"
    "run watched_step (m2, k2) (traffic EngineDispose) = Some (m, k)"
    using then1 then2 by (simp_all add: broker_step_def broker_events_def)
  have acc: "accounted (m, k)"
    using accounted_publishers[OF accounted_publishers[OF acc1 assms(1) quiet(1)] assms(1) quiet(2)] .
  have none: "connection m = None" if "env MqClose = Done"
    using drops_frame[OF quiet(1)] drops_frame[OF quiet(2)] assms(2) none1[OF that] by simp
  show ?thesis using acc none by (auto simp: accounted_def usable_def)
qed

text \<open>A broker that is down when the application starts, and that two publishers dial, one after the other and
  side by side.\<close>

theorem connections_that_outlive_the_application_witness:
  "let env = (\<lambda>_. Done)(MqConnect := Exc); idle = \<lparr>has_runtime = False, published = False\<rparr>;
     turns = (\<lambda>_. [])(Serve := [ConnectBegin, ConnectEnd True, ConnectBegin]);
     side_by_side = (\<lambda>_. [])(Serve := [ConnectBegin, ConnectBegin, ConnectEnd True, ConnectEnd True]) in
   (\<exists>m. run (broker_step env turns) (mq_init, 0) (calls_of (lifespan False (Inr None) env idle)) = Some (m, 0)
      \<and> open_conns m = [])
   \<and> (\<exists>m. run (broker_step env side_by_side) (mq_init, 0) (calls_of (lifespan False (Inr None) env idle)) = Some (m, 1)
      \<and> length (open_conns m) = 1)"
proof -
  let ?env = "(\<lambda>_. Done)(MqConnect := Exc)" and ?idle = "\<lparr>has_runtime = False, published = False\<rparr>"
  let ?turns = "(\<lambda>_. [])(Serve := [ConnectBegin, ConnectEnd True, ConnectBegin])"
  let ?sides = "(\<lambda>_. [])(Serve := [ConnectBegin, ConnectBegin, ConnectEnd True, ConnectEnd True])"
  let ?cs = "calls_of (lifespan False (Inr None) ?env ?idle)"
  have cs: "?cs = [EngineConnect, SelectOne, ConnectionClose, RedisPing, MqConnect, Serve, MqClose, RedisClose, EngineDispose]"
    by (simp add: lifespan_def startup_and_serve_def start_workers_def shutdown_def effects)
  note compute = broker_step_def broker_events_def beside_def mq_init_def usable_def connect_begin_def connect_end_def
    close_begin_def close_end_def
  obtain m where m: "run (broker_step ?env ?turns) (mq_init, 0) ?cs = Some (m, 0)"
    by (simp only: cs) (simp add: compute)
  have "list_all publisher_event (?turns c)" for c by simp
  moreover have "list_all drop_event (?turns c)" if "c \<in> {MqClose, RedisClose, EngineDispose}" for c using that by auto
  ultimately have "open_conns m = []"
    using connections_that_outlive_the_application[of ?turns ?env False "Inr None" ?idle m 0] m by simp
  moreover have "\<exists>m. run (broker_step ?env ?sides) (mq_init, 0) ?cs = Some (m, 1) \<and> length (open_conns m) = 1"
    by (simp only: cs) (simp add: compute)
  ultimately show ?thesis using m by (auto simp: Let_def)
qed

end
