(* ===== verification/Spec2Isabelle.thy ===== *)
theory Spec2Isabelle
  imports RuntimeSpec OrmProps Reprs OrmWrite LedgerSpec Deletion Statuses Database Startup SecurityProps
    Storage Mq Logs Health Broker Conformance
begin

text \<open>
  A verification library for the Balotly backend, a FastAPI service for paid contest voting. File
  names below are under \<open>src/\<close>; the migration is \<open>alembic/versions/07f7b6151968_initial_schema.py\<close>.

  \<^bold>\<open>The program.\<close> At this commit the backend is its foundation. The database schema, created by the
  migration and declared again by the ORM models (\<open>api/v1/models\<close>), carries the product's rules:
  votes are append-only and backed by transactions, a payment reference is recorded once, a voter
  under an identity cap pays once, money is never cascaded away. Around it stand the vault and the
  password hashing (\<open>api/core/security.py\<close>), the broker client (\<open>api/core/mq.py\<close>), the database URL
  (\<open>api/db/url.py\<close>) that the engine (\<open>api/db/database.py\<close>) and Alembic (\<open>alembic/env.py\<close>) share, the
  supervisor of background workers (\<open>workers/runtime.py\<close>), and \<open>main.py\<close>, whose lifespan opens and
  closes all of these. No route serves business logic yet.

  \<^bold>\<open>Theories.\<close>
  \<^item> \<open>Prelude\<close>: results that may be errors (\<open>res_bind\<close>, \<open>res_fold\<close>), runs of a step function
    (\<open>run\<close>), and the interfaces: the locale \<open>step_invariant\<close> (a step keeps an invariant, so every run
    does) and its extension \<open>simulation\<close> (a step is one of a specification, so every run is a run of
    it), \<open>step_monotone\<close> (a step only moves up a preorder), \<open>codec\<close> (a decoder reads back what the
    encoder wrote) and its extension \<open>codec_seq\<close> (two codecs in a row).
  \<^item> \<open>PyText\<close>, \<open>Utf8\<close>, \<open>Json\<close>, \<open>Base64\<close>, \<open>Sha256\<close>, \<open>UrlLib\<close>, \<open>Effects\<close>: the parts of Python and of its standard
    library that the code uses. A \<open>str\<close> is a list of code points (surrogates included), \<open>bytes\<close> a list
    of \<open>8 word\<close>, exceptions are \<open>py_error\<close>. SHA-256 and HMAC work on \<open>32 word\<close> as FIPS 180-4 and
    RFC 2104 write them, the constants computed from the roots of the primes. \<open>UrlLib\<close> has \<open>urlsplit\<close>, \<open>urlunsplit\<close>, \<open>parse_qsl\<close> and \<open>urlencode\<close>.
    \<open>Json\<close> has \<open>json.dumps\<close> with all its errors (the room for nested calls is an argument, \<open>room\<close>) and, as
    what its texts mean, \<open>json.loads\<close>. \<open>Effects\<close> has \<open>try\<close>, \<open>except\<close>, \<open>finally\<close> and \<open>async with\<close> over calls whose outcome the environment chooses.
  \<^item> \<open>Backoff\<close>, \<open>Runtime\<close>, \<open>RuntimeInv\<close>, \<open>RuntimeProps\<close>: \<open>workers/runtime.py\<close>. \<open>init_runtime\<close> is
    \<open>__init__\<close>, \<open>start\<close> is \<open>start\<close>, \<open>stop_begin\<close> and \<open>stop_finish\<close> are \<open>stop\<close> before and after its
    \<open>gather\<close>, \<open>stop_cancel\<close> and \<open>stop_abort\<close> a \<open>gather\<close> whose caller is cancelled, \<open>loop_head\<close>, \<open>after_runner\<close>, \<open>back_off\<close> and \<open>supervise_finally\<close> are the parts of
    \<open>_supervise\<close> between its suspensions, \<open>runtime_step\<close> puts them together, and \<open>status_snapshot\<close> is
    the health view, read field by field. \<open>RuntimeInv\<close> proves the invariant of every interleaving, \<open>RuntimeProps\<close> the bounds of
    the delays, the counting of restarts, the isolation of workers, that \<open>stop\<close> ends when the runners
    obey, and the two ways in which a disobedient runner defeats it. \<open>RuntimeSpec\<close> states what the
    runtime promises without tasks and flags, as the step relation \<open>service_step\<close>, and proves that the
    runtime refines it.
  \<^item> \<open>Sql\<close>, \<open>Schema\<close>, \<open>Engine\<close>: PostgreSQL as far as the migration uses it. \<open>Sql\<close> has values with
    \<open>NULL\<close>, types with their ranges, and conditions in three-valued logic; \<open>Schema\<close> has tables, indexes,
    triggers and the DDL as operations that may fail; \<open>Engine\<close> has \<open>INSERT\<close>, \<open>UPDATE\<close>, \<open>DELETE\<close> and
    \<open>TRUNCATE\<close> with defaults, constraints, foreign key actions and triggers. \<open>EngineInv\<close> proves, for any
    schema, what accepted statements keep.
  \<^item> \<open>Migration\<close>, \<open>Migrated\<close>: \<open>upgrade\<close> and \<open>downgrade\<close> as lists of DDL statements in their order, one
    definition per \<open>op.create_table\<close>; \<open>balotly_schema\<close> is the result of running \<open>upgrade\<close> on an empty
    database. \<open>Ledger\<close>, \<open>LedgerProps\<close>: the engine on that schema and the rules above. \<open>LedgerSpec\<close>: an
    abstract ledger of payments and ballots, and the refinement of it by the database under any
    statements. \<open>Deletion\<close>: where the rows that a deletion leaves come from, and why nothing a payment
    rests on can be deleted. \<open>Statuses\<close>: what a row must carry for the status it has, and that the schema
    leaves the order of a contest's statuses open.
  \<^item> \<open>Orm\<close>, \<open>OrmProps\<close>: every model class as the data it declares (columns with their annotations,
    constraints, defaults, relationships), the metadata the declarative layer makes of them, and their
    agreement with the migrated schema. \<open>Mapper\<close>: how a relationship finds its foreign key and what an
    attribute loads (\<open>load\<close>), and that the database keeps what the annotations promise. \<open>OrmWrite\<close>: what
    the ORM makes of the attributes of a new object (an attribute that is \<open>None\<close> is one that is not set) and of
    an update: \<open>default=\<close> and \<open>onupdate=\<close>. \<open>Reprs\<close>: every \<open>__repr__\<close>
    as the parts of its f-string, and what they never show.
  \<^item> \<open>DbUrl\<close>: \<open>build_async_url\<close>, the arguments of the two engines, that of \<open>database.py\<close> and that of
    \<open>alembic/env.py\<close>, and the globals of \<open>env.py\<close>. \<open>Database\<close>: the imports of \<open>env.py\<close>, the offline and online migration runs of \<open>alembic/env.py\<close> and the session dependency.
  \<^item> \<open>Security\<close>, \<open>SecurityProps\<close>: every function of \<open>api/core/security.py\<close>, on a state with the two
    caches, the entropy drawn and the cost factors of the bcrypt computations made (a call that raises makes
    none), and the life of a process that calls them in any order (\<open>sec_step\<close>). \<open>Storage\<close>: passwords and account numbers
    from there into their columns and back.
  \<^item> \<open>Mq\<close>: \<open>connect\<close> and \<open>close\<close> as steps between \<open>await\<close>s on the module's global, and \<open>_publish\<close> with the body
    of its message. \<open>Broker\<close>: the lifespan, the connection, and publishers that dial beside
    it and beside each other.
  \<^item> \<open>Config\<close>: \<open>Settings\<close> with all its fields, its resolution from the environment (\<open>load_settings\<close>), and
    the arguments that the pool, Redis, the middleware and uvicorn are given. \<open>App\<close>: the lifespan, the
    health check and the routes of \<open>main.py\<close>, the runtime built from the settings, \<open>api_error\<close>,
    \<open>success_response\<close> and \<open>redact\<close>. \<open>Startup\<close>: what importing \<open>main.py\<close> does, and with it the whole way from
    the environment to serving. \<open>Logs\<close>: the logging set-up of \<open>main.py\<close> and
    \<open>api/utils/logger.py\<close> on a model of the hierarchy of loggers. \<open>Deployment\<close>: the lifespan and the
    worker runtime side by side, with \<open>stop()\<close> waiting, returning, or being cancelled. \<open>Health\<close>: what
    \<open>/health\<close>, which runs in a thread, answers while the two go on.
  \<^item> \<open>Conformance\<close>: the assertions of the repository's tests of URLs and of the schema contract, as lemmas on
    the model.

  \<^bold>\<open>Interfaces.\<close> \<open>step_invariant\<close> is interpreted by the runtime, by the database under any statements, by
  the application with its workers, by the broker module (with and without overlapping calls), and by a
  process that calls the functions of the cryptography; \<open>simulation\<close> by the runtime towards
  \<open>service_step\<close> and by the database towards \<open>ledger_step\<close>; \<open>background_service\<close>, what the lifespan needs
  of a service it starts and stops, by the worker runtime; \<open>step_monotone\<close> by the vote log; \<open>codec\<close>
  and \<open>codec_seq\<close> by UTF-8, percent quoting, query pairs and strings, base64, the body of a
  queued message, and the escaping of the Alembic configuration value. The
  properties about histories and round trips rest on these.

  \<^bold>\<open>Decisions.\<close> Coroutines switch only at an \<open>await\<close>, so the code between two of them is one step, and
  the order of steps is arbitrary; \<open>start\<close> and \<open>stop\<close> hold the lifecycle lock, so they do not overlap,
  and a cancelled \<open>stop\<close> still waits for its tasks (\<open>asyncio.gather\<close> raises when all are done). The one
  thread beside the event loop is that of \<open>/health\<close>; each field it reads is that of some moment, and the
  moments follow each other. A database statement is judged by its result: keys and checks hold
  of the tables it would leave, or it fails with the first constraint violated and nothing changes;
  concurrent transactions are taken in the order in which they commit. PostgreSQL checks a unique key
  row by row, so an \<open>UPDATE\<close> that exchanges keys can fail there and not here; a foreign key action is
  followed level by level. Floats that the code only compares, doubles or caps are rationals with the
  three special values, which is exact for them.

  \<^bold>\<open>Bounds.\<close> A cascading deletion is given as many levels as there are tables (10);
  \<open>cascade_is_bounded\<close> shows that 5 are enough in this schema and that more change nothing. The reader of
  JSON is given one unit of fuel more than the text has characters; \<open>loads_dumps\<close> shows that this is
  enough for every text that is written. The witnesses run concrete histories: a short history of
  insertions that fills a database with one contest, and short lives of a runtime with one or two workers.

  \<^bold>\<open>What is taken from outside.\<close> AES-GCM and bcrypt are arguments of the model (\<open>crypto_env\<close>), with their
  documented contract in \<open>aes_gcm_ok\<close> (decryption inverts encryption), \<open>bcrypt_ok\<close> (a generated hash
  has cost factor 12, verifies, and can be checked against any input; only \<open>ValueError\<close> and \<open>TypeError\<close> are
  raised) and \<open>bcrypt_form\<close> (a hash is 60 printable
  characters); the parsers of pydantic are the argument \<open>parsers\<close>, what the constructors of redis and
  SQLAlchemy accept is the argument \<open>clients\<close>; the floating-point logarithm is the argument
  \<open>gap\<close>, close to the real one by \<open>log2_gap_ok\<close>; the validation of the network location that
  \<open>urlsplit\<close> delegates to Unicode normalisation and \<open>ipaddress\<close> is the argument \<open>netloc_ok\<close>.
  SQLAlchemy's declarative layer is what \<open>Orm\<close>, \<open>Mapper\<close> and \<open>OrmWrite\<close> say of it, from its
  documentation: the metadata of a class, the join of a relationship, the type of a loaded value, the
  defaults of a write. Otherwise SQLAlchemy, Alembic, aio-pika, redis and FastAPI are called and not
  modelled; what the lifespan and the broker client see of them is the outcome of each call.

  \<^bold>\<open>Not modelled.\<close> What the middleware, the pool, Redis and uvicorn do with their arguments, the order in
  which SQLAlchemy's unit of work flushes objects, the clock (\<open>utcnow\<close>), and the empty packages for
  schemas and services: these lines only pass constants to third-party code, or are that code.
\<close>

end
